(* ===== verification/Prelude.thy ===== *)
theory Prelude
  imports Main "HOL-Library.Word" "HOL-Library.Signed_Division" "HOL-Library.Multiset"
begin

text \<open>
  Shared vocabulary of the development: the widths of the C integers, bytes and byte
  strings, the errors that \<^verbatim>\<open>ereport(ERROR, ...)\<close> raises, sequencing of fallible steps,
  big- and little-endian readings of byte lists, and the list facts several components use.

  C integers are either \<open>'w word\<close> values, where the code works on bits, or \<open>int\<close>s with the
  wrap-around of the assignment written out (\<open>wrap32\<close>, \<open>wrap64\<close>); PostgreSQL is compiled
  with \<^verbatim>\<open>-fwrapv\<close>, so signed overflow wraps.  C's \<^verbatim>\<open>/\<close> and \<^verbatim>\<open>%\<close> truncate towards zero:
  \<open>sdiv\<close> and \<open>smod\<close>.
\<close>

unbundle bit_operations_syntax

named_theorems byte_simps \<open>values, lengths and positions of byte lists\<close>
named_theorems result_simps \<open>evaluation of fallible steps\<close>

type_synonym byte = "8 word"
type_synonym bytes = "byte list"
type_synonym u16 = "16 word"
type_synonym u32 = "32 word"
type_synonym u64 = "64 word"

definition INT16_MIN :: int where "INT16_MIN = - (2 ^ 15)"
definition INT16_MAX :: int where "INT16_MAX = 2 ^ 15 - 1"
definition INT32_MIN :: int where "INT32_MIN = - (2 ^ 31)"
definition INT32_MAX :: int where "INT32_MAX = 2 ^ 31 - 1"
definition INT64_MIN :: int where "INT64_MIN = - (2 ^ 63)"
definition INT64_MAX :: int where "INT64_MAX = 2 ^ 63 - 1"

lemmas int_limits = INT16_MIN_def INT16_MAX_def INT32_MIN_def INT32_MAX_def
  INT64_MIN_def INT64_MAX_def

definition wrap32 :: "int \<Rightarrow> int" where
  "wrap32 x = sint (word_of_int x :: u32)"

definition wrap64 :: "int \<Rightarrow> int" where
  "wrap64 x = sint (word_of_int x :: u64)"

definition is_i16 :: "int \<Rightarrow> bool" where
  "is_i16 x \<longleftrightarrow> INT16_MIN \<le> x \<and> x \<le> INT16_MAX"

definition is_i32 :: "int \<Rightarrow> bool" where
  "is_i32 x \<longleftrightarrow> INT32_MIN \<le> x \<and> x \<le> INT32_MAX"

definition is_i64 :: "int \<Rightarrow> bool" where
  "is_i64 x \<longleftrightarrow> INT64_MIN \<le> x \<and> x \<le> INT64_MAX"

lemma wrap32_alt: "wrap32 x = (x + 2 ^ 31) mod 2 ^ 32 - 2 ^ 31"
  by (simp add: wrap32_def int_word_sint)

lemma wrap64_alt: "wrap64 x = (x + 2 ^ 63) mod 2 ^ 64 - 2 ^ 63"
  by (simp add: wrap64_def int_word_sint)

lemma wrap32_id [simp]: "is_i32 x \<Longrightarrow> wrap32 x = x"
  by (simp add: wrap32_alt is_i32_def int_limits)

lemma wrap64_id [simp]: "is_i64 x \<Longrightarrow> wrap64 x = x"
  by (simp add: wrap64_alt is_i64_def int_limits)

lemma is_i32_wrap32 [simp]: "is_i32 (wrap32 x)"
proof -
  have "0 \<le> (x + 2 ^ 31) mod 2 ^ 32" "(x + 2 ^ 31) mod 2 ^ 32 < (2 ^ 32 :: int)"
    by simp_all
  then show ?thesis
    unfolding wrap32_alt is_i32_def int_limits by simp
qed

lemma is_i64_wrap64 [simp]: "is_i64 (wrap64 x)"
proof -
  have "0 \<le> (x + 2 ^ 63) mod 2 ^ 64" "(x + 2 ^ 63) mod 2 ^ 64 < (2 ^ 64 :: int)"
    by simp_all
  then show ?thesis
    unfolding wrap64_alt is_i64_def int_limits by simp
qed

lemma is_i32_imp_i64: "is_i32 x \<Longrightarrow> is_i64 x"
  by (simp add: is_i32_def is_i64_def int_limits)

lemma is_i16_imp_i32: "is_i16 x \<Longrightarrow> is_i32 x"
  by (simp add: is_i32_def is_i16_def int_limits)


section \<open>Truncating division\<close>

text \<open>The rounding of a C remainder: C's \<^verbatim>\<open>((v % w) + w) % w\<close> is the floor remainder.\<close>

lemma smod_pos_cases:
  fixes v w :: int
  assumes "0 < w"
  shows "v smod w = v mod w \<or> v smod w = v mod w - w"
proof (cases "0 \<le> v \<or> w dvd v")
  case True
  have "v smod w = v mod w"
  proof (cases "w dvd v")
    case True
    then show ?thesis by (simp add: signed_modulo_int_def)
  next
    case False
    with \<open>0 \<le> v \<or> w dvd v\<close> have "0 < v" by (cases "v = 0") auto
    then show ?thesis using assms by (simp add: signed_modulo_int_def)
  qed
  then show ?thesis ..
next
  case False
  then have neg: "v < 0" and nd: "\<not> w dvd v" by auto
  have m0: "v mod w \<noteq> 0" using nd by (simp add: dvd_eq_mod_eq_0)
  have "v smod w = - ((- v) mod w)"
    using neg assms by (simp add: signed_modulo_int_def sgn_if)
  also have "(- v) mod w = w - v mod w"
    using m0 by (simp add: zmod_zminus1_eq_if)
  finally show ?thesis by simp
qed

lemma smod_nonneg: "0 \<le> (x::int) \<Longrightarrow> 0 < y \<Longrightarrow> x smod y = x mod y"
  by (cases "x = 0") (simp_all add: signed_modulo_int_def)

lemma floor_remainder:
  fixes v w :: int
  assumes "0 < w"
  shows "(v smod w + w) smod w = v mod w"
proof -
  have r: "0 \<le> v mod w" "v mod w < w" using assms by simp_all
  from smod_pos_cases [OF assms, of v] have "0 \<le> v smod w + w" using r by auto
  then have "(v smod w + w) smod w = (v smod w + w) mod w"
    using assms by (rule smod_nonneg)
  also have "\<dots> = v mod w"
    using smod_pos_cases [OF assms, of v] r by auto
  finally show ?thesis .
qed

lemma sdiv_nonneg: "0 \<le> (x::int) \<Longrightarrow> 0 < y \<Longrightarrow> x sdiv y = x div y"
  by (cases "x = 0") (simp_all add: signed_divide_int_def)


section \<open>Errors and sequencing\<close>

text \<open>
  One constructor per kind of \<^verbatim>\<open>ereport(ERROR, ...)\<close> the modelled code raises, and
  \<open>Trap\<close> for the machine trap of an integer division by zero.
\<close>

datatype pg_error =
    InternalError string
  | FeatureNotSupported string
  | InvalidParameter string
  | DatetimeOutOfRange string
  | DatatypeMismatch string
  | DuplicateObject string
  | QueryCanceled string
  | SyntaxError string
  | UndefinedColumn string
  | Trap

type_synonym 'a result = "pg_error + 'a"

definition result_bind :: "'a result \<Rightarrow> ('a \<Rightarrow> 'b result) \<Rightarrow> 'b result" where
  "result_bind r f = (case r of Inl e \<Rightarrow> Inl e | Inr x \<Rightarrow> f x)"

lemma result_bind_simps [simp, result_simps]:
  "result_bind (Inl e) f = Inl e"
  "result_bind (Inr x) f = f x"
  by (simp_all add: result_bind_def)

lemma result_bind_Inr_iff:
  "result_bind r f = Inr y \<longleftrightarrow> (\<exists>x. r = Inr x \<and> f x = Inr y)"
  by (cases r) simp_all

lemma result_bindE:
  assumes "result_bind r f = Inr y"
  obtains x where "r = Inr x" "f x = Inr y"
  using assms by (auto simp: result_bind_Inr_iff)

text \<open>Mapping a fallible function over a list stops at the first error, as a C loop would.\<close>

fun result_map :: "('a \<Rightarrow> 'b result) \<Rightarrow> 'a list \<Rightarrow> 'b list result" where
  "result_map f [] = Inr []"
| "result_map f (x # xs) =
     result_bind (f x) (\<lambda>y. result_bind (result_map f xs) (\<lambda>ys. Inr (y # ys)))"

lemma result_map_Inr_iff:
  "result_map f xs = Inr ys \<longleftrightarrow> list_all2 (\<lambda>x y. f x = Inr y) xs ys"
  by (induction xs arbitrary: ys) (auto simp: result_bind_Inr_iff list_all2_Cons1)

lemma result_map_length: "result_map f xs = Inr ys \<Longrightarrow> length ys = length xs"
  by (simp add: result_map_Inr_iff list_all2_lengthD)


section \<open>Byte lists as numbers\<close>

fun be_value :: "bytes \<Rightarrow> nat" where
  "be_value [] = 0"
| "be_value (b # bs) = unat b * 256 ^ length bs + be_value bs"

fun le_bytes :: "nat \<Rightarrow> nat \<Rightarrow> bytes" where
  "le_bytes 0 n = []"
| "le_bytes (Suc k) n = of_nat n # le_bytes k (n div 256)"

fun le_value :: "bytes \<Rightarrow> nat" where
  "le_value [] = 0"
| "le_value (b # bs) = unat b + 256 * le_value bs"

lemma length_le_bytes [simp, byte_simps]: "length (le_bytes k n) = k"
  by (induction k arbitrary: n) simp_all

lemma le_bytes_add: "le_bytes (a + b) n = le_bytes a n @ le_bytes b (n div 256 ^ a)"
  by (induction a arbitrary: n) (simp_all add: div_mult2_eq)

lemma unat_byte_less [simp]: "unat (b :: byte) < 256"
  using unsigned_less [where 'b = 8, of b] by simp

lemma le_value_bound: "le_value bs < 256 ^ length bs"
proof (induction bs)
  case (Cons b bs)
  have "unat b + 256 * le_value bs < 256 + 256 * le_value bs" by simp
  also have "\<dots> \<le> 256 * 256 ^ length bs" using Cons by simp
  finally show ?case by simp
qed simp

lemma le_value_le_bytes [byte_simps]: "le_value (le_bytes k n) = n mod 256 ^ k"
proof (induction k arbitrary: n)
  case (Suc k)
  have "n mod (256 * 256 ^ k) = 256 * (n div 256 mod 256 ^ k) + n mod 256"
    by (simp add: mod_mult2_eq)
  then show ?case by (simp add: Suc unat_of_nat)
qed simp

lemma le_bytes_le_value [byte_simps]: "le_bytes (length bs) (le_value bs) = bs"
proof (induction bs)
  case (Cons b bs)
  have "of_nat (unat b + 256 * le_value bs) = (of_nat (unat b) :: byte)"
    by (simp only: word_unat_eq_iff unat_of_nat) simp
  with Cons show ?case by simp
qed simp

lemma be_value_bound: "be_value bs < 256 ^ length bs"
proof (induction bs)
  case (Cons b bs)
  have "unat b * 256 ^ length bs + be_value bs < (unat b + 1) * 256 ^ length bs"
    using Cons by simp
  also have "\<dots> \<le> 256 * 256 ^ length bs"
    using unat_byte_less [of b] by (intro mult_right_mono) (simp_all del: unat_byte_less)
  finally show ?case by simp
qed simp

lemma be_value_append [byte_simps]:
  "be_value (xs @ ys) = be_value xs * 256 ^ length ys + be_value ys"
  by (induction xs) (simp_all add: power_add algebra_simps)

lemma be_value_replicate_0 [simp, byte_simps]: "be_value (replicate n 0) = 0"
  by (induction n) simp_all

lemma be_value_snoc: "be_value (xs @ [b]) = 256 * be_value xs + unat b"
  by (simp add: be_value_append)

lemma be_value_inject:
  "length xs = length ys \<Longrightarrow> be_value xs = be_value ys \<Longrightarrow> xs = ys"
proof (induction xs ys rule: list_induct2)
  case (Cons x xs y ys)
  let ?m = "256 ^ length ys :: nat"
  have less: "be_value xs < ?m" "be_value ys < ?m"
    using be_value_bound [of xs] be_value_bound [of ys] Cons.hyps by simp_all
  from Cons.prems Cons.hyps have eq: "unat x * ?m + be_value xs = unat y * ?m + be_value ys"
    by simp
  have "unat x = (unat x * ?m + be_value xs) div ?m" using less by simp
  also have "\<dots> = unat y" using less unfolding eq by simp
  finally have "unat x = unat y" .
  with eq Cons.IH show ?case by (simp add: word_unat_eq_iff)
qed simp


section \<open>Bits\<close>

lemma bit_unat: "bit (unat w) k \<longleftrightarrow> bit w k" for w :: "'a::len word"
  by (simp add: bit_unsigned_iff bit_imp_le_length)

lemma bit_div_pow: "bit (n div 2 ^ j :: nat) k \<longleftrightarrow> bit n (j + k)"
proof -
  have "bit (drop_bit j n) k \<longleftrightarrow> bit n (j + k)"
    by (rule bit_drop_bit_eq [THEN fun_cong, unfolded o_def])
  then show ?thesis by (simp only: drop_bit_eq_div)
qed


section \<open>Lists\<close>

lemma filter_partition_mset: "mset (filter P xs) + mset (filter (\<lambda>x. \<not> P x) xs) = mset xs"
  by (induction xs) simp_all

lemma mset_concat_map: "mset (concat (map f xs)) = (\<Sum>x\<leftarrow>xs. mset (f x))"
  by (induction xs) simp_all

lemma sum_list_mset_eq: "mset xs = mset ys \<Longrightarrow> (\<Sum>x\<leftarrow>xs. f x) = (\<Sum>x\<leftarrow>ys. f x :: 'b :: comm_monoid_add)"
  by (metis mset_map sum_mset_sum_list)

end
