(* ===== verification/Murmur.thy ===== *)
theory Murmur
  imports Prelude
begin

text \<open>
  \<^verbatim>\<open>pg_lake_iceberg/src/utils/murmur.c\<close>: the 32-bit MurmurHash3 that assigns rows to the
  buckets of a bucket-partitioned Iceberg table.  All arithmetic is on 32-bit words, as in
  the source.  The lemmas show that the integer variants agree with the byte-string variant
  on the little-endian bytes of their argument and that every mixing step is a bijection.
\<close>

section \<open>Mixing steps\<close>

definition rotl32 :: "u32 \<Rightarrow> nat \<Rightarrow> u32" where
  "rotl32 x r = push_bit r x OR drop_bit (32 - r) x"

definition fmix32 :: "u32 \<Rightarrow> u32" where
  "fmix32 h =
     (let fm1 = 0x85ebca6b; fm2 = 0xc2b2ae35;
          h = h XOR drop_bit 16 h;
          h = h * fm1;
          h = h XOR drop_bit 13 h;
          h = h * fm2;
          h = h XOR drop_bit 16 h
      in h)"

definition mixk1 :: "u32 \<Rightarrow> u32" where
  "mixk1 k1 =
     (let c1 = 0xcc9e2d51; c2 = 0x1b873593;
          k1 = k1 * c1;
          k1 = rotl32 k1 15;
          k1 = k1 * c2
      in k1)"

definition mixh1 :: "u32 \<Rightarrow> u32 \<Rightarrow> u32" where
  "mixh1 seed k1 =
     (let h1 = seed XOR k1;
          h1 = rotl32 h1 13;
          h1 = h1 * 5 + 0xe6546b64
      in h1)"


section \<open>The three entry points\<close>

text \<open>Block \<open>i\<close> of the key, read little-endian.\<close>

definition murmur_block :: "bytes \<Rightarrow> nat \<Rightarrow> u32" where
  "murmur_block data i =
     ucast (data ! (4 * i + 0))
     OR push_bit 8 (ucast (data ! (4 * i + 1)))
     OR push_bit 16 (ucast (data ! (4 * i + 2)))
     OR push_bit 24 (ucast (data ! (4 * i + 3)))"

definition murmur_tail :: "bytes \<Rightarrow> nat \<Rightarrow> u32 \<Rightarrow> u32" where
  "murmur_tail tail rest h1 =
     (let k1 = 0;
          k1 = (if rest = 3 then k1 XOR push_bit 16 (ucast (tail ! 2)) else k1);
          k1 = (if rest = 3 \<or> rest = 2 then k1 XOR push_bit 8 (ucast (tail ! 1)) else k1)
      in if rest = 3 \<or> rest = 2 \<or> rest = 1
         then h1 XOR mixk1 (k1 XOR ucast (tail ! 0))
         else h1)"

definition MurmurHash3_32_Bytes :: "bytes \<Rightarrow> int" where
  "MurmurHash3_32_Bytes data =
     (let len = length data;
          nblock = len div 4;
          h1 = foldl (\<lambda>h1 i. mixh1 h1 (mixk1 (murmur_block data i))) 0 [0..<nblock];
          tail = drop (nblock * 4) data;
          h1 = murmur_tail tail (len mod 4) h1;
          h1 = h1 XOR of_nat len;
          h1 = fmix32 h1
      in sint h1)"

definition MurmurHash3_32_Int :: "u32 \<Rightarrow> int" where
  "MurmurHash3_32_Int key =
     (let k1 = mixk1 key;
          h1 = mixh1 0 k1;
          h1 = h1 XOR 4;
          h1 = fmix32 h1
      in sint h1)"

definition MurmurHash3_32_Long :: "u64 \<Rightarrow> int" where
  "MurmurHash3_32_Long key =
     (let low = ucast (key AND 0xFFFFFFFF);
          high = ucast (signed_drop_bit 32 key AND 0xFFFFFFFF);
          k1 = mixk1 low;
          h1 = mixh1 0 k1;
          k1 = mixk1 high;
          h1 = mixh1 h1 k1;
          h1 = h1 XOR 8;
          h1 = fmix32 h1
      in sint h1)"


section \<open>Little-endian blocks\<close>

lemma bit_byte_of: "bit (of_nat (n div 2 ^ j) :: byte) k \<longleftrightarrow> k < 8 \<and> bit n (j + k)"
  by (simp add: bit_of_nat_iff bit_div_pow)

lemma le_bytes_4:
  "le_bytes 4 n =
     [of_nat (n div 2 ^ 0), of_nat (n div 2 ^ 8), of_nat (n div 2 ^ 16), of_nat (n div 2 ^ 24)]"
proof -
  have "(4::nat) = Suc (Suc (Suc (Suc 0)))" by simp
  then show ?thesis by (simp only: le_bytes.simps div_mult2_eq [symmetric]) simp
qed

lemma bit_murmur_block_0:
  assumes "k < 32"
  shows "bit (murmur_block (a # b # c # d # rest) 0) k \<longleftrightarrow>
     (if k < 8 then bit a k else if k < 16 then bit b (k - 8)
      else if k < 24 then bit c (k - 16) else bit d (k - 24))"
proof -
  have z: "\<not> bit (x :: byte) j" if "8 \<le> j" for x j
    using that bit_imp_le_length by fastforce
  have "murmur_block (a # b # c # d # rest) 0 =
    ucast a OR push_bit 8 (ucast b) OR push_bit 16 (ucast c) OR push_bit 24 (ucast d)"
    by (simp add: murmur_block_def numeral_2_eq_2 numeral_3_eq_3)
  then show ?thesis
    using assms by (auto simp: bit_or_iff bit_push_bit_iff bit_ucast_iff z)
qed

lemma murmur_block_le_bytes:
  fixes w :: u32
  assumes "\<And>k. k < 32 \<Longrightarrow> bit n k \<longleftrightarrow> bit w k"
  shows "murmur_block (le_bytes 4 n @ rest) 0 = w"
proof (rule bit_word_eqI)
  fix k
  assume "k < LENGTH(32)"
  then have k: "k < 32" by simp
  have "bit (murmur_block (le_bytes 4 n @ rest) 0) k \<longleftrightarrow> bit n k"
    using k by (auto simp: le_bytes_4 bit_murmur_block_0 bit_byte_of [of n 0, simplified]
      bit_byte_of [of n 8, simplified] bit_byte_of [of n 16, simplified] bit_byte_of [of n 24, simplified])
  then show "bit (murmur_block (le_bytes 4 n @ rest) 0) k \<longleftrightarrow> bit w k"
    using assms [OF k] by simp
qed
lemma murmur_block_1: "length xs = 4 \<Longrightarrow> murmur_block (xs @ ys) 1 = murmur_block ys 0"
  by (simp add: murmur_block_def nth_append numeral_2_eq_2)

lemma le_bytes_8: "le_bytes 8 n = le_bytes 4 n @ le_bytes 4 (n div 2 ^ 32)"
  using le_bytes_add [of 4 4 n] by simp

lemma Long_low:
  "murmur_block (le_bytes 8 (unat (key :: u64))) 0 = ucast (key AND 0xFFFFFFFF)"
proof -
  have m: "(0xFFFFFFFF :: u64) = mask 32" by (simp add: mask_eq_exp_minus_1)
  show ?thesis
    unfolding le_bytes_8 m
    by (rule murmur_block_le_bytes) (simp add: bit_unat bit_ucast_iff bit_and_iff bit_mask_iff)
qed

lemma Long_high:
  "murmur_block (le_bytes 8 (unat (key :: u64))) 1 = ucast (signed_drop_bit 32 key AND 0xFFFFFFFF)"
proof -
  have m: "(0xFFFFFFFF :: u64) = mask 32" by (simp add: mask_eq_exp_minus_1)
  have "murmur_block (le_bytes 4 (unat key div 2 ^ 32) @ []) 0 =
      ucast (signed_drop_bit 32 key AND mask 32)"
    by (rule murmur_block_le_bytes)
       (simp add: bit_div_pow [of _ 32, simplified] bit_unat bit_ucast_iff bit_and_iff bit_mask_iff
          bit_signed_drop_bit_iff)
  then show ?thesis
    unfolding le_bytes_8 m by (simp add: murmur_block_1 [simplified])
qed

text \<open>C37: hashing a 64-bit integer (as every integer, date, time and timestamp column is hashed)
  is the same as hashing the eight little-endian bytes of the integer with the byte-string
  variant, which is how the Iceberg specification defines the hash of a long.\<close>

theorem MurmurHash3_32_Long_eq_Bytes:
  "MurmurHash3_32_Long key = MurmurHash3_32_Bytes (le_bytes 8 (unat key))"
proof -
  have "[0..<2] = [0, 1 :: nat]" by (simp add: upt_rec)
  then show ?thesis
    by (simp add: MurmurHash3_32_Long_def MurmurHash3_32_Bytes_def Let_def murmur_tail_def
        Long_low [simplified] Long_high [simplified])
qed

lemma MurmurHash3_32_Int_eq_Bytes:
  "MurmurHash3_32_Int key = MurmurHash3_32_Bytes (le_bytes 4 (unat key))"
proof -
  have "murmur_block (le_bytes 4 (unat key) @ []) 0 = key"
    by (rule murmur_block_le_bytes) (simp add: bit_unat)
  then show ?thesis
    by (simp add: MurmurHash3_32_Int_def MurmurHash3_32_Bytes_def Let_def murmur_tail_def)
qed

section \<open>The mixing steps lose no information\<close>

lemma rotl32_inverse: "0 < r \<Longrightarrow> r < 32 \<Longrightarrow> rotl32 (rotl32 x r) (32 - r) = x"
proof (rule bit_word_eqI)
  fix k
  assume r: "0 < r" "r < 32" and "k < LENGTH(32)"
  then have k: "k < 32" by simp
  have z: "\<not> bit x j" if "32 \<le> j" for j
    using that bit_imp_le_length [of x j] by auto
  show "bit (rotl32 (rotl32 x r) (32 - r)) k \<longleftrightarrow> bit x k"
    using r k by (auto simp: rotl32_def bit_or_iff bit_push_bit_iff bit_drop_bit_eq z)
qed

lemma inj_rotl32: "0 < r \<Longrightarrow> r < 32 \<Longrightarrow> rotl32 x r = rotl32 y r \<Longrightarrow> x = y"
  by (metis rotl32_inverse)

lemma xorshift_cancel: "0 < s \<Longrightarrow> x XOR drop_bit s x = y XOR drop_bit s y \<Longrightarrow> x = y"
  for x y :: "'a :: len word"
proof -
  assume s: "0 < s" and eq: "x XOR drop_bit s x = y XOR drop_bit s y"
  have step: "bit x k \<longleftrightarrow> bit y k" if "bit x (k + s) \<longleftrightarrow> bit y (k + s)" for k
  proof -
    have "bit (x XOR drop_bit s x) k \<longleftrightarrow> bit (y XOR drop_bit s y) k" using eq by simp
    then show ?thesis using that by (auto simp: bit_xor_iff bit_drop_bit_eq ac_simps)
  qed
  have "bit x k \<longleftrightarrow> bit y k" if "n = LENGTH('a) - k" for k n
    using that
  proof (induction n arbitrary: k rule: less_induct)
    case (less n)
    show ?case
    proof (cases "k < LENGTH('a)")
      case True
      with less.prems s have "LENGTH('a) - (k + s) < n" by simp
      from less.IH [OF this refl] show ?thesis by (rule step)
    next
      case False
      then show ?thesis using bit_imp_le_length by auto
    qed
  qed
  then show "x = y" by (auto intro: bit_word_eqI)
qed

lemma mult_cancel_word: "c * d = 1 \<Longrightarrow> x * c = y * c \<Longrightarrow> x = y" for c d x y :: "'a :: len word"
  by (metis mult.assoc mult.right_neutral)

lemma fmix32_inject: "fmix32 x = fmix32 y \<longleftrightarrow> x = y"
proof
  have i1: "(0x85ebca6b :: u32) * 0xa5cb9243 = 1" by simp
  have i2: "(0xc2b2ae35 :: u32) * 0x7ed1b41d = 1" by simp
  assume "fmix32 x = fmix32 y"
  then show "x = y"
    unfolding fmix32_def Let_def
    by (auto dest!: xorshift_cancel [rotated] mult_cancel_word [OF i1] mult_cancel_word [OF i2])
qed simp

lemma mixk1_inject: "mixk1 x = mixk1 y \<longleftrightarrow> x = y"
proof
  have i1: "(0xcc9e2d51 :: u32) * 0xdee13bb1 = 1" by simp
  have i2: "(0x1b873593 :: u32) * 0x56ed309b = 1" by simp
  assume "mixk1 x = mixk1 y"
  then show "x = y"
    unfolding mixk1_def Let_def
    by (auto dest!: inj_rotl32 [rotated 2] mult_cancel_word [OF i1] mult_cancel_word [OF i2])
qed simp

lemma mixh1_inject: "mixh1 h x = mixh1 h y \<longleftrightarrow> x = y"
proof
  have i: "(5 :: u32) * 0xcccccccd = 1" by simp
  assume "mixh1 h x = mixh1 h y"
  then have "rotl32 (h XOR x) 13 * 5 = rotl32 (h XOR y) 13 * 5"
    unfolding mixh1_def Let_def by simp
  then have "h XOR x = h XOR y"
    by (auto dest!: inj_rotl32 [rotated 2] mult_cancel_word [OF i])
  then have "h XOR (h XOR x) = h XOR (h XOR y)" by simp
  then show "x = y" by simp
qed simp

text \<open>on 32-bit keys the hash is a bijection: two keys with the same hash are equal.\<close>

theorem MurmurHash3_32_Int_inj: "MurmurHash3_32_Int x = MurmurHash3_32_Int y \<longleftrightarrow> x = y"
proof -
  have "a XOR c = b XOR c \<longleftrightarrow> a = b" for a b c :: u32
    by (metis xor.assoc xor.right_neutral xor_self_eq)
  then show ?thesis
    by (simp add: MurmurHash3_32_Int_def Let_def fmix32_inject mixh1_inject mixk1_inject word_eq_iff_signed [symmetric])
qed
text \<open>The sample hashes of the Iceberg specification (a long, a date, a string, a byte string
  and a UUID).\<close>

lemma murmur_samples:
  "MurmurHash3_32_Long 34 = 2017239379"
  "MurmurHash3_32_Long 17486 = - 653330422"
  "MurmurHash3_32_Bytes (map of_char ''iceberg'') = 1210000089"
  "MurmurHash3_32_Bytes [0, 1, 2, 3] = - 188683207"
  "MurmurHash3_32_Bytes [0xf7, 0x9c, 0x3e, 0x09, 0x67, 0x7c, 0x4b, 0xbd,
     0xa4, 0x79, 0x3f, 0x34, 0x9c, 0xb7, 0x85, 0xe7] = 1488055340"
  by code_simp+

end
