(* ===== verification/Numeric_Types.thy ===== *)
theory Numeric_Types
  imports Prelude
begin

text \<open>
  \<^verbatim>\<open>pg_lake_engine/include/pg_lake/util/numeric.h\<close> and \<^verbatim>\<open>pg_lake_engine/src/pgduck/numeric.c\<close>:
  packing of precision and scale into a type modifier, and the precision and scale a numeric
  column gets in DuckDB and Iceberg.  The two \<^verbatim>\<open>unbounded_numeric_default_*\<close> settings are the
  record \<open>numeric_settings\<close>.
\<close>

section \<open>Type modifiers\<close>

definition VARHDRSZ :: int where "VARHDRSZ = 4"
definition DUCKDB_MAX_NUMERIC_PRECISION :: int where "DUCKDB_MAX_NUMERIC_PRECISION = 38"
definition DUCKDB_MAX_NUMERIC_SCALE :: int where "DUCKDB_MAX_NUMERIC_SCALE = 38"

definition make_numeric_typmod :: "int \<Rightarrow> int \<Rightarrow> int" where
  "make_numeric_typmod precision scale =
     wrap32 ((wrap32 (push_bit 16 precision) OR (scale AND 0x7ff)) + VARHDRSZ)"

definition numeric_typmod_precision :: "int \<Rightarrow> int" where
  "numeric_typmod_precision typmod = drop_bit 16 (wrap32 (typmod - VARHDRSZ)) AND 0xffff"

definition numeric_typmod_scale :: "int \<Rightarrow> int" where
  "numeric_typmod_scale typmod = ((wrap32 (typmod - VARHDRSZ) AND 0x7ff) XOR 1024) - 1024"


section \<open>Precision and scale in DuckDB\<close>

record numeric_settings =
  UnboundedNumericDefaultPrecision :: int
  UnboundedNumericDefaultScale :: int

definition default_numeric_settings :: numeric_settings where
  "default_numeric_settings =
     \<lparr>UnboundedNumericDefaultPrecision = 38, UnboundedNumericDefaultScale = 9\<rparr>"

definition IsUnboundedNumeric :: "bool \<Rightarrow> int \<Rightarrow> bool" where
  "IsUnboundedNumeric is_numericoid typMod \<longleftrightarrow> is_numericoid \<and> typMod = - 1"

definition GetDuckdbAdjustedPrecisionAndScaleFromNumericTypeMod ::
  "numeric_settings \<Rightarrow> int \<Rightarrow> int \<times> int" where
  "GetDuckdbAdjustedPrecisionAndScaleFromNumericTypeMod cfg typeMod =
     (if IsUnboundedNumeric True typeMod
      then (UnboundedNumericDefaultPrecision cfg, UnboundedNumericDefaultScale cfg)
      else
        let precision = numeric_typmod_precision typeMod;
            scale = numeric_typmod_scale typeMod
        in if scale < 0 then (precision + \<bar>scale\<bar>, 0)
           else if scale > precision \<and> scale \<le> DUCKDB_MAX_NUMERIC_SCALE then (scale, scale)
           else (precision, scale))"

definition IsUnsupportedNumericForIceberg :: "numeric_settings \<Rightarrow> bool \<Rightarrow> int \<Rightarrow> bool" where
  "IsUnsupportedNumericForIceberg cfg is_numericoid typmod =
     (if \<not> is_numericoid then False
      else if IsUnboundedNumeric is_numericoid typmod then True
      else case GetDuckdbAdjustedPrecisionAndScaleFromNumericTypeMod cfg typmod of (precision, scale) \<Rightarrow>
        precision > DUCKDB_MAX_NUMERIC_PRECISION \<or> scale > DUCKDB_MAX_NUMERIC_SCALE)"

definition CanPushdownNumericToDuckdb :: "int \<Rightarrow> int \<Rightarrow> bool" where
  "CanPushdownNumericToDuckdb precision scale =
     (if scale < 0 then False
      else if scale > precision then False
      else if precision > DUCKDB_MAX_NUMERIC_PRECISION then False
      else if scale > DUCKDB_MAX_NUMERIC_SCALE then False
      else True)"


section \<open>Round trip of the packing\<close>

lemma and_2047: "x AND 0x7ff = x mod 2048" for x :: int
  using take_bit_eq_mask [of 11 x] by (simp add: take_bit_eq_mod mask_eq_exp_minus_1 and.commute)

lemma and_65535: "x AND 0xffff = x mod 65536" for x :: int
  using take_bit_eq_mask [of 16 x] by (simp add: take_bit_eq_mod mask_eq_exp_minus_1 and.commute)

lemma shifted_disjoint:
  fixes p r :: int
  assumes "0 \<le> r" "r < 2 ^ n"
  shows "push_bit n p AND r = 0"
proof -
  have "\<not> bit r k" if "n \<le> k" for k
  proof -
    have "take_bit n r = r" using assms by (simp add: take_bit_int_eq_self)
    then show ?thesis using that by (metis bit_take_bit_iff linorder_not_less)
  qed
  then show ?thesis by (intro bit_eqI) (auto simp: bit_and_iff bit_push_bit_iff)
qed

lemma shifted_or: "0 \<le> r \<Longrightarrow> r < 2 ^ n \<Longrightarrow> push_bit n p OR r = p * 2 ^ n + r" for p r :: int
  using disjunctive_add_eq_or [OF shifted_disjoint, of r n p] by (simp add: push_bit_eq_mult)

lemma shifted_xor: "0 \<le> r \<Longrightarrow> r < 2 ^ n \<Longrightarrow> push_bit n p XOR r = p * 2 ^ n + r" for p r :: int
  using disjunctive_add_eq_xor [OF shifted_disjoint, of r n p] by (simp add: push_bit_eq_mult)

lemma sign_extend_11:
  fixes x :: int
  assumes "0 \<le> x" "x < 2048"
  shows "(x XOR 1024) - 1024 = (if x < 1024 then x else x - 2048)"
proof (cases "x < 1024")
  case True
  then show ?thesis using shifted_xor [of x 10 1] assms by (simp add: push_bit_eq_mult xor.commute)
next
  case False
  then have "x = 1024 XOR (x - 1024)"
    using shifted_xor [of "x - 1024" 10 1] assms by (simp add: push_bit_eq_mult)
  then have "x XOR 1024 = x - 1024"
    by (metis xor.commute xor.assoc xor_self_eq xor.left_neutral)
  then show ?thesis using False by simp
qed

text \<open>precision and scale packed into a type modifier are read back unchanged, for every
  precision and scale PostgreSQL accepts, negative scales included.\<close>

theorem numeric_typmod_round_trip:
  assumes "1 \<le> precision" "precision \<le> 1000" "- 1000 \<le> scale" "scale \<le> 1000"
  shows "numeric_typmod_precision (make_numeric_typmod precision scale) = precision \<and>
    numeric_typmod_scale (make_numeric_typmod precision scale) = scale"
proof -
  define r where "r = scale mod 2048"
  have r: "0 \<le> r" "r < 2048" by (simp_all add: r_def)
  have "is_i32 (precision * 65536)" "is_i32 (precision * 65536 + r)" "is_i32 (precision * 65536 + r + 4)"
    using assms r by (simp_all add: is_i32_def int_limits)
  then have t: "wrap32 (make_numeric_typmod precision scale - VARHDRSZ) = precision * 65536 + r"
    using shifted_or [of r 16 precision] r
    by (simp add: make_numeric_typmod_def VARHDRSZ_def and_2047 r_def [symmetric] push_bit_eq_mult)
  have "(precision * 65536 + r) div 65536 = precision"
    using r by (intro int_div_pos_eq [where r = r]) simp_all
  then have "numeric_typmod_precision (make_numeric_typmod precision scale) = precision"
    using assms by (simp add: numeric_typmod_precision_def t and_65535 drop_bit_eq_div)
  moreover have "(precision * 65536 + r) mod 2048 = r"
    using r mod_mult_self2 [of r 2048 "32 * precision"] by (simp add: add.commute mult.commute)
  moreover have "(if r < 1024 then r else r - 2048) = scale"
  proof (cases "0 \<le> scale")
    case True
    then have "r = scale" using assms by (simp add: r_def)
    then show ?thesis using assms by simp
  next
    case False
    then have "(scale + 2048) mod 2048 = scale + 2048" using assms by (intro mod_pos_pos_trivial) simp_all
    then have "r = scale + 2048" by (simp add: r_def)
    then show ?thesis using assms False by simp
  qed
  ultimately show ?thesis
    using sign_extend_11 [OF r] by (simp add: numeric_typmod_scale_def t and_2047)
qed

theorem numeric_typmod_round_trip_witness:
  "numeric_typmod_precision (make_numeric_typmod 5 (- 2)) = 5 \<and>
    numeric_typmod_scale (make_numeric_typmod 5 (- 2)) = - 2"
  by (rule numeric_typmod_round_trip) simp_all

text \<open>The adjusted scale is never negative and a bounded numeric that is supported is one that can
  be pushed down.\<close>

lemma adjusted_scale_nonneg:
  assumes "0 \<le> UnboundedNumericDefaultScale cfg"
    "GetDuckdbAdjustedPrecisionAndScaleFromNumericTypeMod cfg typmod = (precision, scale)"
  shows "0 \<le> scale"
  using assms
  by (auto simp: GetDuckdbAdjustedPrecisionAndScaleFromNumericTypeMod_def Let_def split: if_splits)

lemma numeric_typmod_precision_nonneg: "0 \<le> numeric_typmod_precision typmod"
  by (simp add: numeric_typmod_precision_def and_65535)

lemma supported_numeric_pushdown:
  assumes "\<not> IsUnsupportedNumericForIceberg cfg True typmod"
    "GetDuckdbAdjustedPrecisionAndScaleFromNumericTypeMod cfg typmod = (precision, scale)"
  shows "CanPushdownNumericToDuckdb precision scale"
  using assms numeric_typmod_precision_nonneg [of typmod]
  by (auto simp: IsUnsupportedNumericForIceberg_def CanPushdownNumericToDuckdb_def
      GetDuckdbAdjustedPrecisionAndScaleFromNumericTypeMod_def Let_def IsUnboundedNumeric_def
      DUCKDB_MAX_NUMERIC_PRECISION_def DUCKDB_MAX_NUMERIC_SCALE_def split: if_splits)

end
