(* ===== verification/Truncate_Utils.thy ===== *)
theory Truncate_Utils
  imports Numeric_Types
begin

text \<open>
  \<^verbatim>\<open>pg_lake_iceberg/src/utils/truncate_utils.c\<close>: the truncate transforms of Iceberg
  partitioning.  Integers keep their C width (\<^verbatim>\<open>int32_t\<close>/\<^verbatim>\<open>int64_t\<close> with wrap-around), a
  remainder that the machine traps is the error \<open>Trap\<close>.  Text conversion and clipping and
  the arithmetic on \<^verbatim>\<open>numeric\<close> belong to PostgreSQL and are parameters; a numeric value is
  represented by its \<^verbatim>\<open>numeric_out\<close> text.
\<close>

section \<open>Operations\<close>

text \<open>C's \<^verbatim>\<open>%\<close> on \<^verbatim>\<open>int64_t\<close>: division by zero and the one overflowing quotient trap.\<close>

definition c_rem64 :: "int \<Rightarrow> int \<Rightarrow> int result" where
  "c_rem64 a b = (if b = 0 \<or> a = INT64_MIN \<and> b = - 1 then Inl Trap else Inr (a smod b))"

definition IcebergTruncateTransformInt32 :: "int \<Rightarrow> int \<Rightarrow> int result" where
  "IcebergTruncateTransformInt32 val width =
     result_bind (c_rem64 val width) (\<lambda>r.
     result_bind (c_rem64 (wrap64 (r + width)) width) (\<lambda>r.
     Inr (wrap32 (wrap64 (val - r)))))"

definition IcebergTruncateTransformInt64 :: "int \<Rightarrow> int \<Rightarrow> int result" where
  "IcebergTruncateTransformInt64 val width =
     result_bind (c_rem64 val width) (\<lambda>r.
     result_bind (c_rem64 (wrap64 (r + width)) width) (\<lambda>r.
     Inr (wrap64 (val - r))))"

text \<open>PostgreSQL's arithmetic on \<^verbatim>\<open>numeric\<close>, used through its function manager.\<close>

record numeric_api =
  numeric_in :: "string \<Rightarrow> int \<Rightarrow> string result"
  int64_to_numeric :: "int \<Rightarrow> string"
  numeric_add :: "string \<Rightarrow> string \<Rightarrow> string result"
  numeric_sub :: "string \<Rightarrow> string \<Rightarrow> string result"
  numeric_mul :: "string \<Rightarrow> string \<Rightarrow> string result"
  numeric_div :: "string \<Rightarrow> string \<Rightarrow> string result"
  numeric_mod :: "string \<Rightarrow> string \<Rightarrow> string result"

definition IcebergTruncateTransformNumeric ::
  "numeric_api \<Rightarrow> string \<Rightarrow> int \<Rightarrow> int \<Rightarrow> string result" where
  "IcebergTruncateTransformNumeric api value typmod width =
     result_bind (numeric_in api value (- 1)) (\<lambda>val.
     let scale = numeric_typmod_scale typmod in
     result_bind (if scale > 0
                  then numeric_in api (CHR ''1'' # replicate (nat scale) CHR ''0'') (- 1)
                  else Inr []) (\<lambda>scaleMultiplier.
     result_bind (if scale > 0 then numeric_mul api val scaleMultiplier else Inr val) (\<lambda>unscaledValue.
     let unscaledWidth = int64_to_numeric api width in
     result_bind (numeric_mod api unscaledValue unscaledWidth) (\<lambda>remainder.
     result_bind (numeric_add api remainder unscaledWidth) (\<lambda>remainder.
     result_bind (numeric_mod api remainder unscaledWidth) (\<lambda>remainder.
     result_bind (if scale > 0 then numeric_div api remainder scaleMultiplier else Inr remainder) (\<lambda>remainder.
     result_bind (numeric_sub api val remainder) (\<lambda>res.
     numeric_in api res typmod))))))))"

text \<open>
  \<open>conv\<close> is \<^verbatim>\<open>pg_server_to_any(_, _, PG_UTF8)\<close> and \<open>cliplen\<close> is \<^verbatim>\<open>pg_mbcharcliplen\<close>, whose
  limit is a C \<^verbatim>\<open>int\<close>.  The comparison of a \<^verbatim>\<open>size_t\<close> with an \<^verbatim>\<open>int64_t\<close> is unsigned.
\<close>

definition IcebergTruncateTransformText ::
  "(bytes \<Rightarrow> bytes) \<Rightarrow> (bytes \<Rightarrow> nat \<Rightarrow> int \<Rightarrow> nat) \<Rightarrow> bytes \<Rightarrow> int \<Rightarrow> bytes" where
  "IcebergTruncateTransformText conv cliplen val truncateLength =
     (let valLength = length val in
      if int valLength > truncateLength mod 2 ^ 64
      then (let utf8Text = conv val;
                utf8Length = cliplen utf8Text valLength (wrap32 truncateLength)
            in take utf8Length utf8Text)
      else val)"

definition IcebergTruncateTransformBytea :: "bytes \<Rightarrow> int \<Rightarrow> bytes" where
  "IcebergTruncateTransformBytea val len =
     (let totalDataBytes = length val in
      if int totalDataBytes > len mod 2 ^ 64 then take (nat (len mod 2 ^ 64)) val else val)"


section \<open>Truncation is rounding down to a multiple of the width\<close>

lemma c_rem64_pos [simp]: "0 < w \<Longrightarrow> c_rem64 a w = Inr (a smod w)"
  by (simp add: c_rem64_def)

lemma c_rem64_Trap: "c_rem64 a 0 = Inl Trap"
  by (simp add: c_rem64_def)

lemma wrapped_floor_remainder:
  assumes "0 < w" "w \<le> 2 ^ 62"
  shows "wrap64 (v smod w + w) smod w = v mod w"
proof -
  obtain m where "m = v mod w" "0 \<le> m" "m < w" using assms(1) by simp
  then have "- w \<le> v smod w" "v smod w < w"
    using smod_pos_cases [OF assms(1), of v] by auto
  then have "is_i64 (v smod w + w)" using assms by (simp add: is_i64_def int_limits)
  then show ?thesis using floor_remainder [OF assms(1)] by simp
qed

lemma mult_div_bounds: "0 < w \<Longrightarrow> w * (v div w) \<le> v \<and> v < w * (v div w) + w" for v w :: int
  using pos_mod_bound [of w v] pos_mod_sign [of w v] mult_div_mod_eq [of w v] by linarith

lemma minus_mod_div: "v - v mod w = w * (v div w)" for v w :: int
  by (metis minus_mod_eq_mult_div)



text \<open>Truncating an \<^verbatim>\<open>int\<close> column: the same multiple, reduced to 32 bits.\<close>

lemma IcebergTruncateTransformInt32_floor:
  assumes "0 < width" "width \<le> 2 ^ 62" "is_i32 val"
  shows "IcebergTruncateTransformInt32 val width = Inr (wrap32 (wrap64 (width * (val div width))))"
  using assms by (simp add: IcebergTruncateTransformInt32_def wrapped_floor_remainder minus_mod_div)

text \<open>C39: truncating an \<^verbatim>\<open>int\<close> is rounding down to a multiple of the width exactly when that
  multiple is a 32-bit integer; otherwise the stored result is larger than the value, because
  the assignment to \<^verbatim>\<open>int32_t\<close> wraps around.\<close>

theorem IcebergTruncateTransformInt32_wraps:
  assumes "0 < width" "width \<le> 2 ^ 31" "is_i32 val"
  shows "\<exists>t. IcebergTruncateTransformInt32 val width = Inr t \<and>
    (if INT32_MIN \<le> width * (val div width)
     then t = width * (val div width)
     else val < t)"
proof -
  let ?m = "width * (val div width)"
  have le: "?m \<le> val" "val < ?m + width"
    using mult_div_bounds [OF assms(1)] by simp_all
  have "is_i64 ?m" using le assms by (simp add: is_i64_def is_i32_def int_limits)
  then have res: "IcebergTruncateTransformInt32 val width = Inr (wrap32 ?m)"
    using IcebergTruncateTransformInt32_floor [of width val] assms by simp
  show ?thesis
  proof (cases "INT32_MIN \<le> ?m")
    case True
    then have "is_i32 ?m" using le assms by (simp add: is_i32_def int_limits)
    then show ?thesis using res True by simp
  next
    case False
    then have "- (2 ^ 32) \<le> ?m" "?m < - (2 ^ 31)"
      using le assms by (simp_all add: is_i32_def int_limits)
    then have "(?m + 2 ^ 31 + 2 ^ 32) mod 2 ^ 32 = ?m + 2 ^ 31 + 2 ^ 32"
      using le assms by (intro mod_pos_pos_trivial) (auto simp: is_i32_def int_limits)
    then have "wrap32 ?m = ?m + 2 ^ 32"
      unfolding wrap32_alt mod_add_self2 by simp
    then show ?thesis using res False le assms by (auto simp: int_limits)
  qed
qed

theorem IcebergTruncateTransformInt32_wraps_witness:
  "\<exists>t. IcebergTruncateTransformInt32 (- 2147483648) 10 = Inr t \<and>
    (if INT32_MIN \<le> 10 * (- 2147483648 div 10)
     then t = 10 * (- 2147483648 div 10)
     else - 2147483648 < t)"
  by (rule IcebergTruncateTransformInt32_wraps) (simp_all add: is_i32_def int_limits)

lemma IcebergTruncateTransform_Trap:
  "IcebergTruncateTransformInt64 v 0 = Inl Trap"
  "IcebergTruncateTransformInt32 v 0 = Inl Trap"
  by (simp_all add: IcebergTruncateTransformInt64_def IcebergTruncateTransformInt32_def c_rem64_def)

lemma IcebergTruncateTransformBytea_take:
  "0 \<le> len \<Longrightarrow> len < 2 ^ 63 \<Longrightarrow> IcebergTruncateTransformBytea val len = take (nat len) val"
  by (simp add: IcebergTruncateTransformBytea_def)

end
