(* ===== verification/Temporal_Utils.thy ===== *)
theory Temporal_Utils
  imports Prelude
begin

text \<open>
  \<^verbatim>\<open>pg_lake_engine/src/utils/temporal_utils.c\<close> and \<^verbatim>\<open>include/pg_lake/util/timetz.h\<close>: dates,
  times and timestamps counted from the Unix epoch.  A \<^verbatim>\<open>DateADT\<close> is a 32-bit number of days
  and a \<^verbatim>\<open>Timestamp\<close> a 64-bit number of microseconds, both since 2000-01-01; every C assignment
  wraps to its width.  The calendar itself (\<^verbatim>\<open>date2j\<close>, \<^verbatim>\<open>j2date\<close>, \<^verbatim>\<open>timestamp2tm\<close>) belongs to
  PostgreSQL and is the parameter \<open>cal\<close>; \<open>calendar_ok\<close> states what it promises, and a
  proleptic Gregorian calendar that meets the promise is constructed at the end.
\<close>

section \<open>Constants and finiteness\<close>

definition POSTGRES_EPOCH_JDATE :: int where "POSTGRES_EPOCH_JDATE = 2451545"
definition UNIX_EPOCH_JDATE :: int where "UNIX_EPOCH_JDATE = 2440588"
definition USECS_PER_DAY :: int where "USECS_PER_DAY = 86400000000"
definition USECS_PER_HOUR :: int where "USECS_PER_HOUR = 3600000000"
definition USECS_PER_SEC :: int where "USECS_PER_SEC = 1000000"
definition UNIX_EPOCH_YEAR :: int where "UNIX_EPOCH_YEAR = 1970"

definition PostgresToUnixEpochDiffInDays :: int where
  "PostgresToUnixEpochDiffInDays = wrap32 (POSTGRES_EPOCH_JDATE - UNIX_EPOCH_JDATE)"

definition PostgresToUnixEpochDiffInMicrosecs :: int where
  "PostgresToUnixEpochDiffInMicrosecs = wrap64 (PostgresToUnixEpochDiffInDays * USECS_PER_DAY)"

definition DATE_NOT_FINITE :: "int \<Rightarrow> bool" where
  "DATE_NOT_FINITE d \<longleftrightarrow> d = INT32_MIN \<or> d = INT32_MAX"

definition TIMESTAMP_NOT_FINITE :: "int \<Rightarrow> bool" where
  "TIMESTAMP_NOT_FINITE t \<longleftrightarrow> t = INT64_MIN \<or> t = INT64_MAX"

definition DIV_FLOOR_INT64 :: "int \<Rightarrow> int \<Rightarrow> int" where
  "DIV_FLOOR_INT64 x y =
     (if x \<ge> 0 then x sdiv y
      else wrap64 (- (wrap64 (wrap64 (wrap64 (- x) + y) - 1) sdiv y)))"

definition EnsureFiniteDate :: "int \<Rightarrow> unit result" where
  "EnsureFiniteDate date =
     (if DATE_NOT_FINITE date
      then Inl (DatetimeOutOfRange ''infinite date is not allowed in Iceberg tables'')
      else Inr ())"

definition EnsureFiniteTimestamp :: "int \<Rightarrow> unit result" where
  "EnsureFiniteTimestamp ts =
     (if TIMESTAMP_NOT_FINITE ts
      then Inl (DatetimeOutOfRange ''infinite timestamp is not allowed in Iceberg tables'')
      else Inr ())"


section \<open>Conversions between the two epochs\<close>

record pg_tm =
  tm_year :: int
  tm_mon :: int

record pg_calendar =
  date2j :: "int \<Rightarrow> int \<Rightarrow> int \<Rightarrow> int"
  j2date :: "int \<Rightarrow> int \<times> int \<times> int"
  timestamp2tm :: "int \<Rightarrow> pg_tm option"

definition GetYearFromDate :: "pg_calendar \<Rightarrow> int \<Rightarrow> int" where
  "GetYearFromDate cal d = (case j2date cal (wrap32 (d + POSTGRES_EPOCH_JDATE)) of (y, m, day) \<Rightarrow> y)"

definition GetYearFromTimestamp :: "pg_calendar \<Rightarrow> int \<Rightarrow> int result" where
  "GetYearFromTimestamp cal ts =
     (case timestamp2tm cal ts of
        None \<Rightarrow> Inl (DatetimeOutOfRange ''timestamp out of range'')
      | Some tt \<Rightarrow> Inr (tm_year tt))"

definition IcebergTimestampMsToPostgresTimestamp :: "int \<Rightarrow> int" where
  "IcebergTimestampMsToPostgresTimestamp icebergTimestampMs =
     (let icebergTimestampMicros = wrap64 (icebergTimestampMs * 1000)
      in wrap64 (icebergTimestampMicros - PostgresToUnixEpochDiffInMicrosecs))"

text \<open>The clock and \<^verbatim>\<open>SetEpochTimestamp()\<close> are PostgreSQL's.\<close>

definition PostgresTimestampToIcebergTimestampMs :: "int \<Rightarrow> int \<Rightarrow> int" where
  "PostgresTimestampToIcebergTimestampMs currentTimestamp epochTimestamp =
     wrap64 (currentTimestamp - epochTimestamp) sdiv 1000"

definition AdjustDateFromUnixToPostgres :: "int \<Rightarrow> int" where
  "AdjustDateFromUnixToPostgres date = wrap32 (date - PostgresToUnixEpochDiffInDays)"

definition AdjustDateFromPostgresToUnix :: "int \<Rightarrow> int" where
  "AdjustDateFromPostgresToUnix date = wrap32 (date + PostgresToUnixEpochDiffInDays)"

definition AdjustTimestampFromUnixToPostgres :: "int \<Rightarrow> int" where
  "AdjustTimestampFromUnixToPostgres timestamp = wrap64 (timestamp - PostgresToUnixEpochDiffInMicrosecs)"

definition AdjustTimestampFromPostgresToUnix :: "int \<Rightarrow> int" where
  "AdjustTimestampFromPostgresToUnix timestamp = wrap64 (timestamp + PostgresToUnixEpochDiffInMicrosecs)"

definition TimeTzGetUTCMicros :: "int \<Rightarrow> int \<Rightarrow> int" where
  "TimeTzGetUTCMicros time zone =
     (let utcMicros = wrap64 (time + wrap64 (zone * USECS_PER_SEC))
      in wrap64 (utcMicros smod USECS_PER_DAY + USECS_PER_DAY) smod USECS_PER_DAY)"


section \<open>Dates\<close>

definition YearsFromEpochToDate :: "pg_calendar \<Rightarrow> int \<Rightarrow> int" where
  "YearsFromEpochToDate cal yearsSinceEpoch =
     (let year = wrap32 (UNIX_EPOCH_YEAR + yearsSinceEpoch);
          julian_day = date2j cal year 1 1
      in wrap32 (julian_day - POSTGRES_EPOCH_JDATE))"

definition DateYearFromUnixEpoch :: "pg_calendar \<Rightarrow> int \<Rightarrow> int result" where
  "DateYearFromUnixEpoch cal date =
     result_bind (EnsureFiniteDate date) (\<lambda>_.
     Inr (wrap32 (GetYearFromDate cal date - UNIX_EPOCH_YEAR)))"

text \<open>The year and month a month count denotes; the remainder of C is made non-negative.\<close>

definition split_months :: "int \<Rightarrow> int \<times> int" where
  "split_months monthsSinceEpoch =
     (let yearsOffset = monthsSinceEpoch sdiv 12;
          monthOffset = monthsSinceEpoch smod 12;
          year = wrap32 (UNIX_EPOCH_YEAR + yearsOffset)
      in if monthOffset < 0 then (wrap32 (year - 1), monthOffset + 12) else (year, monthOffset))"

definition MonthsFromEpochToDate :: "pg_calendar \<Rightarrow> int \<Rightarrow> int" where
  "MonthsFromEpochToDate cal monthsSinceEpoch =
     (case split_months monthsSinceEpoch of (year, monthOffset) \<Rightarrow>
        wrap32 (date2j cal year (monthOffset + 1) 1 - POSTGRES_EPOCH_JDATE))"

definition DaysFromEpochToDate :: "int \<Rightarrow> int" where
  "DaysFromEpochToDate daysSinceEpoch =
     (let julian_day = wrap32 (UNIX_EPOCH_JDATE + daysSinceEpoch)
      in wrap32 (julian_day - POSTGRES_EPOCH_JDATE))"

definition DateMonthFromUnixEpoch :: "pg_calendar \<Rightarrow> int \<Rightarrow> int result" where
  "DateMonthFromUnixEpoch cal date =
     result_bind (EnsureFiniteDate date) (\<lambda>_.
     case j2date cal (wrap32 (date + POSTGRES_EPOCH_JDATE)) of (year, month, day) \<Rightarrow>
       Inr (wrap32 (wrap32 (wrap32 (wrap32 (year - UNIX_EPOCH_YEAR) * 12) + month) - 1)))"

definition DateDayFromUnixEpoch :: "int \<Rightarrow> int result" where
  "DateDayFromUnixEpoch date =
     result_bind (EnsureFiniteDate date) (\<lambda>_. Inr (AdjustDateFromPostgresToUnix date))"

definition MakeDateFromYMD :: "pg_calendar \<Rightarrow> int \<Rightarrow> int \<Rightarrow> int \<Rightarrow> int" where
  "MakeDateFromYMD cal y m d = wrap32 (date2j cal y m d - POSTGRES_EPOCH_JDATE)"


section \<open>Timestamps and times\<close>

definition DaysFromUnixEpochToTimestamp :: "int \<Rightarrow> int" where
  "DaysFromUnixEpochToTimestamp daysSinceEpoch =
     (let julian_day = wrap32 (UNIX_EPOCH_JDATE + daysSinceEpoch);
          days = wrap32 (julian_day - POSTGRES_EPOCH_JDATE)
      in wrap64 (days * USECS_PER_DAY))"

definition YearsFromEpochToTimestamp :: "pg_calendar \<Rightarrow> int \<Rightarrow> int" where
  "YearsFromEpochToTimestamp cal yearsSinceEpoch =
     (let year = wrap32 (UNIX_EPOCH_YEAR + yearsSinceEpoch);
          julian_day = date2j cal year 1 1;
          days_from_epoch = wrap32 (julian_day - POSTGRES_EPOCH_JDATE)
      in wrap64 (days_from_epoch * USECS_PER_DAY))"

definition TimestampYearFromUnixEpoch :: "pg_calendar \<Rightarrow> int \<Rightarrow> int result" where
  "TimestampYearFromUnixEpoch cal ts =
     result_bind (EnsureFiniteTimestamp ts) (\<lambda>_.
     result_bind (GetYearFromTimestamp cal ts) (\<lambda>year.
     Inr (wrap32 (year - UNIX_EPOCH_YEAR))))"

definition TimestampMonthFromUnixEpoch :: "pg_calendar \<Rightarrow> int \<Rightarrow> int result" where
  "TimestampMonthFromUnixEpoch cal ts =
     result_bind (EnsureFiniteTimestamp ts) (\<lambda>_.
     case timestamp2tm cal ts of
       None \<Rightarrow> Inl (DatetimeOutOfRange ''timestamp out of range'')
     | Some tm \<Rightarrow>
         Inr (wrap32 (wrap32 (wrap32 (tm_year tm - UNIX_EPOCH_YEAR) * 12) + wrap32 (tm_mon tm - 1))))"

definition MonthsFromUnixEpochToTimestamp :: "pg_calendar \<Rightarrow> int \<Rightarrow> int" where
  "MonthsFromUnixEpochToTimestamp cal monthsSinceEpoch =
     (case split_months monthsSinceEpoch of (year, monthOffset) \<Rightarrow>
        let julian_day = date2j cal year (monthOffset + 1) 1;
            days = wrap32 (julian_day - POSTGRES_EPOCH_JDATE)
        in wrap64 (days * USECS_PER_DAY))"

definition TimestampDayFromUnixEpoch :: "int \<Rightarrow> int result" where
  "TimestampDayFromUnixEpoch ts =
     result_bind (EnsureFiniteTimestamp ts) (\<lambda>_.
     let unixTs = AdjustTimestampFromPostgresToUnix ts
     in Inr (wrap32 (DIV_FLOOR_INT64 unixTs USECS_PER_DAY)))"

definition TimestampHourFromUnixEpoch :: "int \<Rightarrow> int result" where
  "TimestampHourFromUnixEpoch ts =
     result_bind (EnsureFiniteTimestamp ts) (\<lambda>_.
     let unixTs = AdjustTimestampFromPostgresToUnix ts
     in Inr (wrap32 (DIV_FLOOR_INT64 unixTs USECS_PER_HOUR)))"

definition HoursFromUnixEpochToTimestamp :: "int \<Rightarrow> int" where
  "HoursFromUnixEpochToTimestamp hoursSinceEpoch =
     (let unixTs = wrap64 (hoursSinceEpoch * USECS_PER_HOUR)
      in AdjustTimestampFromUnixToPostgres unixTs)"

definition TimeHourFromUnixEpoch :: "int \<Rightarrow> int" where
  "TimeHourFromUnixEpoch time = wrap32 (DIV_FLOOR_INT64 time USECS_PER_HOUR)"

definition HoursFromUnixEpochToTime :: "int \<Rightarrow> int" where
  "HoursFromUnixEpochToTime hoursSinceEpoch = wrap64 (hoursSinceEpoch * USECS_PER_HOUR)"

definition MakeTimestampUsec ::
  "pg_calendar \<Rightarrow> int \<Rightarrow> int \<Rightarrow> int \<Rightarrow> int \<Rightarrow> int \<Rightarrow> int \<Rightarrow> int \<Rightarrow> int" where
  "MakeTimestampUsec cal y m d h minute sec usec =
     (let date = MakeDateFromYMD cal y m d;
          secs = wrap32 (wrap32 (wrap32 (wrap32 (h * 60) + minute) * 60) + sec)
      in wrap64 (wrap64 (wrap64 (date * USECS_PER_DAY) + wrap64 (secs * USECS_PER_SEC)) + usec))"


section \<open>What the calendar promises\<close>

definition is_leap :: "int \<Rightarrow> bool" where
  "is_leap y \<longleftrightarrow> y mod 4 = 0 \<and> (y mod 100 \<noteq> 0 \<or> y mod 400 = 0)"

definition days_in_month :: "int \<Rightarrow> int \<Rightarrow> int" where
  "days_in_month y m =
     (if m = 2 then if is_leap y then 29 else 28 else if m = 4 \<or> m = 6 \<or> m = 9 \<or> m = 11 then 30 else 31)"

text \<open>Julian day numbers of PostgreSQL dates: from \<^verbatim>\<open>4713-11-24 BC\<close> up to the year 5874898.\<close>

definition DATE_END_JULIAN :: int where "DATE_END_JULIAN = 2147483494"

definition valid_julian :: "int \<Rightarrow> bool" where
  "valid_julian jd \<longleftrightarrow> 0 \<le> jd \<and> jd < DATE_END_JULIAN"

definition valid_ymd :: "int \<Rightarrow> int \<Rightarrow> int \<Rightarrow> bool" where
  "valid_ymd y m d \<longleftrightarrow>
     - 4713 \<le> y \<and> y \<le> 5874897 \<and> 1 \<le> m \<and> m \<le> 12 \<and> 1 \<le> d \<and> d \<le> days_in_month y m"

definition valid_timestamp :: "int \<Rightarrow> bool" where
  "valid_timestamp ts \<longleftrightarrow> - 211813488000000000 \<le> ts \<and> ts < 9223371331200000000"

definition valid_date :: "int \<Rightarrow> bool" where
  "valid_date date \<longleftrightarrow> valid_julian (date + POSTGRES_EPOCH_JDATE)"

definition calendar_ok :: "pg_calendar \<Rightarrow> bool" where
  "calendar_ok cal \<longleftrightarrow>
     (\<forall>jd y m d. valid_julian jd \<and> j2date cal jd = (y, m, d) \<longrightarrow>
        valid_ymd y m d \<and> date2j cal y m d = jd) \<and>
     (\<forall>y m d. valid_ymd y m d \<and> valid_julian (date2j cal y m d) \<longrightarrow>
        j2date cal (date2j cal y m d) = (y, m, d)) \<and>
     (\<forall>y m d. valid_ymd y m d \<longrightarrow> date2j cal y m d = date2j cal y m 1 + (d - 1)) \<and>
     (\<forall>y m. valid_ymd y m 1 \<longrightarrow>
        (if m = 12 then date2j cal (y + 1) 1 1 else date2j cal y (m + 1) 1) =
        date2j cal y m 1 + days_in_month y m) \<and>
     (\<forall>ts y m d. valid_timestamp ts \<and>
        j2date cal (ts div USECS_PER_DAY + POSTGRES_EPOCH_JDATE) = (y, m, d) \<longrightarrow>
        timestamp2tm cal ts = Some \<lparr>tm_year = y, tm_mon = m\<rparr>) \<and>
     date2j cal 2000 1 1 = POSTGRES_EPOCH_JDATE"

lemmas time_consts = POSTGRES_EPOCH_JDATE_def UNIX_EPOCH_JDATE_def USECS_PER_DAY_def
  USECS_PER_HOUR_def USECS_PER_SEC_def UNIX_EPOCH_YEAR_def

lemma days_in_month_pos: "1 \<le> days_in_month y m" "days_in_month y m \<le> 31"
  by (simp_all add: days_in_month_def)

lemma calendar_j2date:
  assumes "calendar_ok cal" "valid_julian jd"
  obtains y m d where "j2date cal jd = (y, m, d)" "valid_ymd y m d" "date2j cal y m d = jd"
  using assms unfolding calendar_ok_def by (cases "j2date cal jd") blast

lemma calendar_day: "calendar_ok cal \<Longrightarrow> valid_ymd y m d \<Longrightarrow> date2j cal y m d = date2j cal y m 1 + (d - 1)"
  unfolding calendar_ok_def by blast

lemma calendar_next_month:
  "calendar_ok cal \<Longrightarrow> valid_ymd y m 1 \<Longrightarrow>
     (if m = 12 then date2j cal (y + 1) 1 1 else date2j cal y (m + 1) 1) =
     date2j cal y m 1 + days_in_month y m"
  unfolding calendar_ok_def by blast

lemma calendar_inverse:
  "calendar_ok cal \<Longrightarrow> valid_ymd y m d \<Longrightarrow> valid_julian (date2j cal y m d) \<Longrightarrow>
     j2date cal (date2j cal y m d) = (y, m, d)"
  unfolding calendar_ok_def by blast

lemma calendar_tm:
  assumes "calendar_ok cal" "valid_timestamp ts"
    "j2date cal (ts div USECS_PER_DAY + POSTGRES_EPOCH_JDATE) = (y, m, d)"
  shows "timestamp2tm cal ts = Some \<lparr>tm_year = y, tm_mon = m\<rparr>"
  using assms unfolding calendar_ok_def by blast

lemma year_start_le_month:
  assumes "calendar_ok cal" "- 4713 \<le> y" "y \<le> 5874897" "1 \<le> m"
  shows "m \<le> 12 \<longrightarrow> date2j cal y 1 1 \<le> date2j cal y m 1 \<and> date2j cal y m 1 \<le> date2j cal y 1 1 + 31 * (m - 1)"
  using assms(4)
proof (induction m rule: int_ge_induct)
  case (step m)
  show ?case
  proof
    assume "m + 1 \<le> 12"
    then have "date2j cal y (m + 1) 1 = date2j cal y m 1 + days_in_month y m"
      using calendar_next_month [OF assms(1), of y m] assms(2,3) step.hyps days_in_month_pos [of y m]
      by (auto simp: valid_ymd_def)
    then show "date2j cal y 1 1 \<le> date2j cal y (m + 1) 1 \<and>
        date2j cal y (m + 1) 1 \<le> date2j cal y 1 1 + 31 * (m + 1 - 1)"
      using step \<open>m + 1 \<le> 12\<close> days_in_month_pos [of y m] by simp
  qed
qed simp

lemma month_end_le_year:
  assumes "calendar_ok cal" "- 4713 \<le> y" "y \<le> 5874897" "m \<le> 12"
  shows "1 \<le> m \<longrightarrow> date2j cal y m 1 + days_in_month y m \<le> date2j cal (y + 1) 1 1 \<and>
    date2j cal (y + 1) 1 1 \<le> date2j cal y m 1 + 31 * (13 - m)"
  using assms(4)
proof (induction m rule: int_le_induct)
  case base
  then show ?case
    using calendar_next_month [OF assms(1), of y 12] assms(2,3) days_in_month_pos [of y 12]
    by (auto simp: valid_ymd_def)
next
  case (step m)
  show ?case
  proof
    assume "1 \<le> m - 1"
    then have "date2j cal y m 1 = date2j cal y (m - 1) 1 + days_in_month y (m - 1)"
      using calendar_next_month [OF assms(1), of y "m - 1"] assms(2,3) step.hyps days_in_month_pos [of y "m - 1"]
      by (auto simp: valid_ymd_def)
    then show "date2j cal y (m - 1) 1 + days_in_month y (m - 1) \<le> date2j cal (y + 1) 1 1 \<and>
        date2j cal (y + 1) 1 1 \<le> date2j cal y (m - 1) 1 + 31 * (13 - (m - 1))"
      using step \<open>1 \<le> m - 1\<close> days_in_month_pos [of y m] days_in_month_pos [of y "m - 1"] by simp
  qed
qed

lemma sdiv_smod_split:
  fixes k :: int
  assumes "0 \<le> b" "b < n" "k = n * a + b"
  shows "(k smod n = b \<and> k sdiv n = a) \<or> (b \<noteq> 0 \<and> k smod n = b - n \<and> k sdiv n = a + 1)"
proof -
  have n: "0 < n" using assms by simp
  have eq: "n * (k sdiv n) + k smod n = k"
    using sdiv_mult_smod_eq [of k n] by (simp add: mult.commute)
  have m: "k mod n = b" "k div n = a" using assms by simp_all
  show ?thesis
  proof (cases "k smod n = b")
    case True
    with eq assms n have "k sdiv n = a" by simp
    with True show ?thesis by simp
  next
    case False
    then have r: "k smod n = b - n" using smod_pos_cases [OF n, of k] m by simp
    have "b \<noteq> 0"
    proof
      assume "b = 0"
      with assms have "n dvd k" by simp
      then have "k smod n = 0" by (simp add: signed_modulo_int_def)
      with False \<open>b = 0\<close> show False by simp
    qed
    moreover have "n * (k sdiv n) = n * (a + 1)" using eq r assms by (simp add: algebra_simps)
    ultimately show ?thesis using r n by simp
  qed
qed

lemma split_months_eq:
  assumes "0 \<le> b" "b < 12" "k = 12 * a + b" "is_i32 (UNIX_EPOCH_YEAR + a)" "is_i32 (UNIX_EPOCH_YEAR + a + 1)"
  shows "split_months k = (UNIX_EPOCH_YEAR + a, b)"
  using sdiv_smod_split [OF assms(1-3)] assms
  by (auto simp: split_months_def Let_def add.assoc [symmetric])

section \<open>Date and timestamp transforms\<close>

lemma wrap32_eqI: "is_i32 x \<Longrightarrow> x = y \<Longrightarrow> wrap32 x = y"
  by simp

lemma date_julian: "valid_date date \<Longrightarrow> wrap32 (date + POSTGRES_EPOCH_JDATE) = date + POSTGRES_EPOCH_JDATE"
  by (rule wrap32_id)
     (simp add: valid_date_def valid_julian_def DATE_END_JULIAN_def is_i32_def int_limits)

lemma valid_date_finite: "valid_date date \<Longrightarrow> EnsureFiniteDate date = Inr ()"
  by (simp add: EnsureFiniteDate_def DATE_NOT_FINITE_def valid_date_def valid_julian_def
      DATE_END_JULIAN_def time_consts int_limits)

lemma valid_timestamp_finite: "valid_timestamp ts \<Longrightarrow> EnsureFiniteTimestamp ts = Inr ()"
  by (simp add: EnsureFiniteTimestamp_def TIMESTAMP_NOT_FINITE_def valid_timestamp_def int_limits)

text \<open>The month count of a date and the first days of that month and of the next one.\<close>

definition month_number :: "int \<Rightarrow> int \<Rightarrow> int" where
  "month_number y m = (y - UNIX_EPOCH_YEAR) * 12 + m - 1"

lemma is_i32_month_number: "valid_ymd y m d \<Longrightarrow> is_i32 (month_number y m) \<and> is_i32 (month_number y m + 1)"
  by (simp add: month_number_def valid_ymd_def is_i32_def int_limits UNIX_EPOCH_YEAR_def)

lemma split_months_month_number:
  assumes "valid_ymd y m d"
  shows "split_months (month_number y m) = (y, m - 1)"
    and "split_months (month_number y m + 1) = (if m = 12 then (y + 1, 0) else (y, m))"
proof -
  show "split_months (month_number y m) = (y, m - 1)"
    using split_months_eq [of "m - 1" "month_number y m" "y - UNIX_EPOCH_YEAR"] assms
    by (simp add: month_number_def valid_ymd_def is_i32_def int_limits UNIX_EPOCH_YEAR_def)
  show "split_months (month_number y m + 1) = (if m = 12 then (y + 1, 0) else (y, m))"
    using split_months_eq [of m "month_number y m + 1" "y - UNIX_EPOCH_YEAR"] assms
      split_months_eq [of 0 "month_number y m + 1" "y + 1 - UNIX_EPOCH_YEAR"]
    by (auto simp: month_number_def valid_ymd_def is_i32_def int_limits UNIX_EPOCH_YEAR_def)
qed

lemma julian_is_i32:
  assumes "calendar_ok cal" "valid_ymd y m d" "valid_julian (date2j cal y m d)"
  shows "is_i32 (date2j cal y m 1 - POSTGRES_EPOCH_JDATE)"
    and "is_i32 (date2j cal y m 1 + days_in_month y m - POSTGRES_EPOCH_JDATE)"
  using calendar_day [OF assms(1,2)] assms(2,3) days_in_month_pos [of y m]
  by (auto simp: valid_ymd_def valid_julian_def DATE_END_JULIAN_def is_i32_def int_limits
      POSTGRES_EPOCH_JDATE_def)

lemma MonthsFromEpochToDate_month:
  assumes "calendar_ok cal" "valid_ymd y m d" "valid_julian (date2j cal y m d)"
  shows "MonthsFromEpochToDate cal (month_number y m) = date2j cal y m 1 - POSTGRES_EPOCH_JDATE"
    and "MonthsFromEpochToDate cal (month_number y m + 1) =
           date2j cal y m 1 + days_in_month y m - POSTGRES_EPOCH_JDATE"
proof -
  have v1: "valid_ymd y m 1" using assms(2) days_in_month_pos [of y m] by (auto simp: valid_ymd_def)
  show "MonthsFromEpochToDate cal (month_number y m) = date2j cal y m 1 - POSTGRES_EPOCH_JDATE"
    using julian_is_i32(1) [OF assms] split_months_month_number(1) [OF assms(2)]
    by (simp add: MonthsFromEpochToDate_def)
  show "MonthsFromEpochToDate cal (month_number y m + 1) =
           date2j cal y m 1 + days_in_month y m - POSTGRES_EPOCH_JDATE"
    using julian_is_i32(2) [OF assms] split_months_month_number(2) [OF assms(2)]
      calendar_next_month [OF assms(1) v1]
    by (auto simp: MonthsFromEpochToDate_def split: if_splits)
qed

lemma DateMonthFromUnixEpoch_eq:
  assumes "calendar_ok cal" "valid_date date"
    "j2date cal (date + POSTGRES_EPOCH_JDATE) = (y, m, d)" "valid_ymd y m d"
  shows "DateMonthFromUnixEpoch cal date = Inr (month_number y m)"
proof -
  have "is_i32 (y - UNIX_EPOCH_YEAR)" "is_i32 ((y - UNIX_EPOCH_YEAR) * 12)"
    "is_i32 ((y - UNIX_EPOCH_YEAR) * 12 + m)" "is_i32 (month_number y m)"
    using assms(4) by (auto simp: valid_ymd_def month_number_def is_i32_def int_limits UNIX_EPOCH_YEAR_def)
  then show ?thesis
    using assms(3) valid_date_finite [OF assms(2)] date_julian [OF assms(2)]
    by (simp add: DateMonthFromUnixEpoch_def month_number_def)
qed

lemma split_months_inverse:
  assumes "is_i32 months" "split_months months = (y, b)"
  shows "months = month_number y (b + 1)" "0 \<le> b" "b < 12"
proof -
  have b: "0 \<le> months mod 12" "months mod 12 < 12" by simp_all
  have "- 178956971 \<le> months div 12" "months div 12 \<le> 178956970"
    using assms(1) by (auto simp: is_i32_def int_limits)
  then have "split_months months = (UNIX_EPOCH_YEAR + months div 12, months mod 12)"
    by (intro split_months_eq [OF b]) (simp_all add: is_i32_def int_limits UNIX_EPOCH_YEAR_def)
  then have "y = UNIX_EPOCH_YEAR + months div 12" "b = months mod 12" using assms(2) by simp_all
  then show "months = month_number y (b + 1)" "0 \<le> b" "b < 12"
    by (simp_all add: month_number_def)
qed

lemma sdiv_ceil:
  fixes x y :: int
  assumes "0 < y" "x < 0"
  shows "- ((- x + y - 1) sdiv y) = x div y"
proof -
  have "(- x + y - 1) sdiv y = (- x + y - 1) div y"
    using assms by (intro sdiv_nonneg) simp_all
  also have "\<dots> = - (x div y)"
  proof -
    have "x = y * (x div y) + x mod y" by simp
    moreover have "0 \<le> x mod y" "x mod y < y" using assms by simp_all
    ultimately have "- x + y - 1 = y * (- (x div y)) + (y - 1 - x mod y)" "0 \<le> y - 1 - x mod y" "y - 1 - x mod y < y"
      by (simp_all add: algebra_simps)
    then show ?thesis by (rule int_div_pos_eq)
  qed
  finally show ?thesis by simp
qed

lemma DIV_FLOOR_INT64_eq:
  assumes "0 < y" "y \<le> 2 ^ 40" "- (2 ^ 62) \<le> x" "is_i64 x"
  shows "DIV_FLOOR_INT64 x y = x div y"
proof (cases "0 \<le> x")
  case True
  then show ?thesis using assms sdiv_nonneg by (simp add: DIV_FLOOR_INT64_def)
next
  case False
  have "is_i64 (- x)" "is_i64 (- x + y)" "is_i64 (- x + y - 1)"
    using assms False by (auto simp: is_i64_def int_limits)
  moreover have "is_i64 (x div y)"
  proof -
    have "x div 1 \<le> x div y" using assms(1) False by (intro zdiv_mono2_neg) simp_all
    then have "x \<le> x div y" by simp
    moreover have "x div y < 0" using False assms(1) by (simp add: pos_imp_zdiv_neg_iff)
    ultimately show ?thesis using assms by (simp add: is_i64_def int_limits)
  qed
  ultimately show ?thesis
    using False sdiv_ceil [OF assms(1), of x] by (simp add: DIV_FLOOR_INT64_def)
qed



text \<open>The values for which a timestamp can be moved to the Unix epoch without wrap-around.\<close>

lemma unix_ts:
  assumes "valid_timestamp ts" "ts + 946684800000000 \<le> INT64_MAX"
  shows "AdjustTimestampFromPostgresToUnix ts = ts + 946684800000000"
proof -
  have "PostgresToUnixEpochDiffInMicrosecs = 946684800000000"
    by (simp add: PostgresToUnixEpochDiffInMicrosecs_def PostgresToUnixEpochDiffInDays_def time_consts
        wrap64_alt wrap32_alt)
  then show ?thesis
    using assms by (simp add: AdjustTimestampFromPostgresToUnix_def valid_timestamp_def is_i64_def int_limits)
qed

lemma epoch_diffs:
  "PostgresToUnixEpochDiffInMicrosecs = 946684800000000" "PostgresToUnixEpochDiffInDays = 10957"
  by (simp_all add: PostgresToUnixEpochDiffInMicrosecs_def PostgresToUnixEpochDiffInDays_def time_consts
        wrap64_alt wrap32_alt)

text \<open>Far-future timestamps wrap: the hour count leaves \<^verbatim>\<open>int32\<close> (here in the year 255512), and in the
  last thirty years of the timestamp range moving to the Unix epoch leaves \<^verbatim>\<open>int64\<close>.\<close>

lemma timestamp_transforms_wrap:
  "valid_timestamp 8000000000000000000 \<and> TimestampHourFromUnixEpoch 8000000000000000000 = Inr (- 2072482106)"
  "valid_timestamp 9223000000000000000 \<and> TimestampDayFromUnixEpoch 9223000000000000000 = Inr (- 106745341)"
  by code_simp+

lemma TimeTzGetUTCMicros_range:
  "0 \<le> TimeTzGetUTCMicros time zone \<and> TimeTzGetUTCMicros time zone < USECS_PER_DAY"
proof -
  have "wrap64 (x smod USECS_PER_DAY + USECS_PER_DAY) smod USECS_PER_DAY = x mod USECS_PER_DAY" for x
  proof -
    have "is_i64 (x smod USECS_PER_DAY + USECS_PER_DAY)"
      using smod_pos_cases [of USECS_PER_DAY x] pos_mod_bound [of USECS_PER_DAY x] pos_mod_sign [of USECS_PER_DAY x]
      by (auto simp: is_i64_def int_limits USECS_PER_DAY_def)
    then show ?thesis using floor_remainder [of USECS_PER_DAY x] by (simp add: USECS_PER_DAY_def)
  qed
  then show ?thesis by (simp add: TimeTzGetUTCMicros_def Let_def) (simp add: USECS_PER_DAY_def)
qed

section \<open>A proleptic Gregorian calendar\<close>

text \<open>The julian day of 1 January of a year, the days before a month, and their inverse.\<close>

definition year_start :: "int \<Rightarrow> int" where
  "year_start y = 365 * y + (y - 1) div 4 - (y - 1) div 100 + (y - 1) div 400 + 1721061"

definition month_start :: "int \<Rightarrow> int \<Rightarrow> int" where
  "month_start y m =
     (let l = (if is_leap y then 1 else 0) in
      if m = 1 then 0 else if m = 2 then 31 else if m = 3 then 59 + l else if m = 4 then 90 + l
      else if m = 5 then 120 + l else if m = 6 then 151 + l else if m = 7 then 181 + l
      else if m = 8 then 212 + l else if m = 9 then 243 + l else if m = 10 then 273 + l
      else if m = 11 then 304 + l else 334 + l)"

definition gregorian_date2j :: "int \<Rightarrow> int \<Rightarrow> int \<Rightarrow> int" where
  "gregorian_date2j y m d = year_start y + month_start y m + (d - 1)"

definition year_of_julian :: "int \<Rightarrow> int" where
  "year_of_julian jd =
     (let y = (400 * (jd - 1721061)) div 146097 in
      if jd < year_start y then y - 1 else if year_start (y + 1) \<le> jd then y + 1 else y)"

definition month_of_offset :: "int \<Rightarrow> int \<Rightarrow> int" where
  "month_of_offset y off =
     (if off < month_start y 2 then 1 else if off < month_start y 3 then 2 else if off < month_start y 4 then 3
      else if off < month_start y 5 then 4 else if off < month_start y 6 then 5 else if off < month_start y 7 then 6
      else if off < month_start y 8 then 7 else if off < month_start y 9 then 8 else if off < month_start y 10 then 9
      else if off < month_start y 11 then 10 else if off < month_start y 12 then 11 else 12)"

definition gregorian_j2date :: "int \<Rightarrow> int \<times> int \<times> int" where
  "gregorian_j2date jd =
     (let y = year_of_julian jd; off = jd - year_start y; m = month_of_offset y off
      in (y, m, off - month_start y m + 1))"

definition gregorian :: pg_calendar where
  "gregorian = \<lparr>date2j = gregorian_date2j, j2date = gregorian_j2date,
     timestamp2tm = (\<lambda>ts. case gregorian_j2date (ts div USECS_PER_DAY + POSTGRES_EPOCH_JDATE) of
        (y, m, d) \<Rightarrow> Some \<lparr>tm_year = y, tm_mon = m\<rparr>)\<rparr>"

lemma div_pred:
  fixes y n :: int
  assumes "1 < n"
  shows "y div n = (y - 1) div n + (if n dvd y then 1 else 0)"
proof (cases "n dvd y")
  case True
  then obtain q where "y = n * q" by (rule dvdE)
  moreover have "(n * q - 1) div n = q - 1"
    by (rule int_div_pos_eq [where r = "n - 1"]) (use assms in \<open>simp_all add: algebra_simps\<close>)
  ultimately show ?thesis using assms True by simp
next
  case False
  then have "y mod n \<noteq> 0" by (simp add: dvd_eq_mod_eq_0)
  moreover have "0 \<le> y mod n" "y mod n < n" using assms by simp_all
  ultimately have "(y - 1) div n = y div n"
    by (intro int_div_pos_eq [where r = "y mod n - 1"]) simp_all
  then show ?thesis using False by simp
qed

lemma is_leap_dvd: "is_leap y \<longleftrightarrow> 4 dvd y \<and> (\<not> 100 dvd y \<or> 400 dvd y)"
  by (simp only: is_leap_def dvd_eq_mod_eq_0)

lemma leap_count:
  fixes y a b c k :: int
  assumes "a' = a + (if P then 1 else 0)" "b' = b + (if Q then 1 else 0)" "c' = c + (if R then 1 else 0)"
    and "Q \<longrightarrow> P" "R \<longrightarrow> Q"
  shows "365 * (y + 1) + a' - b' + c' + k =
    365 * y + a - b + c + k + 365 + (if P \<and> (\<not> Q \<or> R) then 1 else 0)"
  using assms(4,5) unfolding assms(1-3) by (cases P; cases Q; cases R) simp_all

lemma year_start_Suc: "year_start (y + 1) = year_start y + 365 + (if is_leap y then 1 else 0)"
  unfolding year_start_def is_leap_dvd add_diff_cancel_right'
  by (rule leap_count; (rule div_pred)?) (simp_all add: dvd_trans [of 4 100 y] dvd_trans [of 100 400 y])

lemma div_bounds: "0 < n \<Longrightarrow> n * (z div n) \<le> z \<and> z \<le> n * (z div n) + (n - 1)" for n z :: int
  using pos_mod_bound [of n z] pos_mod_sign [of n z] mult_div_mod_eq [of n z] by linarith

lemma year_start_bounds:
  "146097 * y - 796 \<le> 400 * (year_start y - 1721061)" "400 * (year_start y - 1721061) \<le> 146097 * y + 299"
  using div_bounds [of 4 "y - 1"] div_bounds [of 100 "y - 1"] div_bounds [of 400 "y - 1"]
  by (simp_all add: year_start_def)

lemma year_of_julian: "year_start (year_of_julian jd) \<le> jd" "jd < year_start (year_of_julian jd + 1)"
proof -
  define y where "y = (400 * (jd - 1721061)) div 146097"
  have "146097 * y \<le> 400 * (jd - 1721061)" "400 * (jd - 1721061) < 146097 * y + 146097"
    by (simp_all add: y_def)
  then have "year_start (y - 1) \<le> jd" "jd < year_start (y + 2)"
    using year_start_bounds [of "y - 1"] year_start_bounds [of "y + 2"] by simp_all
  then show "year_start (year_of_julian jd) \<le> jd" "jd < year_start (year_of_julian jd + 1)"
    by (auto simp: year_of_julian_def y_def Let_def algebra_simps)
qed


lemma month_start_next:
  "1 \<le> m \<Longrightarrow> m < 12 \<Longrightarrow> month_start y (m + 1) = month_start y m + days_in_month y m"
proof -
  assume "1 \<le> m" "m < 12"
  then have "m = 1 \<or> m = 2 \<or> m = 3 \<or> m = 4 \<or> m = 5 \<or> m = 6 \<or> m = 7 \<or> m = 8 \<or> m = 9 \<or> m = 10 \<or> m = 11"
    by presburger
  then show ?thesis by (elim disjE) (simp_all add: month_start_def days_in_month_def Let_def)
qed

lemma month_of_offset:
  assumes "0 \<le> off" "off < 365 + (if is_leap y then 1 else 0)"
  shows "1 \<le> month_of_offset y off \<and> month_of_offset y off \<le> 12 \<and>
    month_start y (month_of_offset y off) \<le> off \<and>
    off < month_start y (month_of_offset y off) + days_in_month y (month_of_offset y off)"
  using assms
  by (cases "is_leap y") (simp_all add: month_of_offset_def month_start_def days_in_month_def Let_def)


lemma gregorian_j2date_valid:
  assumes "gregorian_j2date jd = (y, m, d)"
  shows "1 \<le> m \<and> m \<le> 12 \<and> 1 \<le> d \<and> d \<le> days_in_month y m \<and> gregorian_date2j y m d = jd"
    and "year_start y \<le> jd \<and> jd < year_start (y + 1)"
proof -
  have y: "y = year_of_julian jd" "m = month_of_offset y (jd - year_start y)"
    "d = jd - year_start y - month_start y m + 1"
    using assms by (auto simp: gregorian_j2date_def Let_def)
  show b: "year_start y \<le> jd \<and> jd < year_start (y + 1)"
    using year_of_julian [of jd] y(1) by simp
  then have "0 \<le> jd - year_start y" "jd - year_start y < 365 + (if is_leap y then 1 else 0)"
    using year_start_Suc [of y] by simp_all
  from month_of_offset [OF this]
  show "1 \<le> m \<and> m \<le> 12 \<and> 1 \<le> d \<and> d \<le> days_in_month y m \<and> gregorian_date2j y m d = jd"
    unfolding y(2) [symmetric] by (auto simp: y(3) gregorian_date2j_def)
qed

lemma year_start_mono: "a \<le> b \<Longrightarrow> year_start a \<le> year_start b"
  by (induction b rule: int_ge_induct) (simp_all add: year_start_Suc)

lemma year_start_unique:
  "year_start a \<le> jd \<Longrightarrow> jd < year_start (a + 1) \<Longrightarrow> year_start b \<le> jd \<Longrightarrow> jd < year_start (b + 1) \<Longrightarrow> a = b"
  using year_start_mono [of "a + 1" b] year_start_mono [of "b + 1" a] by linarith

lemma month_start_bound:
  assumes "1 \<le> m" "m \<le> 12"
  shows "0 \<le> month_start y m \<and> month_start y m + days_in_month y m \<le> 365 + (if is_leap y then 1 else 0)"
proof -
  have "m = 1 \<or> m = 2 \<or> m = 3 \<or> m = 4 \<or> m = 5 \<or> m = 6 \<or> m = 7 \<or> m = 8 \<or> m = 9 \<or> m = 10 \<or> m = 11 \<or> m = 12"
    using assms by presburger
  then show ?thesis by (elim disjE) (simp_all add: month_start_def days_in_month_def Let_def)
qed

lemma month_start_mono:
  assumes "1 \<le> a" "a < b"
  shows "b \<le> 12 \<longrightarrow> month_start y a + days_in_month y a \<le> month_start y b"
proof -
  have "a + 1 \<le> b" using assms(2) by simp
  then show ?thesis
  proof (induction b rule: int_ge_induct)
    case base
    then show ?case using month_start_next [of a y] assms(1) by simp
  next
    case (step b)
    then show ?case using month_start_next [of b y] assms(1) days_in_month_pos(1) [of y b] by auto
  qed
qed

lemma gregorian_inverse:
  assumes "1 \<le> m" "m \<le> 12" "1 \<le> d" "d \<le> days_in_month y m"
  shows "gregorian_j2date (gregorian_date2j y m d) = (y, m, d)"
proof -
  let ?jd = "gregorian_date2j y m d"
  obtain y' m' d' where j: "gregorian_j2date ?jd = (y', m', d')" by (cases "gregorian_j2date ?jd") auto
  note v = gregorian_j2date_valid [OF j]
  have "year_start y \<le> ?jd" "?jd < year_start (y + 1)"
    using month_start_bound [OF assms(1,2), of y] assms(3,4) year_start_Suc [of y]
    by (simp_all add: gregorian_date2j_def)
  then have y: "y' = y" using year_start_unique v(2) by blast
  have "\<not> m < m'" "\<not> m' < m"
    using month_start_mono [of m m' y] month_start_mono [of m' m y] v(1) assms y
    by (auto simp: gregorian_date2j_def)
  then have "m' = m" by simp
  with y v(1) j show ?thesis by (simp add: gregorian_date2j_def)
qed

lemma calendar_ok_gregorian: "calendar_ok gregorian"
proof -
  have range: "- 4713 \<le> y \<and> y \<le> 5874897" if "valid_julian jd" "gregorian_j2date jd = (y, m, d)" for jd y m d
  proof -
    have b: "year_start y \<le> jd" "jd < year_start (y + 1)" using gregorian_j2date_valid(2) [OF that(2)] by simp_all
    have "\<not> y < - 4713"
      using year_start_mono [of "y + 1" "- 4713"] b that(1) by (auto simp: valid_julian_def year_start_def)
    moreover have "\<not> 5874897 < y"
      using year_start_mono [of 5874898 y] b that(1)
      by (auto simp: valid_julian_def year_start_def DATE_END_JULIAN_def)
    ultimately show ?thesis by simp
  qed
  have next_year: "gregorian_date2j (y + 1) 1 1 = gregorian_date2j y 12 1 + days_in_month y 12" for y
    by (simp add: gregorian_date2j_def year_start_Suc month_start_def days_in_month_def Let_def)
  show ?thesis
    unfolding calendar_ok_def gregorian_def
    using range gregorian_j2date_valid(1) gregorian_inverse next_year
    by (auto simp: valid_ymd_def gregorian_date2j_def [of _ "_ + 1"] gregorian_date2j_def month_start_next POSTGRES_EPOCH_JDATE_def
        year_start_def month_start_def [of _ 1])
qed

section \<open>The transforms return the period that contains the value\<close>

text \<open>the month transform of every valid date succeeds and returns the month that contains the
  date: the date is not before the first day of that month and before the first day of the next
  (the bracket that \<^verbatim>\<open>DateMonthFromUnixEpoch\<close> asserts in debug builds).\<close>

theorem DateMonthFromUnixEpoch_bracket:
  assumes "calendar_ok cal" "valid_date date"
  shows "\<exists>months. DateMonthFromUnixEpoch cal date = Inr months \<and>
    MonthsFromEpochToDate cal months \<le> date \<and> date < MonthsFromEpochToDate cal (months + 1)"
proof -
  obtain y m d where j: "j2date cal (date + POSTGRES_EPOCH_JDATE) = (y, m, d)"
    and v: "valid_ymd y m d" and jd: "date2j cal y m d = date + POSTGRES_EPOCH_JDATE"
    using calendar_j2date [OF assms(1)] assms(2) unfolding valid_date_def by metis
  have "valid_julian (date2j cal y m d)" using assms(2) jd by (simp add: valid_date_def)
  note first = MonthsFromEpochToDate_month [OF assms(1) v this]
  have "1 \<le> d" "d \<le> days_in_month y m" using v by (simp_all add: valid_ymd_def)
  then show ?thesis
    using DateMonthFromUnixEpoch_eq [OF assms j v] first calendar_day [OF assms(1) v] jd by auto
qed

theorem DateMonthFromUnixEpoch_bracket_witness:
  "\<exists>months. DateMonthFromUnixEpoch gregorian 8825 = Inr months \<and>
    MonthsFromEpochToDate gregorian months \<le> 8825 \<and> 8825 < MonthsFromEpochToDate gregorian (months + 1)"
  by (rule DateMonthFromUnixEpoch_bracket [OF calendar_ok_gregorian])
     (simp add: valid_date_def valid_julian_def DATE_END_JULIAN_def POSTGRES_EPOCH_JDATE_def)

text \<open>C40: a month count read back as a date (the first of that month) and transformed again is the
  same month count, negative counts included, as long as the date is one PostgreSQL has.\<close>

theorem DateMonth_round_trip:
  assumes "calendar_ok cal" "is_i32 months" "split_months months = (y, b)"
    "- 4713 \<le> y" "y \<le> 5874897" "valid_julian (date2j cal y (b + 1) 1)"
  shows "DateMonthFromUnixEpoch cal (MonthsFromEpochToDate cal months) = Inr months"
proof -
  note inv = split_months_inverse [OF assms(2,3)]
  have v: "valid_ymd y (b + 1) 1" using inv assms(4,5) days_in_month_pos by (simp add: valid_ymd_def)
  have M: "MonthsFromEpochToDate cal months = date2j cal y (b + 1) 1 - POSTGRES_EPOCH_JDATE"
    using MonthsFromEpochToDate_month(1) [OF assms(1) v assms(6)] inv(1) by simp
  have vd: "valid_date (MonthsFromEpochToDate cal months)"
    using assms(6) M by (simp add: valid_date_def)
  moreover have "j2date cal (MonthsFromEpochToDate cal months + POSTGRES_EPOCH_JDATE) = (y, b + 1, 1)"
    using calendar_inverse [OF assms(1) v assms(6)] M by simp
  ultimately show ?thesis
    using DateMonthFromUnixEpoch_eq [OF assms(1) _ _ v] inv(1) by simp
qed

theorem DateMonth_round_trip_witness:
  "DateMonthFromUnixEpoch gregorian (MonthsFromEpochToDate gregorian (- 13)) = Inr (- 13)"
  by (rule DateMonth_round_trip [OF calendar_ok_gregorian, of _ 1968 11]) code_simp+

text \<open>the year transform of every valid date succeeds and returns the year that contains the date:
  not before 1 January of that year and before 1 January of the next.\<close>

theorem DateYearFromUnixEpoch_bracket:
  assumes "calendar_ok cal" "valid_date date"
  shows "\<exists>years. DateYearFromUnixEpoch cal date = Inr years \<and>
    YearsFromEpochToDate cal years \<le> date \<and> date < YearsFromEpochToDate cal (years + 1)"
proof -
  obtain y m d where j: "j2date cal (date + POSTGRES_EPOCH_JDATE) = (y, m, d)"
    and v: "valid_ymd y m d" and jd: "date2j cal y m d = date + POSTGRES_EPOCH_JDATE"
    using calendar_j2date [OF assms(1)] assms(2) unfolding valid_date_def by metis
  have y: "- 4713 \<le> y" "y \<le> 5874897" and d: "1 \<le> d" "d \<le> days_in_month y m"
    and m: "1 \<le> m" "m \<le> 12" using v by (simp_all add: valid_ymd_def)
  have le: "date2j cal y 1 1 \<le> date2j cal y m d" "date2j cal y m d < date2j cal (y + 1) 1 1"
    "date2j cal y m d \<le> date2j cal y 1 1 + 400" "date2j cal (y + 1) 1 1 \<le> date2j cal y m d + 400"
    using year_start_le_month [OF assms(1) y m(1)] month_end_le_year [OF assms(1) y m(2)] m d
      calendar_day [OF assms(1) v] days_in_month_pos [of y m] by auto
  have yy: "DateYearFromUnixEpoch cal date = Inr (y - UNIX_EPOCH_YEAR)"
    using y j date_julian [OF assms(2)] valid_date_finite [OF assms(2)]
    by (simp add: DateYearFromUnixEpoch_def GetYearFromDate_def is_i32_def int_limits UNIX_EPOCH_YEAR_def)
  have "is_i32 (date2j cal y 1 1 - POSTGRES_EPOCH_JDATE)" "is_i32 (date2j cal (y + 1) 1 1 - POSTGRES_EPOCH_JDATE)"
    using le jd assms(2) by (auto simp: valid_date_def valid_julian_def DATE_END_JULIAN_def is_i32_def
        int_limits POSTGRES_EPOCH_JDATE_def)
  moreover have "is_i32 y" "is_i32 (y + 1)" using y by (simp_all add: is_i32_def int_limits)
  ultimately have "YearsFromEpochToDate cal (y - UNIX_EPOCH_YEAR) = date2j cal y 1 1 - POSTGRES_EPOCH_JDATE"
    "YearsFromEpochToDate cal (y - UNIX_EPOCH_YEAR + 1) = date2j cal (y + 1) 1 1 - POSTGRES_EPOCH_JDATE"
    by (simp_all add: YearsFromEpochToDate_def Let_def)
  then show ?thesis using yy le jd by auto
qed

theorem DateYearFromUnixEpoch_bracket_witness:
  "\<exists>years. DateYearFromUnixEpoch gregorian (- 11324) = Inr years \<and>
    YearsFromEpochToDate gregorian years \<le> - 11324 \<and> - 11324 < YearsFromEpochToDate gregorian (years + 1)"
  by (rule DateYearFromUnixEpoch_bracket [OF calendar_ok_gregorian])
     (simp add: valid_date_def valid_julian_def DATE_END_JULIAN_def POSTGRES_EPOCH_JDATE_def)

text \<open>the month transform of every valid timestamp (up to the last month of the range) succeeds
  and returns the month whose first and next first midnight enclose the timestamp.\<close>

theorem TimestampMonthFromUnixEpoch_bracket:
  assumes "calendar_ok cal" "valid_timestamp ts" "valid_timestamp (ts + 31 * USECS_PER_DAY)"
  shows "\<exists>months. TimestampMonthFromUnixEpoch cal ts = Inr months \<and>
    MonthsFromUnixEpochToTimestamp cal months \<le> ts \<and> ts < MonthsFromUnixEpochToTimestamp cal (months + 1)"
proof -
  define date where "date = ts div USECS_PER_DAY"
  have D: "date * USECS_PER_DAY \<le> ts" "ts < (date + 1) * USECS_PER_DAY"
    "- 2451545 \<le> date" "date + 31 < 106751983"
    using assms(2,3) by (auto simp: date_def valid_timestamp_def USECS_PER_DAY_def)
  then have vj: "valid_julian (date + POSTGRES_EPOCH_JDATE)"
    by (simp add: valid_julian_def DATE_END_JULIAN_def POSTGRES_EPOCH_JDATE_def)
  obtain y m d where j: "j2date cal (date + POSTGRES_EPOCH_JDATE) = (y, m, d)"
    and v: "valid_ymd y m d" and jd: "date2j cal y m d = date + POSTGRES_EPOCH_JDATE"
    using calendar_j2date [OF assms(1) vj] by metis
  have tm: "timestamp2tm cal ts = Some \<lparr>tm_year = y, tm_mon = m\<rparr>"
    using calendar_tm [OF assms(1,2)] j by (simp add: date_def)
  have v1: "valid_ymd y m 1" using v days_in_month_pos [of y m] by (auto simp: valid_ymd_def)
  define s where "s = date2j cal y m 1 - POSTGRES_EPOCH_JDATE"
  have d: "1 \<le> d" "d \<le> days_in_month y m" "days_in_month y m \<le> 31" using v days_in_month_pos by (simp_all add: valid_ymd_def)
  have sd: "date = s + (d - 1)" using calendar_day [OF assms(1) v] jd by (simp add: s_def)
  have "is_i32 s" "is_i32 (s + days_in_month y m)" "is_i64 (s * USECS_PER_DAY)" "is_i64 ((s + days_in_month y m) * USECS_PER_DAY)"
    using d sd D(3,4) by (auto simp: is_i32_def is_i64_def int_limits USECS_PER_DAY_def)
  then have "MonthsFromUnixEpochToTimestamp cal (month_number y m) = s * USECS_PER_DAY"
    "MonthsFromUnixEpochToTimestamp cal (month_number y m + 1) = (s + days_in_month y m) * USECS_PER_DAY"
    using split_months_month_number [OF v] calendar_next_month [OF assms(1) v1]
    by (auto simp: MonthsFromUnixEpochToTimestamp_def s_def algebra_simps split: if_splits)
  moreover have "is_i32 (y - UNIX_EPOCH_YEAR)" "is_i32 ((y - UNIX_EPOCH_YEAR) * 12)" "is_i32 (m - 1)"
    "is_i32 ((y - UNIX_EPOCH_YEAR) * 12 + (m - 1))"
    using v by (auto simp: valid_ymd_def is_i32_def int_limits UNIX_EPOCH_YEAR_def)
  then have "TimestampMonthFromUnixEpoch cal ts = Inr (month_number y m)"
    using tm valid_timestamp_finite [OF assms(2)]
    by (simp add: TimestampMonthFromUnixEpoch_def month_number_def algebra_simps)
  moreover have "s * USECS_PER_DAY \<le> date * USECS_PER_DAY" "(date + 1) * USECS_PER_DAY \<le> (s + days_in_month y m) * USECS_PER_DAY"
    using sd d by (simp_all add: USECS_PER_DAY_def)
  ultimately show ?thesis using D by auto
qed

theorem TimestampMonthFromUnixEpoch_bracket_witness:
  "\<exists>months. TimestampMonthFromUnixEpoch gregorian (- 1000000000000000) = Inr months \<and>
    MonthsFromUnixEpochToTimestamp gregorian months \<le> - 1000000000000000 \<and>
    - 1000000000000000 < MonthsFromUnixEpochToTimestamp gregorian (months + 1)"
  by (rule TimestampMonthFromUnixEpoch_bracket [OF calendar_ok_gregorian])
     (simp_all add: valid_timestamp_def USECS_PER_DAY_def)

text \<open>the day transform of a valid timestamp returns the day that contains it, also before 1970,
  where C's division would round the wrong way; the timestamp must be representable relative to
  the Unix epoch.\<close>

theorem TimestampDayFromUnixEpoch_bracket:
  assumes "valid_timestamp ts" "ts + 946684800000000 \<le> INT64_MAX"
  shows "\<exists>days. TimestampDayFromUnixEpoch ts = Inr days \<and>
    DaysFromUnixEpochToTimestamp days \<le> ts \<and> ts < DaysFromUnixEpochToTimestamp (days + 1)"
proof -
  define q where "q = (ts + 946684800000000) div USECS_PER_DAY"
  have Q: "q * USECS_PER_DAY \<le> ts + 946684800000000" "ts + 946684800000000 < (q + 1) * USECS_PER_DAY"
    "- 2440588 \<le> q" "q \<le> 106751991"
    using assms by (auto simp: q_def valid_timestamp_def USECS_PER_DAY_def int_limits)
  have "DIV_FLOOR_INT64 (ts + 946684800000000) USECS_PER_DAY = q"
    unfolding q_def using assms
    by (intro DIV_FLOOR_INT64_eq) (simp_all add: valid_timestamp_def is_i64_def int_limits USECS_PER_DAY_def)
  moreover have "is_i32 q" using Q by (simp add: is_i32_def int_limits)
  ultimately have res: "TimestampDayFromUnixEpoch ts = Inr q"
    using unix_ts [OF assms] valid_timestamp_finite [OF assms(1)]
    by (simp add: TimestampDayFromUnixEpoch_def)
  have days: "DaysFromUnixEpochToTimestamp d = (d - 10957) * USECS_PER_DAY"
    if "- 2440588 \<le> d" "d \<le> 106751992" for d
    using that by (simp add: DaysFromUnixEpochToTimestamp_def Let_def is_i32_def is_i64_def
        int_limits time_consts)
  have "DaysFromUnixEpochToTimestamp q = (q - 10957) * USECS_PER_DAY"
    "DaysFromUnixEpochToTimestamp (q + 1) = (q + 1 - 10957) * USECS_PER_DAY"
    using Q by (simp_all add: days)
  moreover have "10957 * USECS_PER_DAY = 946684800000000" by (simp add: USECS_PER_DAY_def)
  ultimately show ?thesis
    using Q(1,2) res by (intro exI [of _ q]) (simp add: USECS_PER_DAY_def)
qed

theorem TimestampDayFromUnixEpoch_bracket_witness:
  "\<exists>days. TimestampDayFromUnixEpoch (- 946684800000001) = Inr days \<and>
    DaysFromUnixEpochToTimestamp days \<le> - 946684800000001 \<and>
    - 946684800000001 < DaysFromUnixEpochToTimestamp (days + 1)"
  by (rule TimestampDayFromUnixEpoch_bracket) (simp_all add: valid_timestamp_def int_limits)

text \<open>the hour transform of a valid timestamp returns the hour that contains it, before and after
  1970, as long as the hour count is a 32-bit integer (until the year 246953).\<close>

theorem TimestampHourFromUnixEpoch_bracket:
  assumes "valid_timestamp ts" "ts + 946684800000000 < 2 ^ 31 * USECS_PER_HOUR"
  shows "\<exists>hours. TimestampHourFromUnixEpoch ts = Inr hours \<and>
    HoursFromUnixEpochToTimestamp hours \<le> ts \<and> ts < HoursFromUnixEpochToTimestamp hours + USECS_PER_HOUR"
proof -
  define q where "q = (ts + 946684800000000) div USECS_PER_HOUR"
  have Q: "q * USECS_PER_HOUR \<le> ts + 946684800000000" "ts + 946684800000000 < (q + 1) * USECS_PER_HOUR"
    "- (2 ^ 31) \<le> q" "q < 2 ^ 31"
    using assms by (auto simp: q_def valid_timestamp_def USECS_PER_HOUR_def int_limits)
  have small: "ts + 946684800000000 \<le> INT64_MAX"
    using assms by (simp add: USECS_PER_HOUR_def int_limits)
  have "DIV_FLOOR_INT64 (ts + 946684800000000) USECS_PER_HOUR = q"
    unfolding q_def using assms small
    by (intro DIV_FLOOR_INT64_eq) (simp_all add: valid_timestamp_def is_i64_def int_limits USECS_PER_HOUR_def)
  moreover have "is_i32 q" using Q by (simp add: is_i32_def int_limits)
  ultimately have "TimestampHourFromUnixEpoch ts = Inr q"
    using unix_ts [OF assms(1) small] valid_timestamp_finite [OF assms(1)]
    by (simp add: TimestampHourFromUnixEpoch_def)
  moreover have "HoursFromUnixEpochToTimestamp q = q * USECS_PER_HOUR - 946684800000000"
    using Q by (simp add: HoursFromUnixEpochToTimestamp_def AdjustTimestampFromUnixToPostgres_def Let_def
        epoch_diffs is_i64_def int_limits USECS_PER_HOUR_def)
  ultimately show ?thesis using Q by (auto simp: algebra_simps)
qed

theorem TimestampHourFromUnixEpoch_bracket_witness:
  "\<exists>hours. TimestampHourFromUnixEpoch (- 946684800000001) = Inr hours \<and>
    HoursFromUnixEpochToTimestamp hours \<le> - 946684800000001 \<and>
    - 946684800000001 < HoursFromUnixEpochToTimestamp hours + USECS_PER_HOUR"
  by (rule TimestampHourFromUnixEpoch_bracket) (simp_all add: valid_timestamp_def USECS_PER_HOUR_def)

end
