(* ===== verification/Pg_Types.thy ===== *)
theory Pg_Types
  imports Numeric_Types
begin

text \<open>
  PostgreSQL types and values as the code sees them, the mapping of base types to Iceberg type
  names (\<^verbatim>\<open>pg_lake_engine/src/parquet/field.c\<close>) and the comparison of two values
  (\<^verbatim>\<open>pg_lake_engine/src/utils/compare_utils.c\<close>).  A \<^verbatim>\<open>Datum\<close> is a by-value integer (booleans,
  integers, dates, times, timestamps, and the bit patterns of floats), a byte string (text, bytea,
  uuid), a numeric represented by its \<^verbatim>\<open>numeric_out\<close> text, or a \<^verbatim>\<open>timetz\<close> pair; reading a value
  as the wrong kind is \<open>Trap\<close>.  Comparison functions of PostgreSQL are a parameter.
\<close>

section \<open>Types and values\<close>

datatype pg_oid =
    BOOLOID | INT2OID | INT4OID | INT8OID | FLOAT4OID | FLOAT8OID | DATEOID | TIMEOID | TIMETZOID
  | TIMESTAMPOID | TIMESTAMPTZOID | TEXTOID | BPCHAROID | VARCHAROID | UUIDOID | BYTEAOID | NUMERICOID
  | GEOMETRYOID | OTHEROID nat

record PGType =
  postgresTypeOid :: pg_oid
  postgresTypeMod :: int

definition MakePGType :: "pg_oid \<Rightarrow> int \<Rightarrow> PGType" where
  "MakePGType oid typmod = \<lparr>postgresTypeOid = oid, postgresTypeMod = typmod\<rparr>"

datatype datum = DInt int | DBytes bytes | DNumeric string | DTimeTz int int

definition wrap16 :: "int \<Rightarrow> int" where
  "wrap16 x = sint (word_of_int x :: u16)"

lemma wrap16_id: "is_i16 x \<Longrightarrow> wrap16 x = x"
  by (simp add: wrap16_def int_word_sint is_i16_def int_limits)

fun datum_int :: "datum \<Rightarrow> int result" where
  "datum_int (DInt x) = Inr x"
| "datum_int _ = Inl Trap"

fun datum_bytes :: "datum \<Rightarrow> bytes result" where
  "datum_bytes (DBytes bs) = Inr bs"
| "datum_bytes _ = Inl Trap"

fun datum_numeric :: "datum \<Rightarrow> string result" where
  "datum_numeric (DNumeric s) = Inr s"
| "datum_numeric _ = Inl Trap"

fun datum_timetz :: "datum \<Rightarrow> (int \<times> int) result" where
  "datum_timetz (DTimeTz t z) = Inr (t, z)"
| "datum_timetz _ = Inl Trap"

definition DatumGetBool :: "datum \<Rightarrow> bool result" where
  "DatumGetBool d = result_bind (datum_int d) (\<lambda>x. Inr (x \<noteq> 0))"

definition DatumGetInt16 :: "datum \<Rightarrow> int result" where
  "DatumGetInt16 d = result_bind (datum_int d) (\<lambda>x. Inr (wrap16 x))"

definition DatumGetInt32 :: "datum \<Rightarrow> int result" where
  "DatumGetInt32 d = result_bind (datum_int d) (\<lambda>x. Inr (wrap32 x))"

definition DatumGetInt64 :: "datum \<Rightarrow> int result" where
  "DatumGetInt64 d = result_bind (datum_int d) (\<lambda>x. Inr (wrap64 x))"

text \<open>A C string ends at its first zero byte.\<close>

definition c_string :: "bytes \<Rightarrow> bytes" where
  "c_string bs = takeWhile (\<lambda>b. b \<noteq> 0) bs"


section \<open>Iceberg names of base types\<close>

text \<open>Decimal printing of a C \<^verbatim>\<open>%d\<close>, used for type names, paths and transform names.\<close>

fun nat_digits :: "nat \<Rightarrow> string" where
  "nat_digits n = (if n < 10 then [char_of (48 + n)] else nat_digits (n div 10) @ [char_of (48 + n mod 10)])"

declare nat_digits.simps [simp del]

definition int_digits :: "int \<Rightarrow> string" where
  "int_digits i = (if i < 0 then CHR ''-'' # nat_digits (nat (- i)) else nat_digits (nat i))"

text \<open>The catalog: the base type of a domain, and whether the spatial extension is installed.\<close>

record pg_catalog =
  ResolveDomainBaseType :: "pg_oid \<Rightarrow> pg_oid"
  PgLakeSpatialEnabled :: bool
  catalog_settings :: numeric_settings

definition PostgresBaseTypeIdToIcebergTypeName :: "pg_catalog \<Rightarrow> PGType \<Rightarrow> string result" where
  "PostgresBaseTypeIdToIcebergTypeName cat pgType =
     (case ResolveDomainBaseType cat (postgresTypeOid pgType) of
        BOOLOID \<Rightarrow> Inr ''boolean''
      | INT4OID \<Rightarrow> Inr ''int''
      | INT2OID \<Rightarrow> Inr ''int''
      | INT8OID \<Rightarrow> Inr ''long''
      | FLOAT4OID \<Rightarrow> Inr ''float''
      | FLOAT8OID \<Rightarrow> Inr ''double''
      | DATEOID \<Rightarrow> Inr ''date''
      | TIMEOID \<Rightarrow> Inr ''time''
      | TIMETZOID \<Rightarrow> Inr ''time''
      | TIMESTAMPOID \<Rightarrow> Inr ''timestamp''
      | TIMESTAMPTZOID \<Rightarrow> Inr ''timestamptz''
      | TEXTOID \<Rightarrow> Inr ''string''
      | BPCHAROID \<Rightarrow> Inr ''string''
      | VARCHAROID \<Rightarrow> Inr ''string''
      | UUIDOID \<Rightarrow> Inr ''uuid''
      | BYTEAOID \<Rightarrow> Inr ''binary''
      | NUMERICOID \<Rightarrow>
          (case GetDuckdbAdjustedPrecisionAndScaleFromNumericTypeMod (catalog_settings cat) (postgresTypeMod pgType) of
             (precision, scale) \<Rightarrow>
               if CanPushdownNumericToDuckdb precision scale
               then Inr (''decimal('' @ int_digits precision @ '','' @ int_digits scale @ '')'')
               else Inr ''string'')
      | GEOMETRYOID \<Rightarrow>
          (if PgLakeSpatialEnabled cat then Inr ''binary''
           else Inl (FeatureNotSupported ''pg_lake_spatial extension is not enabled''))
      | OTHEROID _ \<Rightarrow> Inr ''string'')"

definition PGTypeRequiresConversionToIcebergString :: "string \<Rightarrow> PGType \<Rightarrow> bool" where
  "PGTypeRequiresConversionToIcebergString typeName pgType =
     (if postgresTypeOid pgType = GEOMETRYOID then True
      else typeName = ''string'' \<and> postgresTypeOid pgType \<noteq> TEXTOID)"


section \<open>Comparison\<close>

text \<open>\<open>gt oid\<close> and \<open>lt oid\<close> are the comparison functions of PostgreSQL for the type.\<close>

definition comparable_type :: "pg_oid \<Rightarrow> bool" where
  "comparable_type oid =
     (case oid of GEOMETRYOID \<Rightarrow> False | OTHEROID _ \<Rightarrow> False | _ \<Rightarrow> True)"

definition IsDatumGreaterThan ::
  "(pg_oid \<Rightarrow> datum \<Rightarrow> datum \<Rightarrow> bool) \<Rightarrow> datum \<Rightarrow> datum \<Rightarrow> PGType \<Rightarrow> bool result" where
  "IsDatumGreaterThan gt v1 v2 pgType =
     (if comparable_type (postgresTypeOid pgType) then Inr (gt (postgresTypeOid pgType) v1 v2)
      else Inl (InternalError ''Unsupported type for > comparison''))"

definition IsDatumLessThan ::
  "(pg_oid \<Rightarrow> datum \<Rightarrow> datum \<Rightarrow> bool) \<Rightarrow> datum \<Rightarrow> datum \<Rightarrow> PGType \<Rightarrow> bool result" where
  "IsDatumLessThan lt v1 v2 pgType =
     (if comparable_type (postgresTypeOid pgType) then Inr (lt (postgresTypeOid pgType) v1 v2)
      else Inl (InternalError ''Unsupported type for < comparison''))"

end
