(* ===== verification/Numeric_Serde.thy ===== *)
theory Numeric_Serde
  imports Numeric_Types
begin

text \<open>
  \<^verbatim>\<open>pg_lake_iceberg/src/iceberg/iceberg_type_numeric_binary_serde.c\<close>: numeric values as
  big-endian two's complement byte strings.  A numeric datum is represented by its
  \<^verbatim>\<open>numeric_out\<close> text.  The loops over the 16-byte buffer are recursions over byte lists (index
  15 down to 0 is from the tail forwards); reads and writes outside the buffer are \<open>Trap\<close>.
\<close>

section \<open>Decimal text to bytes\<close>

definition digit_value :: "char \<Rightarrow> nat" where
  "digit_value c = of_char c - of_char (CHR ''0'')"

definition isdigit :: "char \<Rightarrow> bool" where
  "isdigit c \<longleftrightarrow> (48::nat) \<le> of_char c \<and> of_char c \<le> (57::nat)"

text \<open>The inner loops of \<^verbatim>\<open>NumericStrToBigEndianBinary\<close>: multiply by ten, add a digit.\<close>

fun mul10_loop :: "bytes \<Rightarrow> bytes \<times> nat" where
  "mul10_loop [] = ([], 0)"
| "mul10_loop (b # bs) =
     (case mul10_loop bs of (bs', carry) \<Rightarrow>
        let val = unat b * 10 + carry in (of_nat val # bs', val div 256))"

fun add_loop :: "bytes \<Rightarrow> nat \<Rightarrow> bytes \<times> nat" where
  "add_loop [] carry = ([], carry)"
| "add_loop (b # bs) carry =
     (case add_loop bs carry of (bs', carry) \<Rightarrow>
        if carry > 0 then (let val = unat b + carry in (of_nat val # bs', val div 256))
        else (b # bs', 0))"

fun numeric_str_loop :: "string \<Rightarrow> bytes \<Rightarrow> bytes result" where
  "numeric_str_loop [] numericBinary = Inr numericBinary"
| "numeric_str_loop (p # ps) numericBinary =
     (if \<not> isdigit p
      then Inl (InternalError ''not a valid numeric string while converting to Iceberg binary'')
      else case mul10_loop numericBinary of (numericBinary, carry) \<Rightarrow>
        if carry \<noteq> 0 then Inl (InternalError ''numeric overflow while converting to Iceberg binary'')
        else case add_loop numericBinary (digit_value p) of (numericBinary, carry) \<Rightarrow>
          if carry \<noteq> 0 then Inl (InternalError ''numeric overflow while converting to Iceberg binary'')
          else numeric_str_loop ps numericBinary)"

definition NumericStrToBigEndianBinary :: "string \<Rightarrow> bytes result" where
  "NumericStrToBigEndianBinary numericStr = numeric_str_loop numericStr (replicate 16 0)"

definition NormalizeNumericStr :: "string \<Rightarrow> int \<Rightarrow> string" where
  "NormalizeNumericStr numericStr targetScale =
     (let p = (case numericStr of c # cs \<Rightarrow> if c = CHR ''-'' \<or> c = CHR ''+'' then cs else numericStr
               | [] \<Rightarrow> []);
          integral = takeWhile (\<lambda>c. c \<noteq> CHR ''.'') p;
          fraction = drop (length integral + 1) p;
          copyFraction = (if int (length fraction) < targetScale then length fraction else nat targetScale)
      in integral @ take copyFraction fraction @ replicate (nat targetScale - copyFraction) CHR ''0'')"

fun invert_add_loop :: "bytes \<Rightarrow> bytes \<times> nat" where
  "invert_add_loop [] = ([], 1)"
| "invert_add_loop (b # bs) =
     (case invert_add_loop bs of (bs', carry) \<Rightarrow>
        if carry = 0 then (NOT b # bs', 0)
        else (let val = unat (NOT b) + carry in (of_nat val # bs', val div 256)))"

definition TwosComplement :: "bytes \<Rightarrow> bytes" where
  "TwosComplement numericBinary = fst (invert_add_loop numericBinary)"

definition StripLeadingBytes :: "bytes \<Rightarrow> bool \<Rightarrow> bytes" where
  "StripLeadingBytes binaryValue isNegative =
     (let len = 16;
          pad = (if isNegative then 0xFF else 0);
          skippedBytes = length (takeWhile (\<lambda>b. b = pad) (take (len - 1) binaryValue));
          top = binaryValue ! skippedBytes AND 0x80
      in if skippedBytes > 0 \<and> (if isNegative then top = 0 else top \<noteq> 0)
         then pad # drop skippedBytes binaryValue
         else if skippedBytes > 0 then drop skippedBytes binaryValue
         else binaryValue)"

definition numeric_is_special :: "string \<Rightarrow> bool" where
  "numeric_is_special n \<longleftrightarrow> n = ''NaN'' \<or> n = ''Infinity'' \<or> n = ''-Infinity''"

text \<open>\<open>Inr None\<close> is the \<^verbatim>\<open>NULL\<close> result for NaN and the infinities.\<close>

definition PGNumericIcebergBinarySerialize :: "string \<Rightarrow> int \<Rightarrow> bytes option result" where
  "PGNumericIcebergBinarySerialize numericStr icebergScale =
     (if numeric_is_special numericStr then Inr None
      else if numericStr = [] then Inl (InternalError ''failed to convert numeric to string'')
      else
        let isNegative = (hd numericStr = CHR ''-'');
            normalizedNumericStr = NormalizeNumericStr numericStr icebergScale
        in result_bind (NumericStrToBigEndianBinary normalizedNumericStr) (\<lambda>numericBinary.
           let numericBinary = (if isNegative then TwosComplement numericBinary else numericBinary)
           in Inr (Some (StripLeadingBytes numericBinary isNegative))))"


section \<open>Bytes to decimal text\<close>

fun div10_loop :: "bytes \<Rightarrow> nat \<Rightarrow> bytes \<times> nat" where
  "div10_loop [] remainder = ([], remainder)"
| "div10_loop (b # bs) remainder =
     (let val = 256 * remainder + unat b in
      case div10_loop bs (val mod 10) of (bs', r) \<Rightarrow> (of_nat (val div 10) # bs', r))"

lemma div10_loop_value:
  "r < 10 \<Longrightarrow> div10_loop bs r = (qs, r') \<Longrightarrow>
     length qs = length bs \<and> r' < 10 \<and>
     10 * be_value qs + r' = r * 256 ^ length bs + be_value bs"
proof (induction bs arbitrary: r qs)
  case (Cons b bs)
  define val where "val = 256 * r + unat b"
  obtain qs' where q: "div10_loop bs (val mod 10) = (qs', r')" "qs = of_nat (val div 10) # qs'"
    using Cons.prems(2) by (auto simp: val_def Let_def split: prod.splits)
  have IH: "length qs' = length bs" "r' < 10"
    "10 * be_value qs' + r' = (val mod 10) * 256 ^ length bs + be_value bs"
    using Cons.IH [OF _ q(1)] by simp_all
  have "val div 10 < 256"
    using Cons.prems(1) unat_byte_less [of b] by (simp add: val_def del: unat_byte_less)
  then have u: "unat (of_nat (val div 10) :: byte) = val div 10" by (simp add: unat_of_nat)
  have "10 * (val div 10) * 256 ^ length bs + (val mod 10) * 256 ^ length bs = val * 256 ^ length bs"
    by (metis add_mult_distrib mult_div_mod_eq)
  then show ?case
    using IH q(2) u by (simp add: val_def algebra_simps)
qed simp

lemma be_value_all_zero: "list_all (\<lambda>b. b = 0) bs \<longleftrightarrow> be_value bs = 0"
  by (induction bs) (auto simp: word_unat_eq_iff)

lemma div10_loop_less:
  assumes "(q, r) = div10_loop bs 0" "\<not> list_all (\<lambda>b. b = 0) q"
  shows "be_value q < be_value bs"
proof -
  have "10 * be_value q + r = be_value bs" using div10_loop_value [of 0 bs q r] assms(1) by simp
  moreover have "0 < be_value q" using assms(2) be_value_all_zero by blast
  ultimately show ?thesis by simp
qed

text \<open>The digits, least significant first, until the quotient is zero.\<close>

function be_digits :: "bytes \<Rightarrow> string" where
  "be_digits numericBinary =
     (case div10_loop numericBinary 0 of (numericBinary, remainder) \<Rightarrow>
        let digit = char_of (48 + remainder) in
        if list_all (\<lambda>b. b = 0) numericBinary then [digit] else digit # be_digits numericBinary)"
  by pat_completeness auto

termination be_digits
  by (relation "measure be_value") (auto simp: div10_loop_less)

declare be_digits.simps [simp del]

definition BigEndianBinaryToNumericStr :: "bytes \<Rightarrow> int \<Rightarrow> bool \<Rightarrow> string" where
  "BigEndianBinaryToNumericStr numericBinary scale isNegative =
     (let numericStr = rev (be_digits numericBinary);
          totalDigits = length numericStr
      in (if isNegative then ''-'' else '''') @
         (if scale \<ge> int totalDigits
          then ''0.'' @ replicate (nat scale - totalDigits) CHR ''0'' @ numericStr
          else (let integralLen = totalDigits - nat scale
                in take integralLen numericStr @ ''.'' @ drop integralLen numericStr)))"

definition SignExtendNumericBinary :: "bytes \<Rightarrow> bytes result" where
  "SignExtendNumericBinary numericBinary =
     (let binaryLen = length numericBinary in
      if binaryLen = 16 then Inr numericBinary
      else if binaryLen = 0 \<or> binaryLen > 16 then Inl Trap
      else Inr (replicate (16 - binaryLen) (if hd numericBinary AND 0x80 \<noteq> 0 then 0xFF else 0) @ numericBinary))"

text \<open>\<open>num_in\<close> is PostgreSQL's \<^verbatim>\<open>numeric_in\<close>.\<close>

definition PGNumericIcebergBinaryDeserialize ::
  "numeric_settings \<Rightarrow> (string \<Rightarrow> int \<Rightarrow> string result) \<Rightarrow> bytes \<Rightarrow> int \<Rightarrow> string result" where
  "PGNumericIcebergBinaryDeserialize cfg num_in numericBinary typmod =
     (case GetDuckdbAdjustedPrecisionAndScaleFromNumericTypeMod cfg typmod of (precision, scale) \<Rightarrow>
        if numericBinary = [] then Inl Trap
        else
          let isNegative = (hd numericBinary AND 0x80 \<noteq> 0)
          in result_bind (SignExtendNumericBinary numericBinary) (\<lambda>adjusted.
             let adjusted = (if isNegative then TwosComplement adjusted else adjusted);
                 numericStr = BigEndianBinaryToNumericStr adjusted scale isNegative
             in num_in numericStr typmod))"


section \<open>Values of decimal text and of byte strings\<close>

definition dec_value :: "string \<Rightarrow> nat" where
  "dec_value s = foldl (\<lambda>v c. 10 * v + digit_value c) 0 s"

definition be_sint :: "bytes \<Rightarrow> int" where
  "be_sint bs = (if bs \<noteq> [] \<and> 128 \<le> unat (hd bs) then int (be_value bs) - 256 ^ length bs else int (be_value bs))"

lemma digit_value_less: "isdigit c \<Longrightarrow> digit_value c < 10"
  by (auto simp: isdigit_def digit_value_def)

lemma digit_value_inject: "isdigit c \<Longrightarrow> isdigit d \<Longrightarrow> digit_value c = digit_value d \<longleftrightarrow> c = d"
proof -
  assume "isdigit c" "isdigit d"
  moreover have "(of_char CHR ''0'' :: nat) = 48" by simp
  ultimately have "digit_value c = digit_value d \<Longrightarrow> (of_char c :: nat) = of_char d"
    unfolding digit_value_def isdigit_def by linarith
  then show ?thesis by auto
qed

lemma dec_value_simps [simp]: "dec_value [] = 0" "dec_value (s @ [c]) = 10 * dec_value s + digit_value c"
  by (simp_all add: dec_value_def)

lemma dec_value_append: "dec_value (s @ t) = dec_value s * 10 ^ length t + dec_value t"
  by (induction t rule: rev_induct) (simp_all flip: append_assoc add: algebra_simps)

lemma dec_value_Cons: "dec_value (c # s) = digit_value c * 10 ^ length s + dec_value s"
  using dec_value_append [of "[c]" s] by (simp add: dec_value_def)

lemma dec_value_bound: "list_all isdigit s \<Longrightarrow> dec_value s < 10 ^ length s"
proof (induction s rule: rev_induct)
  case (snoc c s)
  then have "dec_value s < 10 ^ length s" "digit_value c < 10" by (simp_all add: digit_value_less)
  then have "10 * dec_value s + digit_value c < 10 * (dec_value s + 1)" by simp
  also have "\<dots> \<le> 10 * 10 ^ length s" using \<open>dec_value s < 10 ^ length s\<close> by (intro mult_left_mono) simp_all
  finally show ?case by simp
qed simp

lemma dec_value_inject:
  "length s = length t \<Longrightarrow> list_all isdigit s \<Longrightarrow> list_all isdigit t \<Longrightarrow> dec_value s = dec_value t \<Longrightarrow> s = t"
proof (induction s t rule: rev_induct2)
  case (4 c s d t)
  then have d: "digit_value c < 10" "digit_value d < 10" by (simp_all add: digit_value_less)
  have "10 * dec_value s + digit_value c = 10 * dec_value t + digit_value d" using 4 by simp
  then have "dec_value s = dec_value t" "digit_value c = digit_value d" using d by presburger+
  then show ?case using 4 digit_value_inject by simp
qed simp_all

lemma dec_value_zeros [simp]: "dec_value (replicate n CHR ''0'' @ s) = dec_value s"
  by (induction n) (simp_all add: dec_value_Cons digit_value_def)

lemma isdigit_zero [simp]: "isdigit CHR ''0''"
  by (simp add: isdigit_def)

section \<open>The loops compute\<close>

lemma unat_of_nat_byte: "unat (of_nat n :: byte) = n mod 256"
  by (simp add: unat_of_nat)

lemma uint_range_byte: "0 \<le> uint b \<and> uint b < 256" for b :: byte
  using uint_bounded [of b] by simp

lemma unat_not_byte: "unat (NOT b :: byte) = 255 - unat b"
proof -
  have "uint (NOT b) = (- uint b - 1) mod 256"
    by (simp add: unsigned_not_eq take_bit_eq_mod not_eq_complement [of "uint b"])
  also have "\<dots> = (- uint b - 1 + 256) mod 256" by (simp only: mod_add_self2)
  also have "- uint b - 1 + 256 = 255 - uint b" by linarith
  also have "(255 - uint b) mod 256 = 255 - uint b"
    using uint_range_byte [of b] by (intro mod_pos_pos_trivial) linarith+
  finally show ?thesis using uint_range_byte [of b] unfolding uint_nat by linarith
qed

lemma byte_carry:
  "length ds = n \<Longrightarrow>
     be_value (of_nat val # ds) + val div 256 * 256 ^ Suc n = val * 256 ^ n + be_value ds"
proof -
  assume n: "length ds = n"
  have "val * 256 ^ n = (val mod 256) * 256 ^ n + (val div 256 * 256) * 256 ^ n"
    by (metis add_mult_distrib mod_div_mult_eq)
  moreover have "(val div 256 * 256) * 256 ^ n = val div 256 * 256 ^ Suc n" by (simp only: mult.assoc power_Suc)
  ultimately show ?thesis unfolding be_value.simps n unat_of_nat_byte by linarith
qed

lemma mul10_loop_value:
  "mul10_loop bs = (bs', c) \<Longrightarrow>
     length bs' = length bs \<and> be_value bs' + c * 256 ^ length bs = 10 * be_value bs"
proof (induction bs arbitrary: bs' c)
  case (Cons b bs)
  obtain ds d where m: "mul10_loop bs = (ds, d)" by fastforce
  define val where "val = unat b * 10 + d"
  have r: "bs' = of_nat val # ds" "c = val div 256"
    using Cons.prems m unfolding val_def by (simp_all add: Let_def)
  have IH: "length ds = length bs" "be_value ds + d * 256 ^ length bs = 10 * be_value bs"
    using Cons.IH [OF m] by simp_all
  have "val * 256 ^ length bs = 10 * (unat b * 256 ^ length bs) + d * 256 ^ length bs"
    by (simp add: val_def algebra_simps)
  then show ?case using byte_carry [OF IH(1), of val] IH unfolding r by simp
qed simp

lemma add_loop_value:
  "add_loop bs c0 = (bs', c) \<Longrightarrow>
     length bs' = length bs \<and> be_value bs' + c * 256 ^ length bs = be_value bs + c0"
proof (induction bs arbitrary: bs' c)
  case (Cons b bs)
  obtain ds d where m: "add_loop bs c0 = (ds, d)" by fastforce
  define val where "val = unat b + d"
  have IH: "length ds = length bs" "be_value ds + d * 256 ^ length bs = be_value bs + c0"
    using Cons.IH [OF m] by simp_all
  show ?case
  proof (cases "d = 0")
    case True
    then have "bs' = b # ds" "c = 0" using Cons.prems m by simp_all
    then show ?thesis using IH True by simp
  next
    case False
    then have r: "bs' = of_nat val # ds" "c = val div 256"
      using Cons.prems m unfolding val_def by (simp_all add: Let_def)
    have "val * 256 ^ length bs = unat b * 256 ^ length bs + d * 256 ^ length bs"
      by (simp add: val_def algebra_simps)
    then show ?thesis using byte_carry [OF IH(1), of val] IH unfolding r by simp
  qed
qed simp

lemma numeric_str_loop_value:
  assumes "list_all isdigit ps" "be_value acc * 10 ^ length ps + dec_value ps < 256 ^ length acc"
  shows "\<exists>r. numeric_str_loop ps acc = Inr r \<and> length r = length acc \<and>
    be_value r = be_value acc * 10 ^ length ps + dec_value ps"
  using assms
proof (induction ps arbitrary: acc)
  case (Cons p ps)
  obtain m c where m: "mul10_loop acc = (m, c)" by fastforce
  obtain a d where a: "add_loop m (digit_value p) = (a, d)" by fastforce
  note M = mul10_loop_value [OF m] and A = add_loop_value [OF a]
  define P where "P = (10::nat) ^ length ps"
  have P: "0 < P" by (simp add: P_def)
  let ?v = "10 * be_value acc + digit_value p"
  have total: "be_value acc * 10 ^ length (p # ps) + dec_value (p # ps) = ?v * P + dec_value ps"
    by (simp add: dec_value_Cons P_def algebra_simps)
  have "?v * 1 \<le> ?v * P" using P by (intro mult_left_mono) simp_all
  also have "\<dots> < 256 ^ length acc" using Cons.prems(2) unfolding total by (rule add_lessD1)
  finally have small: "?v < 256 ^ length acc" by simp
  have "c = 0"
  proof (rule ccontr)
    assume "c \<noteq> 0"
    then obtain k where "c = Suc k" using not0_implies_Suc by blast
    then show False using M small by simp
  qed
  then have m0: "be_value m = 10 * be_value acc" "length m = length acc" using M by simp_all
  have "d = 0"
  proof (rule ccontr)
    assume "d \<noteq> 0"
    then obtain k where "d = Suc k" using not0_implies_Suc by blast
    then show False using A small m0 by simp
  qed
  then have a0: "be_value a = ?v" "length a = length acc" using A m0 by simp_all
  have "be_value a * 10 ^ length ps + dec_value ps < 256 ^ length a"
    using Cons.prems(2) total a0 by (simp add: P_def)
  from Cons.IH [OF _ this] Cons.prems(1) show ?case
    using m a \<open>c = 0\<close> \<open>d = 0\<close> a0 total by (simp add: P_def)
qed simp


lemma invert_add_loop_value:
  "invert_add_loop bs = (bs', c) \<Longrightarrow>
     length bs' = length bs \<and> be_value bs' + c * 256 ^ length bs + be_value bs = 256 ^ length bs"
proof (induction bs arbitrary: bs' c)
  case (Cons b bs)
  obtain ds d where m: "invert_add_loop bs = (ds, d)" by fastforce
  have IH: "length ds = length bs" "be_value ds + d * 256 ^ length bs + be_value bs = 256 ^ length bs"
    using Cons.IH [OF m] by simp_all
  define val where "val = unat (NOT b) + d"
  have "bs' = of_nat val # ds \<and> c = val div 256"
  proof (cases "d = 0")
    case True
    then have "val div 256 = 0" "of_nat val = NOT b" by (simp_all add: val_def)
    then show ?thesis using Cons.prems m True by simp
  next
    case False
    then show ?thesis using Cons.prems m by (simp add: Let_def val_def)
  qed
  then have r: "bs' = of_nat val # ds" "c = val div 256" by simp_all
  have "val + unat b = 255 + d"
    using unat_byte_less [of b] by (simp add: val_def unat_not_byte del: unat_byte_less)
  then have "val * 256 ^ length bs + unat b * 256 ^ length bs = 255 * 256 ^ length bs + d * 256 ^ length bs"
    by (metis add_mult_distrib)
  then show ?case using byte_carry [OF IH(1), of val] IH unfolding r by simp
qed simp

lemma TwosComplement_value:
  "length (TwosComplement bs) = length bs"
  "be_value bs \<noteq> 0 \<Longrightarrow> be_value (TwosComplement bs) = 256 ^ length bs - be_value bs"
  "be_value bs = 0 \<Longrightarrow> be_value (TwosComplement bs) = 0"
proof -
  obtain bs' c where i: "invert_add_loop bs = (bs', c)" by fastforce
  note v = invert_add_loop_value [OF i]
  show "length (TwosComplement bs) = length bs" using i v by (simp add: TwosComplement_def)
  have c: "c = 0 \<or> c = 1"
  proof (rule ccontr)
    assume "\<not> (c = 0 \<or> c = 1)"
    then have "2 * 256 ^ length bs \<le> c * 256 ^ length bs" by (intro mult_right_mono) simp_all
    moreover have "0 < (256 :: nat) ^ length bs" by simp
    ultimately show False using v by linarith
  qed
  have lt: "be_value bs' < 256 ^ length bs" using be_value_bound [of bs'] v by simp
  show "be_value (TwosComplement bs) = 256 ^ length bs - be_value bs" if "be_value bs \<noteq> 0"
    using i v c that by (auto simp: TwosComplement_def)
  show "be_value (TwosComplement bs) = 0" if "be_value bs = 0"
    using i v c that lt by (auto simp: TwosComplement_def)
qed

lemma top_bit_byte: "(b AND 0x80 \<noteq> 0) \<longleftrightarrow> 128 \<le> unat b" for b :: byte
proof -
  have "b AND 0x80 = 0 \<longleftrightarrow> \<not> bit b 7"
    using and_exp_eq_0_iff_not_bit [of b 7] by simp
  moreover have "bit b 7 \<longleftrightarrow> odd (unat b div 2 ^ 7)"
    using bit_unat [of b 7] by (simp add: bit_iff_odd)
  moreover have "odd (unat b div 128) \<longleftrightarrow> 128 \<le> unat b"
  proof -
    have "unat b div 128 < 2" using unat_byte_less [of b] by (simp del: unat_byte_less)
    then show ?thesis
      by (metis One_nat_def div_greater_zero_iff even_zero less_2_cases odd_one zero_less_numeral neq0_conv)
  qed
  ultimately show ?thesis by simp
qed

section \<open>Stripping and restoring the sign bytes\<close>

lemma be_value_replicate_FF: "be_value (replicate n 0xFF) + 1 = 256 ^ n"
  by (induction n) simp_all

lemma be_sint_pad_0:
  "bs \<noteq> [] \<Longrightarrow> unat (hd bs) < 128 \<Longrightarrow> be_sint (replicate n 0 @ bs) = be_sint bs"
  by (cases n) (simp_all add: be_sint_def be_value_append)

lemma be_sint_zero_Cons: "be_sint (0 # bs) = int (be_value bs)"
  by (simp add: be_sint_def)

lemma int_be_value_FF: "int (be_value (replicate n 0xFF @ bs)) = int (be_value bs) + 256 ^ (n + length bs) - 256 ^ length bs"
proof -
  have "be_value (replicate n 0xFF @ bs) + 256 ^ length bs = (be_value (replicate n 0xFF) + 1) * 256 ^ length bs + be_value bs"
    by (simp add: be_value_append)
  then have "be_value (replicate n 0xFF @ bs) + 256 ^ length bs = 256 ^ (n + length bs) + be_value bs"
    by (simp only: be_value_replicate_FF power_add)
  then have "int (be_value (replicate n 0xFF @ bs) + 256 ^ length bs) = int (256 ^ (n + length bs) + be_value bs)"
    by (rule arg_cong)
  then show ?thesis by simp
qed

lemma be_sint_pad_FF:
  "bs \<noteq> [] \<Longrightarrow> 128 \<le> unat (hd bs) \<Longrightarrow> be_sint (replicate n 0xFF @ bs) = be_sint bs"
  by (cases n) (simp_all add: be_sint_def int_be_value_FF [of "Suc _", simplified])

lemma be_sint_FF_Cons: "be_sint (0xFF # bs) = int (be_value bs) - 256 ^ length bs"
  by (simp add: be_sint_def)

lemma be_sint_range:
  "bs \<noteq> [] \<Longrightarrow> - (128 * 256 ^ (length bs - 1)) \<le> be_sint bs \<and> be_sint bs < 128 * 256 ^ (length bs - 1)"
proof -
  assume "bs \<noteq> []"
  then obtain b ds where bs: "bs = b # ds" by (cases bs) auto
  have lt: "int (be_value ds) < 256 ^ length ds" using be_value_bound [of ds] by (metis of_nat_less_iff of_nat_numeral of_nat_power)
  define P where "P = (256::int) ^ length ds"
  define u where "u = int (unat b)"
  have v: "int (be_value bs) = u * P + int (be_value ds)" by (simp add: bs P_def u_def)
  have u: "0 \<le> u" "u < 256" "128 \<le> unat b \<longleftrightarrow> 128 \<le> u"
    unfolding u_def using unat_byte_less [of b] by linarith+
  have P: "0 < P" by (simp add: P_def)
  have L: "256 ^ (length bs - 1) = P" by (simp add: bs P_def)
  show ?thesis
  proof (cases "128 \<le> u")
    case True
    then have "128 * P \<le> u * P" "u * P \<le> 255 * P" using u P by (intro mult_right_mono; simp)+
    moreover have "be_sint bs = int (be_value bs) - 256 * P" using True u by (simp add: be_sint_def bs P_def)
    ultimately show ?thesis unfolding L using lt v P unfolding P_def [symmetric] by linarith
  next
    case False
    then have "u * P \<le> 127 * P" using P by (intro mult_right_mono) simp_all
    moreover have "0 \<le> u * P" using u P by simp
    moreover have "be_sint bs = int (be_value bs)" using False u by (simp add: be_sint_def bs)
    ultimately show ?thesis unfolding L using lt v P unfolding P_def [symmetric] by linarith
  qed
qed

lemma takeWhile_eq_replicate: "takeWhile (\<lambda>b. b = x) xs = replicate (length (takeWhile (\<lambda>b. b = x) xs)) x"
  by (induction xs) auto

lemma skipped_split:
  assumes "length bs = 16" "k = length (takeWhile (\<lambda>b. b = x) (take 15 bs))"
  shows "k \<le> 15" "bs = replicate k x @ drop k bs" "drop k bs \<noteq> []" "hd (drop k bs) = bs ! k"
    "k < 15 \<Longrightarrow> bs ! k \<noteq> x"
proof -
  show k: "k \<le> 15" using assms(2) length_takeWhile_le [of "\<lambda>b. b = x" "take 15 bs"] by simp
  have "replicate k x = take k (take 15 bs)"
    using takeWhile_eq_replicate [of x "take 15 bs"] takeWhile_eq_take [of "\<lambda>b. b = x" "take 15 bs"] assms(2)
    by simp
  also have "\<dots> = take k bs" using k by (simp add: min_def)
  finally show "bs = replicate k x @ drop k bs" by simp
  show ne: "drop k bs \<noteq> []" using k assms(1) by simp
  show "hd (drop k bs) = bs ! k" using k assms(1) by (simp add: hd_drop_conv_nth)
  show "bs ! k \<noteq> x" if "k < 15"
    using nth_length_takeWhile [of "\<lambda>b. b = x" "take 15 bs"] that assms by simp
qed

lemma StripLeadingBytes_cases:
  "k = length (takeWhile (\<lambda>b. b = (0::byte)) (take 15 bs)) \<Longrightarrow>
     StripLeadingBytes bs False = (if k > 0 \<and> 128 \<le> unat (bs ! k) then 0 # drop k bs else drop k bs)"
  "k = length (takeWhile (\<lambda>b. b = (0xFF::byte)) (take 15 bs)) \<Longrightarrow>
     StripLeadingBytes bs True = (if k > 0 \<and> unat (bs ! k) < 128 then 0xFF # drop k bs else drop k bs)"
proof -
  assume "k = length (takeWhile (\<lambda>b. b = (0::byte)) (take 15 bs))"
  then have k: "k = length (takeWhile (\<lambda>b. b = (if False then 0xFF else 0)) (take (16 - 1) bs))"
    by simp
  show "StripLeadingBytes bs False = (if k > 0 \<and> 128 \<le> unat (bs ! k) then 0 # drop k bs else drop k bs)"
    unfolding StripLeadingBytes_def Let_def k [symmetric] by (auto simp: top_bit_byte)
next
  assume "k = length (takeWhile (\<lambda>b. b = (0xFF::byte)) (take 15 bs))"
  then have k: "k = length (takeWhile (\<lambda>b. b = (if True then 0xFF else 0)) (take (16 - 1) bs))"
    by simp
  show "StripLeadingBytes bs True = (if k > 0 \<and> unat (bs ! k) < 128 then 0xFF # drop k bs else drop k bs)"
    unfolding StripLeadingBytes_def Let_def k [symmetric] using top_bit_byte [of "bs ! k"] by auto
qed

lemma be_value_top: "length bs = 16 \<Longrightarrow> be_value bs = unat (bs ! 0) * 256 ^ 15 + be_value (tl bs) \<and> be_value (tl bs) < 256 ^ 15"
  using be_value_bound [of "tl bs"] by (cases bs) simp_all

lemma top_byte_low:
  assumes "length bs = 16" "be_value bs < 2 ^ 127"
  shows "unat (bs ! 0) < 128"
proof (rule ccontr)
  assume "\<not> unat (bs ! 0) < 128"
  then have "128 * 256 ^ 15 \<le> unat (bs ! 0) * 256 ^ 15" by (intro mult_right_mono) simp_all
  then show False using be_value_top [OF assms(1)] assms(2) by simp
qed

lemma top_byte_high:
  assumes "length bs = 16" "256 ^ 16 - 2 ^ 127 \<le> int (be_value bs)"
  shows "128 \<le> unat (bs ! 0)"
proof (rule ccontr)
  assume "\<not> 128 \<le> unat (bs ! 0)"
  then have "unat (bs ! 0) * 256 ^ 15 \<le> 127 * 256 ^ 15" by (intro mult_right_mono) simp_all
  then have "be_value bs < 128 * 256 ^ 15" using be_value_top [OF assms(1)] by simp
  then show False using assms(2) by simp
qed

lemma StripLeadingBytes_pos:
  assumes "length bs = 16" "be_value bs < 2 ^ 127"
  shows "be_sint (StripLeadingBytes bs False) = int (be_value bs)" "StripLeadingBytes bs False \<noteq> []"
    "length (StripLeadingBytes bs False) \<le> 16"
proof -
  define k where "k = length (takeWhile (\<lambda>b. b = (0::byte)) (take 15 bs))"
  note sp = skipped_split [OF assms(1) k_def]
  have v: "be_value bs = be_value (drop k bs)"
    using arg_cong [OF sp(2), of be_value] by (simp add: be_value_append)
  note str = StripLeadingBytes_cases(1) [OF k_def]
  have low: "unat (bs ! k) < 128" if "k = 0"
    using that top_byte_low [OF assms] by simp
  show "be_sint (StripLeadingBytes bs False) = int (be_value bs)"
    using low sp(3,4) v by (auto simp: str be_sint_zero_Cons be_sint_def)
  show "StripLeadingBytes bs False \<noteq> []" using sp(3) by (simp add: str)
  show "length (StripLeadingBytes bs False) \<le> 16" using assms(1) by (auto simp: str)
qed

lemma StripLeadingBytes_neg:
  assumes "length bs = 16" "256 ^ 16 - 2 ^ 127 \<le> int (be_value bs) \<or> be_value bs = 0"
  shows "be_sint (StripLeadingBytes bs True) = be_sint bs" "StripLeadingBytes bs True \<noteq> []"
    "length (StripLeadingBytes bs True) \<le> 16"
proof -
  define k where "k = length (takeWhile (\<lambda>b. b = (0xFF::byte)) (take 15 bs))"
  note sp = skipped_split [OF assms(1) k_def]
  note str = StripLeadingBytes_cases(2) [OF k_def]
  show "be_sint (StripLeadingBytes bs True) = be_sint bs"
  proof (cases "k = 0")
    case True
    then show ?thesis by (simp add: str)
  next
    case False
    then have hd: "hd bs = 0xFF" using sp(2) by (metis hd_append2 hd_replicate replicate_empty)
    have ne: "bs \<noteq> []" using assms(1) by auto
    have b: "be_sint bs = int (be_value bs) - 256 ^ 16" using hd ne assms(1) by (simp add: be_sint_def)
    show ?thesis
    proof (cases "unat (bs ! k) < 128")
      case True
      have "be_sint (replicate k 0xFF @ drop k bs) = be_sint (0xFF # drop k bs)"
        using False int_be_value_FF [of k "drop k bs"] be_sint_FF_Cons [of "drop k bs"]
        by (cases k) (simp_all add: be_sint_def)
      then show ?thesis using True False sp(2) by (simp add: str)
    next
      case False2: False
      then show ?thesis using False be_sint_pad_FF [of "drop k bs" k] sp(2-4) by (simp add: str)
    qed
  qed
  show "StripLeadingBytes bs True \<noteq> []" using sp(3) by (simp add: str)
  show "length (StripLeadingBytes bs True) \<le> 16" using assms(1) by (auto simp: str)
qed

section \<open>Serialization\<close>

definition signed_value :: "bool \<Rightarrow> nat \<Rightarrow> int" where
  "signed_value isNegative n = (if isNegative then - int n else int n)"

lemma serialize_digits:
  assumes "list_all isdigit w" "dec_value w < 2 ^ 127"
  obtains bs where "NumericStrToBigEndianBinary w = Inr bs" "length bs = 16" "be_value bs = dec_value w"
proof -
  have "be_value (replicate 16 0) * 10 ^ length w + dec_value w < 256 ^ length (replicate 16 (0::byte))"
    using assms(2) by simp
  from numeric_str_loop_value [OF assms(1) this] show ?thesis
    using that by (auto simp: NumericStrToBigEndianBinary_def)
qed

lemma TwosComplement_sint:
  assumes "length bs = 16" "be_value bs < 2 ^ 127"
  shows "be_sint (TwosComplement bs) = - int (be_value bs)"
    "be_value (TwosComplement bs) = 0 \<or> 256 ^ 16 - 2 ^ 127 \<le> int (be_value (TwosComplement bs))"
proof -
  let ?t = "TwosComplement bs"
  have len: "length ?t = 16" using TwosComplement_value(1) assms(1) by simp
  show "be_value ?t = 0 \<or> 256 ^ 16 - 2 ^ 127 \<le> int (be_value ?t)"
    using TwosComplement_value(2,3) [of bs] assms by (cases "be_value bs = 0") simp_all
  show "be_sint ?t = - int (be_value bs)"
  proof (cases "be_value bs = 0")
    case True
    then have "be_value ?t = 0" using TwosComplement_value(3) by simp
    moreover from this have "unat (hd ?t) = 0" using len by (cases ?t) auto
    ultimately show ?thesis using True by (simp add: be_sint_def)
  next
    case False
    then have v: "be_value ?t = 256 ^ 16 - be_value bs" using TwosComplement_value(2) assms(1) by simp
    have "\<not> unat (hd ?t) < 128"
    proof
      assume "unat (hd ?t) < 128"
      then have "unat (hd ?t) * 256 ^ 15 \<le> 127 * 256 ^ 15" by (intro mult_right_mono) simp_all
      moreover have "be_value ?t = unat (hd ?t) * 256 ^ 15 + be_value (tl ?t)" "length (tl ?t) = 15"
        using len by (cases ?t; simp)+
      ultimately have "be_value ?t < 128 * 256 ^ 15" using be_value_bound [of "tl ?t"] by simp
      then show False using v assms(2) by simp
    qed
    then show ?thesis using v len assms(2) by (auto simp: be_sint_def of_nat_diff)
  qed
qed

section \<open>Minimal encodings\<close>

definition minimal_bytes :: "bytes \<Rightarrow> bool" where
  "minimal_bytes bs = (case bs of [] \<Rightarrow> False | [b] \<Rightarrow> True
     | b # c # _ \<Rightarrow> \<not> (b = 0 \<and> unat c < 128) \<and> \<not> (b = 0xFF \<and> 128 \<le> unat c))"

lemma be_value_int: "int (be_value bs) < 256 ^ length bs"
  using be_value_bound [of bs] by (metis of_nat_less_iff of_nat_numeral of_nat_power)

lemma long_value_large:
  assumes "\<not> (b = 0 \<and> unat c < 128)" "\<not> (b = 0xFF \<and> 128 \<le> unat c)"
  shows "be_sint (b # c # bs) < - (128 * 256 ^ length bs) \<or> 128 * 256 ^ length bs \<le> be_sint (b # c # bs)"
proof -
  define P where "P = (256::int) ^ length bs"
  define u v r where "u = int (unat b)" and "v = int (unat c)" and "r = int (be_value bs)"
  have P: "0 < P" and r: "0 \<le> r" "r < P" using be_value_int [of bs] by (simp_all add: P_def r_def)
  have uv: "0 \<le> u" "u < 256" "0 \<le> v" "v < 256"
    unfolding u_def v_def using unat_byte_less [of b] unat_byte_less [of c] by linarith+
  have "b = 0 \<longleftrightarrow> unat b = 0" "b = 0xFF \<longleftrightarrow> unat b = 255" by (simp_all add: word_unat_eq_iff)
  then have ub: "b = 0 \<longleftrightarrow> u = 0" "b = 0xFF \<longleftrightarrow> u = 255" "128 \<le> unat b \<longleftrightarrow> 128 \<le> u" "unat c < 128 \<longleftrightarrow> v < 128"
    unfolding u_def v_def by linarith+
  have V: "be_sint (b # c # bs) = (if 128 \<le> u then u - 256 else u) * (256 * P) + v * P + r"
    using ub by (simp add: be_sint_def P_def r_def u_def v_def algebra_simps)
  have vP: "0 \<le> v * P" "v * P \<le> 255 * P" using uv P by simp_all
  consider "128 \<le> u" "u \<le> 254" | "u = 255" "v < 128" | "0 < u" "u < 128" | "u = 0" "128 \<le> v"
    using assms uv ub by linarith
  then show ?thesis
  proof cases
    case 1
    then have "(u - 256) * (256 * P) \<le> (- 2) * (256 * P)" using P by (intro mult_right_mono) simp_all
    moreover have "be_sint (b # c # bs) = (u - 256) * (256 * P) + v * P + r" using V 1 by simp
    ultimately show ?thesis using vP r P unfolding P_def [symmetric] by linarith
  next
    case 2
    then have "v * P \<le> 127 * P" using P by (intro mult_right_mono) simp_all
    moreover have "be_sint (b # c # bs) = - (256 * P) + v * P + r" using V 2 by simp
    ultimately show ?thesis using r P unfolding P_def [symmetric] by linarith
  next
    case 3
    then have "1 * (256 * P) \<le> u * (256 * P)" using P by (intro mult_right_mono) simp_all
    moreover have "be_sint (b # c # bs) = u * (256 * P) + v * P + r" using V 3 by simp
    ultimately show ?thesis using vP r P unfolding P_def [symmetric] by linarith
  next
    case 4
    then have "128 * P \<le> v * P" using P by (intro mult_right_mono) simp_all
    moreover have "be_sint (b # c # bs) = v * P + r" using V 4 by simp
    ultimately show ?thesis using r P unfolding P_def [symmetric] by linarith
  qed
qed

lemma minimal_bytes_shortest:
  assumes "minimal_bytes bs" "ds \<noteq> []" "be_sint ds = be_sint bs"
  shows "length bs \<le> length ds"
proof (rule ccontr)
  assume short: "\<not> length bs \<le> length ds"
  then obtain b c es where bs: "bs = b # c # es"
    using assms(1,2) by (cases bs rule: remdups_adj.cases) (auto simp: Suc_le_eq)
  then have "length ds - 1 \<le> length es" using short by simp
  then have "(256::int) ^ (length ds - 1) \<le> 256 ^ length es" by (rule power_increasing) simp
  moreover have "be_sint (b # c # es) < - (128 * 256 ^ length es) \<or> 128 * 256 ^ length es \<le> be_sint (b # c # es)"
    using assms(1) by (intro long_value_large) (auto simp: minimal_bytes_def bs)
  ultimately show False
    using be_sint_range [OF assms(2)] unfolding assms(3) bs by linarith
qed

lemma minimal_drop:
  assumes "length bs = 16" "k \<le> 15" "k < 15 \<longrightarrow> bs ! k \<noteq> 0 \<and> bs ! k \<noteq> 0xFF"
  shows "minimal_bytes (drop k bs)"
proof -
  have "drop k bs = bs ! k # drop (Suc k) bs" using assms(1,2) by (intro Cons_nth_drop_Suc [symmetric]) simp
  then show ?thesis using assms by (cases "drop (Suc k) bs") (auto simp: minimal_bytes_def)
qed

lemma minimal_Strip_pos:
  assumes "length bs = 16" "be_value bs < 2 ^ 127"
  shows "minimal_bytes (StripLeadingBytes bs False)"
proof -
  define k where "k = length (takeWhile (\<lambda>b. b = (0::byte)) (take 15 bs))"
  note sp = skipped_split [OF assms(1) k_def]
  note str = StripLeadingBytes_cases(1) [OF k_def]
  obtain ds where d: "drop k bs = bs ! k # ds" using sp(3,4) by (metis list.collapse)
  show ?thesis
  proof (cases "128 \<le> unat (bs ! k)")
    case True
    then have "0 < k" using top_byte_low [OF assms] by (cases k) simp_all
    then show ?thesis using True by (simp add: str d minimal_bytes_def)
  next
    case False
    moreover from this have "bs ! k \<noteq> 0xFF" by auto
    ultimately show ?thesis using minimal_drop [OF assms(1) sp(1)] sp(5) by (simp add: str)
  qed
qed

lemma minimal_Strip_neg:
  assumes "length bs = 16" "256 ^ 16 - 2 ^ 127 \<le> int (be_value bs)"
  shows "minimal_bytes (StripLeadingBytes bs True)"
proof -
  define k where "k = length (takeWhile (\<lambda>b. b = (0xFF::byte)) (take 15 bs))"
  note sp = skipped_split [OF assms(1) k_def]
  note str = StripLeadingBytes_cases(2) [OF k_def]
  obtain ds where d: "drop k bs = bs ! k # ds" using sp(3,4) by (metis list.collapse)
  show ?thesis
  proof (cases "unat (bs ! k) < 128")
    case True
    then have "0 < k" using top_byte_high [OF assms] by (cases k) simp_all
    then show ?thesis using True by (simp add: str d minimal_bytes_def)
  next
    case False
    moreover from this have "bs ! k \<noteq> 0" by auto
    ultimately show ?thesis using minimal_drop [OF assms(1) sp(1)] sp(5) by (simp add: str)
  qed
qed

text \<open>What the serialization computes: the two's complement of the unscaled value.\<close>

lemma serialize_value:
  assumes "\<not> numeric_is_special s" "s \<noteq> []" "list_all isdigit (NormalizeNumericStr s scale)"
    "dec_value (NormalizeNumericStr s scale) < 2 ^ 127"
  obtains bs where "PGNumericIcebergBinarySerialize s scale = Inr (Some bs)" "bs \<noteq> []" "length bs \<le> 16"
    "be_sint bs = signed_value (hd s = CHR ''-'') (dec_value (NormalizeNumericStr s scale))"
    "hd s = CHR ''-'' \<longrightarrow> dec_value (NormalizeNumericStr s scale) \<noteq> 0 \<Longrightarrow> minimal_bytes bs"
proof -
  obtain b where b: "NumericStrToBigEndianBinary (NormalizeNumericStr s scale) = Inr b" "length b = 16"
    "be_value b = dec_value (NormalizeNumericStr s scale)"
    using serialize_digits [OF assms(3,4)] by blast
  then have small: "be_value b < 2 ^ 127" using assms(4) by simp
  show ?thesis
  proof (cases "hd s = CHR ''-''")
    case True
    have t: "length (TwosComplement b) = 16" using b(2) TwosComplement_value(1) by simp
    have r: "256 ^ 16 - 2 ^ 127 \<le> int (be_value (TwosComplement b)) \<or> be_value (TwosComplement b) = 0"
      using TwosComplement_sint(2) [OF b(2) small] by auto
    have m: "minimal_bytes (StripLeadingBytes (TwosComplement b) True)" if "dec_value (NormalizeNumericStr s scale) \<noteq> 0"
      using minimal_Strip_neg [OF t] TwosComplement_value(2) [of b] r b small that by auto
    show ?thesis
      using that [of "StripLeadingBytes (TwosComplement b) True"] assms(1,2) b True m
        StripLeadingBytes_neg [OF t r] TwosComplement_sint(1) [OF b(2) small]
      by (simp add: PGNumericIcebergBinarySerialize_def Let_def signed_value_def)
  next
    case False
    show ?thesis
      using that [of "StripLeadingBytes b False"] assms(1,2) b False StripLeadingBytes_pos [OF b(2) small]
        minimal_Strip_pos [OF b(2) small]
      by (simp add: PGNumericIcebergBinarySerialize_def Let_def signed_value_def)
  qed
qed

section \<open>Deserialization\<close>

lemma be_sint_SignExtend:
  assumes "bs \<noteq> []" "length bs \<le> 16"
  obtains e where "SignExtendNumericBinary bs = Inr e" "length e = 16" "be_sint e = be_sint bs"
    "128 \<le> unat (hd e) \<longleftrightarrow> 128 \<le> unat (hd bs)"
proof (cases "length bs = 16")
  case True
  then show ?thesis using that [of bs] by (simp add: SignExtendNumericBinary_def)
next
  case False
  define k where "k = 16 - length bs"
  have k: "0 < k" "k + length bs = 16" using assms False by (auto simp: k_def)
  show ?thesis
  proof (cases "128 \<le> unat (hd bs)")
    case True
    then show ?thesis
      using that [of "replicate k 0xFF @ bs"] be_sint_pad_FF [OF assms(1) True, of k] k assms
      by (simp add: SignExtendNumericBinary_def Let_def top_bit_byte [symmetric] k_def [symmetric] hd_append)
  next
    case False2: False
    then show ?thesis
      using that [of "replicate k 0 @ bs"] be_sint_pad_0 [OF assms(1), of k] k assms top_bit_byte [of "hd bs"]
      by (simp add: SignExtendNumericBinary_def Let_def k_def [symmetric] hd_append)
  qed
qed

lemma be_digits_rec:
  assumes "div10_loop bs 0 = (q, r)"
  shows "be_digits bs = char_of (48 + r) # (if be_value q = 0 then [] else be_digits q)"
  using assms by (subst be_digits.simps) (simp add: Let_def be_value_all_zero)

lemma char_of_digit: "r < 10 \<Longrightarrow> isdigit (char_of (48 + r :: nat)) \<and> digit_value (char_of (48 + r)) = r"
  by (simp add: isdigit_def digit_value_def of_char_of take_bit_eq_mod)

lemma char_of_48: "char_of (48 :: nat) = CHR ''0''"
  by code_simp

lemma be_digits_props:
  "list_all isdigit (be_digits bs) \<and> be_digits bs \<noteq> [] \<and> dec_value (rev (be_digits bs)) = be_value bs \<and>
   (be_value bs = 0 \<longrightarrow> be_digits bs = ''0'') \<and> (be_value bs \<noteq> 0 \<longrightarrow> 10 ^ (length (be_digits bs) - 1) \<le> be_value bs)"
proof (induction bs rule: be_digits.induct)
  case (1 bs)
  obtain q r where d: "div10_loop bs 0 = (q, r)" by fastforce
  note v = div10_loop_value [OF _ d]
  have r: "r < 10" "be_value bs = 10 * be_value q + r" using v by simp_all
  note c = char_of_digit [OF r(1)]
  show ?case
  proof (cases "be_value q = 0")
    case True
    then show ?thesis using be_digits_rec [OF d] c r by (auto simp: dec_value_def char_of_48)
  next
    case False
    have IH: "list_all isdigit (be_digits q)" "be_digits q \<noteq> []" "dec_value (rev (be_digits q)) = be_value q"
      "10 ^ (length (be_digits q) - 1) \<le> be_value q"
      using "1" [OF d [symmetric] refl] False by (simp_all add: be_value_all_zero)
    have "10 * 10 ^ (length (be_digits q) - 1) = (10::nat) ^ length (be_digits q)"
      using IH(2) by (cases "be_digits q") simp_all
    then show ?thesis using be_digits_rec [OF d] c r IH False by auto
  qed
qed

lemma pad_digits:
  assumes "list_all isdigit w" "w \<noteq> []" "dec_value w = be_value bs"
  shows "length (be_digits bs) \<le> length w"
    "w = replicate (length w - length (be_digits bs)) CHR ''0'' @ rev (be_digits bs)"
proof -
  note p = be_digits_props [of bs]
  show len: "length (be_digits bs) \<le> length w"
  proof (cases "be_value bs = 0")
    case True
    then show ?thesis using p assms(2) by (cases w) auto
  next
    case False
    then have "(10::nat) ^ (length (be_digits bs) - 1) \<le> dec_value w" using p assms(3) by simp
    also have "\<dots> < 10 ^ length w" by (rule dec_value_bound [OF assms(1)])
    finally have "length (be_digits bs) - 1 < length w" by (rule power_less_imp_less_exp [rotated]) simp
    then show ?thesis by simp
  qed
  show "w = replicate (length w - length (be_digits bs)) CHR ''0'' @ rev (be_digits bs)"
    by (rule dec_value_inject) (use len assms p in \<open>auto simp: list_all_iff\<close>)
qed

text \<open>The text of a numeric as \<^verbatim>\<open>numeric_out\<close> prints it: an optional sign, an integral part without
  superfluous leading zeros and as many fractional digits as the scale.\<close>

definition numeric_text :: "bool \<Rightarrow> string \<Rightarrow> string \<Rightarrow> string" where
  "numeric_text isNegative ip fp =
     (if isNegative then ''-'' else '''') @ ip @ (if fp = [] then '''' else ''.'' @ fp)"

definition canonical_text :: "bool \<Rightarrow> string \<Rightarrow> string \<Rightarrow> bool" where
  "canonical_text isNegative ip fp \<longleftrightarrow>
     ip \<noteq> [] \<and> list_all isdigit ip \<and> list_all isdigit fp \<and> (hd ip = CHR ''0'' \<longrightarrow> ip = ''0'') \<and>
     (isNegative \<longrightarrow> dec_value (ip @ fp) \<noteq> 0)"

lemma isdigit_not_dot: "isdigit c \<Longrightarrow> c \<noteq> CHR ''.'' \<and> c \<noteq> CHR ''-'' \<and> c \<noteq> CHR ''+'' \<and> c \<noteq> CHR ''N'' \<and> c \<noteq> CHR ''I''"
  by (auto simp: isdigit_def)

lemma takeWhile_digits: "list_all isdigit ip \<Longrightarrow> takeWhile (\<lambda>c. c \<noteq> CHR ''.'') ip = ip"
  by (induction ip) (auto dest: isdigit_not_dot)

lemma takeWhile_digits_dot: "list_all isdigit ip \<Longrightarrow> takeWhile (\<lambda>c. c \<noteq> CHR ''.'') (ip @ CHR ''.'' # fp) = ip"
  by (induction ip) (auto dest: isdigit_not_dot)

lemma Normalize_numeric_text:
  assumes "canonical_text isNegative ip fp"
  shows "NormalizeNumericStr (numeric_text isNegative ip fp) (int (length fp)) = ip @ fp"
proof -
  obtain c cs where ip: "ip = c # cs" "isdigit c" using assms by (cases ip) (auto simp: canonical_text_def)
  have d: "list_all isdigit ip" using assms by (simp add: canonical_text_def)
  have p: "(case numeric_text isNegative ip fp of c # cs \<Rightarrow>
       if c = CHR ''-'' \<or> c = CHR ''+'' then cs else numeric_text isNegative ip fp | [] \<Rightarrow> []) =
     ip @ (if fp = [] then '''' else ''.'' @ fp)"
    using isdigit_not_dot [OF ip(2)] by (simp add: numeric_text_def ip(1))
  show ?thesis
    unfolding NormalizeNumericStr_def p Let_def
    using takeWhile_digits [OF d] takeWhile_digits_dot [OF d] by simp
qed

lemma numeric_text_props:
  assumes "canonical_text isNegative ip fp"
  shows "\<not> numeric_is_special (numeric_text isNegative ip fp)" "numeric_text isNegative ip fp \<noteq> []"
    "hd (numeric_text isNegative ip fp) = CHR ''-'' \<longleftrightarrow> isNegative" "list_all isdigit (ip @ fp)"
proof -
  obtain c cs where ip: "ip = c # cs" "isdigit c" using assms by (cases ip) (auto simp: canonical_text_def)
  note n = isdigit_not_dot [OF ip(2)]
  show "\<not> numeric_is_special (numeric_text isNegative ip fp)"
    using n by (auto simp: numeric_is_special_def numeric_text_def ip(1))
  show "numeric_text isNegative ip fp \<noteq> []" "hd (numeric_text isNegative ip fp) = CHR ''-'' \<longleftrightarrow> isNegative"
    using n by (auto simp: numeric_text_def ip(1))
  show "list_all isdigit (ip @ fp)" using assms by (simp add: canonical_text_def)
qed

lemma BigEndianBinaryToNumericStr_text:
  assumes "canonical_text isNegative ip fp" "be_value bs = dec_value (ip @ fp)"
  shows "BigEndianBinaryToNumericStr bs (int (length fp)) isNegative =
    numeric_text isNegative ip fp @ (if fp = [] then ''.'' else '''')"
proof -
  let ?d = "rev (be_digits bs)" and ?n = "length (be_digits bs)"
  note p = be_digits_props [of bs]
  have w: "list_all isdigit (ip @ fp)" "ip @ fp \<noteq> []" using assms(1) by (simp_all add: canonical_text_def)
  note pd = pad_digits [OF w assms(2) [symmetric]]
  have ip: "ip \<noteq> []" "hd ip = CHR ''0'' \<Longrightarrow> ip = ''0''" using assms(1) by (auto simp: canonical_text_def)
  show ?thesis
  proof (cases "?n \<le> length fp")
    case True
    define k where "k = length ip + length fp - ?n"
    have "0 < length ip" using ip(1) by simp
    then have "0 < k" using True unfolding k_def by linarith
    have eq: "ip @ fp = replicate k CHR ''0'' @ ?d" using pd(2) by (simp add: k_def)
    then have "hd ip = CHR ''0''" using ip(1) \<open>0 < k\<close> by (metis hd_append2 hd_replicate replicate_empty neq0_conv)
    then have ip0: "ip = ''0''" by (rule ip(2))
    then have "k = Suc (length fp - ?n)" using True by (simp add: k_def)
    then have "fp = replicate (length fp - ?n) CHR ''0'' @ ?d" using eq ip0 by simp
    moreover have "fp \<noteq> []" using True p by (cases fp) auto
    ultimately show ?thesis
      using True ip0 by (simp add: BigEndianBinaryToNumericStr_def numeric_text_def Let_def)
  next
    case False
    have k0: "length (ip @ fp) - ?n = 0"
    proof (cases "hd ip = CHR ''0''")
      case True
      then show ?thesis using ip(2) False by simp
    next
      case hd: False
      show ?thesis
      proof (rule ccontr)
        assume "length (ip @ fp) - ?n \<noteq> 0"
        then have "hd (ip @ fp) = CHR ''0''" using pd(2)
          by (metis hd_append2 hd_replicate replicate_empty)
        then show False using hd ip(1) by simp
      qed
    qed
    then have d: "?d = ip @ fp" using pd(2) by simp
    have len: "?n = length ip + length fp" using d by (metis length_append length_rev)
    show ?thesis
      using False by (simp add: BigEndianBinaryToNumericStr_def numeric_text_def Let_def d len)
  qed
qed

section \<open>Properties\<close>

lemma deserialize_value:
  assumes "bs \<noteq> []" "length bs \<le> 16" "GetDuckdbAdjustedPrecisionAndScaleFromNumericTypeMod cfg typmod = (precision, scale)"
  obtains e where "length e = 16" "signed_value (128 \<le> unat (hd bs)) (be_value e) = be_sint bs"
    "PGNumericIcebergBinaryDeserialize cfg num_in bs typmod =
       num_in (BigEndianBinaryToNumericStr e scale (128 \<le> unat (hd bs))) typmod"
proof -
  obtain e where e: "SignExtendNumericBinary bs = Inr e" "length e = 16" "be_sint e = be_sint bs"
    "128 \<le> unat (hd e) \<longleftrightarrow> 128 \<le> unat (hd bs)"
    using be_sint_SignExtend [OF assms(1,2)] by blast
  have ne: "e \<noteq> []" using e(2) by auto
  show ?thesis
  proof (cases "128 \<le> unat (hd bs)")
    case True
    have pos: "be_value e \<noteq> 0" using True e ne by (cases e) auto
    have "int (be_value e) - 256 ^ 16 = be_sint bs" using True e ne by (simp add: be_sint_def)
    moreover have "be_value e < 256 ^ 16" using be_value_bound [of e] e(2) by simp
    ultimately have "signed_value True (be_value (TwosComplement e)) = be_sint bs"
      using TwosComplement_value(2) [OF pos] e(2) by (simp add: signed_value_def of_nat_diff)
    then show ?thesis
      using that [of "TwosComplement e"] True assms e TwosComplement_value(1)
      by (simp add: PGNumericIcebergBinaryDeserialize_def Let_def top_bit_byte)
  next
    case False
    then have "signed_value False (be_value e) = be_sint bs" using e ne by (simp add: signed_value_def be_sint_def)
    then show ?thesis
      using that [of e] False assms e by (simp add: PGNumericIcebergBinaryDeserialize_def Let_def top_bit_byte)
  qed
qed

lemma be_sint_neg_iff: "bs \<noteq> [] \<Longrightarrow> be_sint bs < 0 \<longleftrightarrow> 128 \<le> unat (hd bs)"
proof -
  assume "bs \<noteq> []"
  have "int (be_value bs) < 256 ^ length bs"
    using be_value_bound [of bs] by (metis of_nat_less_iff of_nat_numeral of_nat_power)
  then show ?thesis using \<open>bs \<noteq> []\<close> by (auto simp: be_sint_def)
qed

text \<open>C26: a numeric value (any sign, any scale, magnitude of the unscaled value below \<open>2 ^ 127\<close>, which
  covers the 38 digits Iceberg allows) is serialized without error, and deserializing the bytes
  hands PostgreSQL's \<^verbatim>\<open>numeric_in\<close> the very text the value had (with a trailing dot when the scale
  is zero).\<close>

theorem numeric_serde_round_trip:
  assumes "canonical_text isNegative ip fp" "dec_value (ip @ fp) < 2 ^ 127"
    "GetDuckdbAdjustedPrecisionAndScaleFromNumericTypeMod cfg typmod = (precision, int (length fp))"
  shows "\<exists>bs. PGNumericIcebergBinarySerialize (numeric_text isNegative ip fp) (int (length fp)) = Inr (Some bs) \<and>
    PGNumericIcebergBinaryDeserialize cfg num_in bs typmod =
      num_in (numeric_text isNegative ip fp @ (if fp = [] then ''.'' else '''')) typmod"
proof -
  note tp = numeric_text_props [OF assms(1)] and nt = Normalize_numeric_text [OF assms(1)]
  obtain bs where bs: "PGNumericIcebergBinarySerialize (numeric_text isNegative ip fp) (int (length fp)) = Inr (Some bs)"
    "bs \<noteq> []" "length bs \<le> 16" "be_sint bs = signed_value isNegative (dec_value (ip @ fp))"
    using serialize_value [of "numeric_text isNegative ip fp" "int (length fp)"] tp nt assms(2) by auto
  have neg: "128 \<le> unat (hd bs) \<longleftrightarrow> isNegative"
    using be_sint_neg_iff [OF bs(2)] bs(4) assms(1)
    by (cases isNegative) (simp_all add: signed_value_def canonical_text_def)
  obtain e where "signed_value isNegative (be_value e) = be_sint bs"
    "PGNumericIcebergBinaryDeserialize cfg num_in bs typmod =
       num_in (BigEndianBinaryToNumericStr e (int (length fp)) isNegative) typmod"
    using deserialize_value [OF bs(2,3) assms(3)] neg by auto
  moreover from this have "be_value e = dec_value (ip @ fp)" using bs(4) by (auto simp: signed_value_def split: if_splits)
  ultimately show ?thesis using bs(1) BigEndianBinaryToNumericStr_text [OF assms(1)] by auto
qed

theorem numeric_serde_round_trip_witness:
  "\<exists>bs. PGNumericIcebergBinarySerialize (numeric_text True ''123'' ''400000000'') (int (length ''400000000'')) = Inr (Some bs) \<and>
    PGNumericIcebergBinaryDeserialize default_numeric_settings (\<lambda>s t. Inr s) bs (- 1) =
      Inr (numeric_text True ''123'' ''400000000'' @ (if ''400000000'' = '''' then ''.'' else ''''))"
proof (rule numeric_serde_round_trip [where precision = 38])
  show "canonical_text True ''123'' ''400000000''"
    by (simp add: canonical_text_def isdigit_def dec_value_def digit_value_def)
  show "dec_value (''123'' @ ''400000000'') < 2 ^ 127"
    by (simp add: dec_value_def digit_value_def)
  show "GetDuckdbAdjustedPrecisionAndScaleFromNumericTypeMod default_numeric_settings (- 1) = (38, int (length ''400000000''))"
    by (simp add: GetDuckdbAdjustedPrecisionAndScaleFromNumericTypeMod_def IsUnboundedNumeric_def default_numeric_settings_def)
qed



text \<open>The exception: a negative value that truncates to zero is written with sixteen zero bytes.\<close>

lemma negative_zero_not_minimal:
  "PGNumericIcebergBinarySerialize ''-0.001'' 2 = Inr (Some (replicate 16 0))"
  by code_simp

text \<open>the 40-byte buffer in which the decimal digits of a 128-bit number are collected is never
  overrun: there are at most 39 digits, leaving room for the terminator.\<close>

theorem be_digits_fit_buffer:
  assumes "length bs = 16"
  shows "length (be_digits bs) \<le> 39"
proof (rule ccontr)
  assume "\<not> length (be_digits bs) \<le> 39"
  then have "(10::nat) ^ 39 \<le> 10 ^ (length (be_digits bs) - 1)" by (intro power_increasing) simp_all
  moreover have "be_value bs \<noteq> 0" using \<open>\<not> length (be_digits bs) \<le> 39\<close> be_digits_props [of bs] by auto
  ultimately have "10 ^ 39 \<le> be_value bs" using be_digits_props [of bs] by (metis order.trans)
  then show False using be_value_bound [of bs] assms by simp
qed

theorem be_digits_fit_buffer_witness: "length (be_digits (replicate 16 0xFF)) \<le> 39"
  by (rule be_digits_fit_buffer) simp

end
