(* ===== verification/Binary_Serde.thy ===== *)
theory Binary_Serde
  imports Pg_Types Numeric_Serde Temporal_Utils
begin

text \<open>
  \<^verbatim>\<open>pg_lake_iceberg/src/iceberg/iceberg_type_binary_serde.c\<close>: the single-value binary format in
  which column bounds and partition values are stored.  The target is little-endian, where the
  \<^verbatim>\<open>ToLittleEndian\<close>/\<^verbatim>\<open>FromLittleEndian\<close> macros are the identity.  Type input and output functions of
  PostgreSQL are the record \<open>type_io\<close>; \<open>Inr None\<close> is a \<^verbatim>\<open>NULL\<close> result.
\<close>

section \<open>Operations\<close>

record type_io =
  typoutput :: "pg_oid \<Rightarrow> datum \<Rightarrow> bytes"
  typinput :: "pg_oid \<Rightarrow> bytes \<Rightarrow> int \<Rightarrow> datum result"
  io_numeric_in :: "string \<Rightarrow> int \<Rightarrow> string result"
  io_settings :: numeric_settings

text \<open>The object representation of a \<open>k\<close>-byte two's complement integer, and reading it back.\<close>

definition int_to_le :: "nat \<Rightarrow> int \<Rightarrow> bytes" where
  "int_to_le k x = le_bytes k (nat (x mod 256 ^ k))"

definition le_to_int :: "nat \<Rightarrow> bytes \<Rightarrow> int result" where
  "le_to_int k bs = (if length bs < k then Inl Trap else Inr (int (le_value (take k bs))))"

definition isnan4 :: "u32 \<Rightarrow> bool" where
  "isnan4 w \<longleftrightarrow> drop_bit 23 w AND 0xFF = 0xFF \<and> w AND 0x7FFFFF \<noteq> 0"

definition isinf4 :: "u32 \<Rightarrow> bool" where
  "isinf4 w \<longleftrightarrow> drop_bit 23 w AND 0xFF = 0xFF \<and> w AND 0x7FFFFF = 0"

definition isnan8 :: "u64 \<Rightarrow> bool" where
  "isnan8 w \<longleftrightarrow> drop_bit 52 w AND 0x7FF = 0x7FF \<and> w AND 0xFFFFFFFFFFFFF \<noteq> 0"

definition isinf8 :: "u64 \<Rightarrow> bool" where
  "isinf8 w \<longleftrightarrow> drop_bit 52 w AND 0x7FF = 0x7FF \<and> w AND 0xFFFFFFFFFFFFF = 0"

definition PGIcebergBinarySerialize ::
  "type_io \<Rightarrow> datum \<Rightarrow> string \<Rightarrow> PGType \<Rightarrow> bool \<Rightarrow> bytes option result" where
  "PGIcebergBinarySerialize io d typeName pgType addNullTerminator =
     (if PGTypeRequiresConversionToIcebergString typeName pgType
      then let datumAsString = c_string (typoutput io (postgresTypeOid pgType) d)
           in Inr (Some (datumAsString @ (if addNullTerminator then [0] else [])))
      else case postgresTypeOid pgType of
        BOOLOID \<Rightarrow> result_bind (DatumGetBool d) (\<lambda>boolValue. Inr (Some [if boolValue then 1 else 0]))
      | INT2OID \<Rightarrow> result_bind (DatumGetInt16 d) (\<lambda>shortValue. Inr (Some (int_to_le 4 shortValue)))
      | INT4OID \<Rightarrow> result_bind (DatumGetInt32 d) (\<lambda>intValue. Inr (Some (int_to_le 4 intValue)))
      | INT8OID \<Rightarrow> result_bind (DatumGetInt64 d) (\<lambda>longValue. Inr (Some (int_to_le 8 longValue)))
      | FLOAT4OID \<Rightarrow> result_bind (DatumGetInt32 d) (\<lambda>bits.
          if isnan4 (word_of_int bits) then Inr None
          else if isinf4 (word_of_int bits) then Inr None
          else Inr (Some (int_to_le 4 bits)))
      | FLOAT8OID \<Rightarrow> result_bind (DatumGetInt64 d) (\<lambda>bits.
          if isnan8 (word_of_int bits) then Inr None
          else if isinf8 (word_of_int bits) then Inr None
          else Inr (Some (int_to_le 8 bits)))
      | DATEOID \<Rightarrow> result_bind (DatumGetInt32 d) (\<lambda>dateValue.
          Inr (Some (int_to_le 4 (AdjustDateFromPostgresToUnix dateValue))))
      | TIMESTAMPOID \<Rightarrow> result_bind (DatumGetInt64 d) (\<lambda>timestampValue.
          Inr (Some (int_to_le 8 (AdjustTimestampFromPostgresToUnix timestampValue))))
      | TIMESTAMPTZOID \<Rightarrow> result_bind (DatumGetInt64 d) (\<lambda>timestampTzValue.
          Inr (Some (int_to_le 8 (AdjustTimestampFromPostgresToUnix timestampTzValue))))
      | TIMEOID \<Rightarrow> result_bind (DatumGetInt64 d) (\<lambda>timeValue. Inr (Some (int_to_le 8 timeValue)))
      | TIMETZOID \<Rightarrow> result_bind (datum_timetz d) (\<lambda>(time, zone).
          Inr (Some (int_to_le 8 (TimeTzGetUTCMicros time zone))))
      | TEXTOID \<Rightarrow> result_bind (datum_bytes d) (\<lambda>txt.
          Inr (Some (c_string txt @ (if addNullTerminator then [0] else []))))
      | BYTEAOID \<Rightarrow> result_bind (datum_bytes d) (\<lambda>byteaValue. Inr (Some byteaValue))
      | NUMERICOID \<Rightarrow>
          (case GetDuckdbAdjustedPrecisionAndScaleFromNumericTypeMod (io_settings io) (postgresTypeMod pgType) of
             (precision, scale) \<Rightarrow>
               result_bind (datum_numeric d) (\<lambda>s. PGNumericIcebergBinarySerialize s scale))
      | UUIDOID \<Rightarrow> result_bind (datum_bytes d) (\<lambda>uuidValue. Inr (Some (take 16 uuidValue)))
      | _ \<Rightarrow> Inl (InternalError ''unsupported type for binary serialization''))"

definition PGIcebergBinarySerializeBoundValue ::
  "type_io \<Rightarrow> datum \<Rightarrow> string \<Rightarrow> PGType \<Rightarrow> bytes option result" where
  "PGIcebergBinarySerializeBoundValue io d typeName pgType =
     (let addNullTerminator = False in PGIcebergBinarySerialize io d typeName pgType addNullTerminator)"

definition PGIcebergBinarySerializePartitionFieldValue ::
  "type_io \<Rightarrow> datum \<Rightarrow> string \<Rightarrow> PGType \<Rightarrow> bytes option result" where
  "PGIcebergBinarySerializePartitionFieldValue io d typeName pgType =
     (let addNullTerminator = True in PGIcebergBinarySerialize io d typeName pgType addNullTerminator)"

definition PGIcebergBinaryDeserialize ::
  "type_io \<Rightarrow> bytes \<Rightarrow> string \<Rightarrow> PGType \<Rightarrow> datum result" where
  "PGIcebergBinaryDeserialize io binaryValue typeName pgType =
     (if PGTypeRequiresConversionToIcebergString typeName pgType
      then typinput io (postgresTypeOid pgType) (c_string binaryValue) (postgresTypeMod pgType)
      else case postgresTypeOid pgType of
        BOOLOID \<Rightarrow> (case binaryValue of [] \<Rightarrow> Inl Trap | b # _ \<Rightarrow> Inr (DInt (if b = 1 then 1 else 0)))
      | INT2OID \<Rightarrow> result_bind (le_to_int 4 binaryValue) (\<lambda>v. Inr (DInt (wrap16 (wrap32 v))))
      | INT4OID \<Rightarrow> result_bind (le_to_int 4 binaryValue) (\<lambda>v. Inr (DInt (wrap32 v)))
      | INT8OID \<Rightarrow> result_bind (le_to_int 8 binaryValue) (\<lambda>v. Inr (DInt (wrap64 v)))
      | FLOAT4OID \<Rightarrow> result_bind (le_to_int 4 binaryValue) (\<lambda>v. Inr (DInt (wrap32 v)))
      | FLOAT8OID \<Rightarrow> result_bind (le_to_int 8 binaryValue) (\<lambda>v. Inr (DInt (wrap64 v)))
      | DATEOID \<Rightarrow> result_bind (le_to_int 4 binaryValue) (\<lambda>v.
          Inr (DInt (AdjustDateFromUnixToPostgres (wrap32 v))))
      | TIMESTAMPOID \<Rightarrow> result_bind (le_to_int 8 binaryValue) (\<lambda>v.
          Inr (DInt (AdjustTimestampFromUnixToPostgres (wrap64 v))))
      | TIMESTAMPTZOID \<Rightarrow> result_bind (le_to_int 8 binaryValue) (\<lambda>v.
          Inr (DInt (AdjustTimestampFromUnixToPostgres (wrap64 v))))
      | TIMEOID \<Rightarrow> result_bind (le_to_int 8 binaryValue) (\<lambda>v. Inr (DInt (wrap64 v)))
      | TIMETZOID \<Rightarrow> result_bind (le_to_int 8 binaryValue) (\<lambda>v. Inr (DTimeTz (wrap64 v) 0))
      | TEXTOID \<Rightarrow> Inr (DBytes (c_string binaryValue))
      | BYTEAOID \<Rightarrow> Inr (DBytes binaryValue)
      | NUMERICOID \<Rightarrow>
          result_bind (PGNumericIcebergBinaryDeserialize (io_settings io) (io_numeric_in io) binaryValue (postgresTypeMod pgType))
            (\<lambda>s. Inr (DNumeric s))
      | UUIDOID \<Rightarrow> (if length binaryValue < 16 then Inl Trap else Inr (DBytes (take 16 binaryValue)))
      | _ \<Rightarrow> Inl (InternalError ''unsupported type for binary deserialization''))"


section \<open>Round trip\<close>

lemma le_to_int_int_to_le: "le_to_int k (int_to_le k x) = Inr (x mod 256 ^ k)"
  by (simp add: le_to_int_def int_to_le_def le_value_le_bytes nat_less_iff)

lemma wrap32_mod: "wrap32 (x mod 256 ^ 4) = wrap32 x"
  by (simp add: wrap32_alt mod_add_left_eq)

lemma wrap64_mod: "wrap64 (x mod 256 ^ 8) = wrap64 x"
  by (simp add: wrap64_alt mod_add_left_eq)

lemma wrap32_wrap32: "wrap32 (wrap32 x + y) = wrap32 (x + y)"
  by (simp add: wrap32_def wi_hom_add [symmetric])

lemma wrap64_wrap64: "wrap64 (wrap64 x + y) = wrap64 (x + y)"
  by (simp add: wrap64_def wi_hom_add [symmetric])

lemma AdjustDate_inverse:
  "is_i32 d \<Longrightarrow> AdjustDateFromUnixToPostgres (AdjustDateFromPostgresToUnix d) = d"
  using wrap32_wrap32 [of "d + PostgresToUnixEpochDiffInDays" "- PostgresToUnixEpochDiffInDays"]
  by (simp add: AdjustDateFromUnixToPostgres_def AdjustDateFromPostgresToUnix_def)

lemma AdjustTimestamp_inverse:
  "is_i64 t \<Longrightarrow> AdjustTimestampFromUnixToPostgres (AdjustTimestampFromPostgresToUnix t) = t"
  using wrap64_wrap64 [of "t + PostgresToUnixEpochDiffInMicrosecs" "- PostgresToUnixEpochDiffInMicrosecs"]
  by (simp add: AdjustTimestampFromUnixToPostgres_def AdjustTimestampFromPostgresToUnix_def)

lemma Adjust_range: "is_i32 (AdjustDateFromPostgresToUnix d)" "is_i64 (AdjustTimestampFromPostgresToUnix t)"
  by (simp_all add: AdjustDateFromPostgresToUnix_def AdjustTimestampFromPostgresToUnix_def)

lemma TimeTz_UTC: "0 \<le> t \<Longrightarrow> t < USECS_PER_DAY \<Longrightarrow> TimeTzGetUTCMicros t 0 = t"
proof -
  assume t: "0 \<le> t" "t < USECS_PER_DAY"
  then have i: "is_i64 t" "is_i64 (t + USECS_PER_DAY)" by (simp_all add: is_i64_def int_limits USECS_PER_DAY_def)
  have "wrap64 0 = 0" by (simp add: is_i64_def int_limits)
  then show ?thesis using t i by (simp add: TimeTzGetUTCMicros_def Let_def smod_nonneg)
qed

text \<open>The values of a type, without the non-finite floats (which have no serialization), and a
  \<^verbatim>\<open>timetz\<close> in UTC.\<close>

fun value_of_type :: "pg_oid \<Rightarrow> datum \<Rightarrow> bool" where
  "value_of_type BOOLOID (DInt x) \<longleftrightarrow> x = 0 \<or> x = 1"
| "value_of_type INT2OID (DInt x) \<longleftrightarrow> is_i16 x"
| "value_of_type INT4OID (DInt x) \<longleftrightarrow> is_i32 x"
| "value_of_type INT8OID (DInt x) \<longleftrightarrow> is_i64 x"
| "value_of_type FLOAT4OID (DInt x) \<longleftrightarrow> is_i32 x \<and> \<not> isnan4 (word_of_int x) \<and> \<not> isinf4 (word_of_int x)"
| "value_of_type FLOAT8OID (DInt x) \<longleftrightarrow> is_i64 x \<and> \<not> isnan8 (word_of_int x) \<and> \<not> isinf8 (word_of_int x)"
| "value_of_type DATEOID (DInt x) \<longleftrightarrow> is_i32 x"
| "value_of_type TIMEOID (DInt x) \<longleftrightarrow> is_i64 x"
| "value_of_type TIMESTAMPOID (DInt x) \<longleftrightarrow> is_i64 x"
| "value_of_type TIMESTAMPTZOID (DInt x) \<longleftrightarrow> is_i64 x"
| "value_of_type TIMETZOID (DTimeTz t z) \<longleftrightarrow> z = 0 \<and> 0 \<le> t \<and> t < USECS_PER_DAY"
| "value_of_type TEXTOID (DBytes bs) \<longleftrightarrow> 0 \<notin> set bs"
| "value_of_type BYTEAOID (DBytes bs) \<longleftrightarrow> True"
| "value_of_type UUIDOID (DBytes bs) \<longleftrightarrow> length bs = 16"
| "value_of_type _ _ \<longleftrightarrow> False"

lemma c_string_append: "0 \<notin> set bs \<Longrightarrow> c_string (bs @ (if b then [0] else [])) = bs"
  by (induction bs) (auto simp: c_string_def)

lemma c_string_id: "0 \<notin> set bs \<Longrightarrow> c_string bs = bs"
  using c_string_append [of bs False] by simp

lemmas serde_simps = PGIcebergBinarySerialize_def PGIcebergBinaryDeserialize_def DatumGetBool_def
  DatumGetInt16_def DatumGetInt32_def DatumGetInt64_def le_to_int_int_to_le [of 4, simplified]
  le_to_int_int_to_le [of 8, simplified] wrap32_mod [simplified] wrap64_mod [simplified]
  AdjustDate_inverse AdjustTimestamp_inverse Adjust_range TimeTz_UTC wrap16_id is_i16_imp_i32 c_string_id




section \<open>Decimal digits are unique\<close>

lemma dec_value_nat_digits: "dec_value (nat_digits n) = n"
proof (induction n rule: nat_digits.induct)
  case (1 n)
  have d: "digit_value (char_of (48 + k)) = k" if "k < 10" for k :: nat
    using char_of_digit [OF that] by simp
  show ?case
  proof (cases "n < 10")
    case True
    then show ?thesis using d [of n] dec_value_simps(2) [of "[]"] by (simp add: nat_digits.simps)
  next
    case False
    then show ?thesis using 1 d [of "n mod 10"] by (subst nat_digits.simps) simp
  qed
qed

lemma nat_digits_inject: "nat_digits m = nat_digits n \<longleftrightarrow> m = n"
  by (metis dec_value_nat_digits)

end
