(* ===== verification/Iceberg_Types.thy ===== *)
theory Iceberg_Types
  imports Pg_Types
begin

text \<open>
  The structs of \<^verbatim>\<open>pg_lake_iceberg/include/pg_lake/iceberg/metadata_spec.h\<close>,
  \<^verbatim>\<open>manifest_spec.h\<close> and \<^verbatim>\<open>api/partitioning.h\<close> as records.  A pointer with a length is a list, a
  nullable pointer or a value with a \<^verbatim>\<open>has_\<close> flag an \<open>option\<close>; a field name that several structs share carries the struct's
  initials.  Counters and ids are \<open>int\<close>s.  The object store maps the path of a manifest to its
  entries and the path of a manifest list to its manifests, as the Avro files hold them.
\<close>

section \<open>Fields\<close>

text \<open>\<^verbatim>\<open>pg_lake_engine/include/pg_lake/parquet/field.h\<close>: a field is a scalar, a list, a map or a struct; the
  columns of a schema are the elements of a struct.\<close>

datatype Field =
    FieldScalar (typeName: string)
  | FieldList (elementId: int) (elementRequired: bool) (element: Field)
  | FieldMap (keyId: int) (map_key: Field) (valueId: int) (valueRequired: bool) (map_value: Field)
  | FieldStruct (struct_fields: "FieldStructElement list")
and FieldStructElement =
    FieldStructElement (elem_id: int) (elem_name: string) (elem_required: bool) (elem_doc: "string option")
      (writeDefault: "string option") (initialDefault: "string option")
      (duckSerializedInitialDefault: "string option") (elem_type: Field)

type_synonym DataFileSchemaField = FieldStructElement
type_synonym DataFileSchema = "FieldStructElement list"


section \<open>Partition values\<close>

datatype avro_physical_type =
    ICEBERG_AVRO_PHYSICAL_TYPE_INT32 | ICEBERG_AVRO_PHYSICAL_TYPE_INT64 | ICEBERG_AVRO_PHYSICAL_TYPE_STRING
  | ICEBERG_AVRO_PHYSICAL_TYPE_BINARY | ICEBERG_AVRO_PHYSICAL_TYPE_FLOAT | ICEBERG_AVRO_PHYSICAL_TYPE_DOUBLE
  | ICEBERG_AVRO_PHYSICAL_TYPE_BOOL

datatype avro_logical_type =
    ICEBERG_AVRO_LOGICAL_TYPE_NONE | ICEBERG_AVRO_LOGICAL_TYPE_DATE | ICEBERG_AVRO_LOGICAL_TYPE_TIMESTAMP
  | ICEBERG_AVRO_LOGICAL_TYPE_TIME | ICEBERG_AVRO_LOGICAL_TYPE_DECIMAL | ICEBERG_AVRO_LOGICAL_TYPE_UUID

record IcebergScalarAvroType =
  physical_type :: avro_physical_type
  logical_type :: avro_logical_type
  avro_precision :: int
  avro_scale :: int

record PartitionField =
  pf_field_name :: string
  pf_field_id :: int
  pf_value_type :: IcebergScalarAvroType
  pf_value :: "bytes option"

type_synonym Partition = "PartitionField list"

datatype IcebergPartitionTransformType =
    PARTITION_TRANSFORM_IDENTITY | PARTITION_TRANSFORM_YEAR | PARTITION_TRANSFORM_MONTH
  | PARTITION_TRANSFORM_DAY | PARTITION_TRANSFORM_HOUR | PARTITION_TRANSFORM_BUCKET
  | PARTITION_TRANSFORM_TRUNCATE | PARTITION_TRANSFORM_VOID

record IcebergPartitionTransform =
  transform_type :: IcebergPartitionTransformType
  transform_arg :: nat
  partitionFieldId :: int
  partitionFieldName :: string
  transformName :: string
  sourceField :: DataFileSchemaField
  columnName :: string
  attnum :: int
  tr_pgType :: PGType
  resultPgType :: PGType

record IcebergPartitionSpecField =
  source_id :: int
  source_ids :: "int list"
  psf_field_id :: int
  psf_name :: string
  psf_transform :: string

record IcebergPartitionSpec =
  spec_id :: int
  spec_fields :: "IcebergPartitionSpecField list"


section \<open>Data files, manifest entries, manifests\<close>

datatype IcebergManifestEntryStatus =
    ICEBERG_MANIFEST_ENTRY_STATUS_EXISTING
  | ICEBERG_MANIFEST_ENTRY_STATUS_ADDED
  | ICEBERG_MANIFEST_ENTRY_STATUS_DELETED

datatype IcebergManifestContentType =
    ICEBERG_MANIFEST_FILE_CONTENT_DATA
  | ICEBERG_MANIFEST_FILE_CONTENT_DELETES

datatype IcebergDataFileContentType =
    ICEBERG_DATA_FILE_CONTENT_DATA
  | ICEBERG_DATA_FILE_CONTENT_POSITION_DELETES
  | ICEBERG_DATA_FILE_CONTENT_EQUALITY_DELETES

type_synonym ColumnStat = "int \<times> int"
type_synonym ColumnBound = "int \<times> bytes"

record FieldSummary =
  contains_null :: bool
  contains_nan :: bool
  lower_bound :: "bytes option"
  upper_bound :: "bytes option"

record DataFile =
  df_content :: IcebergDataFileContentType
  file_path :: string
  file_format :: string
  df_partition :: Partition
  record_count :: int
  file_size_in_bytes :: int
  column_sizes :: "ColumnStat list"
  value_counts :: "ColumnStat list"
  null_value_counts :: "ColumnStat list"
  nan_value_counts :: "ColumnStat list"
  lower_bounds :: "ColumnBound list"
  upper_bounds :: "ColumnBound list"
  df_key_metadata :: "bytes option"
  split_offsets :: "int list"
  equality_ids :: "int list"
  sort_order_id :: "int option"

record IcebergManifestEntry =
  status :: IcebergManifestEntryStatus
  has_snapshot_id :: bool
  me_snapshot_id :: int
  has_sequence_number :: bool
  me_sequence_number :: int
  has_file_sequence_number :: bool
  file_sequence_number :: int
  data_file :: DataFile

record IcebergManifest =
  manifest_path :: string
  manifest_length :: int
  partition_spec_id :: int
  m_content :: IcebergManifestContentType
  m_sequence_number :: int
  min_sequence_number :: int
  added_snapshot_id :: int
  added_files_count :: int
  existing_files_count :: int
  deleted_files_count :: int
  added_rows_count :: int
  existing_rows_count :: int
  deleted_rows_count :: int
  m_partitions :: "FieldSummary list"
  m_key_metadata :: "bytes option"


section \<open>Table metadata\<close>

type_synonym Property = "string \<times> string"

record IcebergTableSchema =
  schema_id :: int
  schema_type :: string
  schema_fields :: "DataFileSchemaField list"
  identifier_field_ids :: "int list"

record IcebergSnapshot =
  snapshot_id :: int
  parent_snapshot_id :: int
  sequence_number :: int
  timestamp_ms :: int
  manifest_list :: string
  summary :: "Property list"
  snap_schema_id :: int
  schema_id_set :: bool

record IcebergSnapshotLogEntry =
  sl_timestamp_ms :: int
  sl_snapshot_id :: int

record IcebergMetadataLogEntry =
  ml_timestamp_ms :: int
  metadata_file :: string

datatype SnapshotReferenceType =
    SNAPSHOT_REFERENCE_TYPE_TAG | SNAPSHOT_REFERENCE_TYPE_BRANCH | SNAPSHOT_REFERENCE_TYPE_INVALID

record SnapshotReference =
  ref_key :: string
  ref_snapshot_id :: int
  ref_type :: SnapshotReferenceType
  min_snapshots_to_keep :: "int option"
  max_snapshot_age_ms :: "int option"
  max_ref_age_ms :: "int option"

record IcebergPartitionStatistics =
  ps_snapshot_id :: int
  ps_statistics_path :: string
  ps_file_size_in_bytes :: int

record IcebergSortOrderField =
  so_transform :: string
  so_source_id :: int
  so_direction :: string
  so_null_order :: string

record IcebergSortOrder =
  order_id :: int
  so_fields :: "IcebergSortOrderField list"

record BlobMetadata =
  blob_type :: string
  blob_snapshot_id :: int
  blob_sequence_number :: int
  blob_fields :: "int list"
  blob_properties :: "Property list"

record IcebergStatistics =
  st_snapshot_id :: int
  st_statistics_path :: string
  st_file_size_in_bytes :: int
  st_file_footer_size_in_bytes :: int
  st_key_metadata :: "string option"
  st_blobs :: "BlobMetadata list"

record IcebergTableMetadata =
  format_version :: int
  table_uuid :: string
  location :: string
  last_sequence_number :: int
  last_updated_ms :: int
  last_column_id :: int
  current_schema_id :: int
  schemas :: "IcebergTableSchema list"
  default_spec_id :: int
  partition_specs :: "IcebergPartitionSpec list"
  last_partition_id :: int
  properties :: "Property list"
  partition_statistics :: "IcebergPartitionStatistics list"
  current_snapshot_id :: int
  snapshots :: "IcebergSnapshot list"
  snapshot_log :: "IcebergSnapshotLogEntry list"
  metadata_log :: "IcebergMetadataLogEntry list"
  sort_orders :: "IcebergSortOrder list"
  default_sort_order_id :: int
  refs :: "SnapshotReference list"
  statistics :: "IcebergStatistics list"

record object_store =
  manifest_files :: "string \<rightharpoonup> IcebergManifestEntry list"
  manifest_list_files :: "string \<rightharpoonup> IcebergManifest list"

definition ReadManifestEntries :: "object_store \<Rightarrow> string \<Rightarrow> IcebergManifestEntry list result" where
  "ReadManifestEntries st path =
     (case manifest_files st path of None \<Rightarrow> Inl (InternalError ''could not read manifest'') | Some es \<Rightarrow> Inr es)"

definition ReadIcebergManifests :: "object_store \<Rightarrow> string \<Rightarrow> IcebergManifest list result" where
  "ReadIcebergManifests st path =
     (case manifest_list_files st path of None \<Rightarrow> Inl (InternalError ''could not read manifest list'') | Some ms \<Rightarrow> Inr ms)"

end
