(* ===== verification/Partition.thy ===== *)
theory Partition
  imports Iceberg_Types
begin

text \<open>
  \<^verbatim>\<open>pg_lake_iceberg/src/iceberg/partitioning/partition.c\<close> and \<^verbatim>\<open>spec_generation.c\<close>: partition
  tuples, their hash keys and the partition spec built from transforms.  The hash primitives of
  PostgreSQL are the record \<open>hash_api\<close>.
\<close>

section \<open>Partition tuples\<close>

text \<open>A value of length zero is stored as \<^verbatim>\<open>NULL\<close>.\<close>

definition copy_value :: "bytes option \<Rightarrow> bytes option" where
  "copy_value v = (case v of None \<Rightarrow> None | Some bs \<Rightarrow> if length bs > 0 then Some bs else None)"

definition CopyPartition :: "Partition \<Rightarrow> Partition" where
  "CopyPartition part = map (\<lambda>sourceField. sourceField\<lparr>pf_value := copy_value (pf_value sourceField)\<rparr>) part"

definition PartitionFieldCompare :: "PartitionField \<Rightarrow> PartitionField \<Rightarrow> int" where
  "PartitionFieldCompare fieldA fieldB =
     (if pf_field_id fieldA < pf_field_id fieldB then - 1
      else if pf_field_id fieldA > pf_field_id fieldB then 1 else 0)"

text \<open>The array is kept sorted by field id with \<^verbatim>\<open>qsort\<close> and \<^verbatim>\<open>PartitionFieldCompare\<close>.\<close>

definition AppendPartitionField :: "Partition \<Rightarrow> PartitionField \<Rightarrow> Partition" where
  "AppendPartitionField part partitionField =
     (let newField = partitionField\<lparr>pf_value := copy_value (pf_value partitionField)\<rparr>
      in sort_key pf_field_id (part @ [newField]))"

record hash_api =
  hash_uint32 :: "u32 \<Rightarrow> u32"
  hash_combine64 :: "u64 \<Rightarrow> u64 \<Rightarrow> u64"
  hash_bytes_extended :: "bytes \<Rightarrow> u64 \<Rightarrow> u64"

definition physical_type_code :: "avro_physical_type \<Rightarrow> u32" where
  "physical_type_code t =
     (case t of ICEBERG_AVRO_PHYSICAL_TYPE_INT32 \<Rightarrow> 0 | ICEBERG_AVRO_PHYSICAL_TYPE_INT64 \<Rightarrow> 1
      | ICEBERG_AVRO_PHYSICAL_TYPE_STRING \<Rightarrow> 2 | ICEBERG_AVRO_PHYSICAL_TYPE_BINARY \<Rightarrow> 3
      | ICEBERG_AVRO_PHYSICAL_TYPE_FLOAT \<Rightarrow> 4 | ICEBERG_AVRO_PHYSICAL_TYPE_DOUBLE \<Rightarrow> 5
      | ICEBERG_AVRO_PHYSICAL_TYPE_BOOL \<Rightarrow> 6)"

definition partition_key_step :: "hash_api \<Rightarrow> u64 \<Rightarrow> PartitionField \<Rightarrow> u64" where
  "partition_key_step h hashValue partitionField =
     (let hashValue = hash_combine64 h hashValue (ucast (hash_uint32 h (word_of_int (pf_field_id partitionField))));
          hashValue = hash_combine64 h hashValue
            (ucast (hash_uint32 h (physical_type_code (physical_type (pf_value_type partitionField)))));
          valueHash = hash_bytes_extended h (case pf_value partitionField of None \<Rightarrow> [] | Some bs \<Rightarrow> bs) 0
      in hash_combine64 h hashValue valueHash)"

definition ComputePartitionKey :: "hash_api \<Rightarrow> Partition \<Rightarrow> u64" where
  "ComputePartitionKey h part = foldl (partition_key_step h) 0 part"

definition ComputeSpecPartitionKey :: "hash_api \<Rightarrow> int \<Rightarrow> Partition \<Rightarrow> u64" where
  "ComputeSpecPartitionKey h partitionSpecId part =
     (let specHash = ucast (hash_uint32 h (word_of_int partitionSpecId));
          partitionHash = ComputePartitionKey h part
      in hash_combine64 h specHash partitionHash)"

fun FindPartitionTransformById ::
  "IcebergPartitionTransform list \<Rightarrow> int \<Rightarrow> bool \<Rightarrow> IcebergPartitionTransform option result" where
  "FindPartitionTransformById [] partFieldId errorIfMissing =
     (if errorIfMissing then Inl (InternalError ''could not find partition transform for field id'') else Inr None)"
| "FindPartitionTransformById (transform # transforms) partFieldId errorIfMissing =
     (if partitionFieldId transform = partFieldId then Inr (Some transform)
      else FindPartitionTransformById transforms partFieldId errorIfMissing)"


section \<open>Partition specs\<close>

definition DEFAULT_SPEC_ID :: int where "DEFAULT_SPEC_ID = 0"

definition spec_field_of_transform :: "IcebergPartitionTransform \<Rightarrow> IcebergPartitionSpecField" where
  "spec_field_of_transform transform =
     \<lparr>source_id = elem_id (sourceField transform), source_ids = [elem_id (sourceField transform)],
      psf_field_id = partitionFieldId transform, psf_name = partitionFieldName transform,
      psf_transform = transformName transform\<rparr>"

definition BuildPartitionSpecFromPartitionTransforms ::
  "IcebergPartitionTransform list \<Rightarrow> int \<Rightarrow> IcebergPartitionSpec" where
  "BuildPartitionSpecFromPartitionTransforms partitionTransforms largestSpecId =
     (if partitionTransforms = [] then \<lparr>spec_id = DEFAULT_SPEC_ID, spec_fields = []\<rparr>
      else \<lparr>spec_id = wrap32 (largestSpecId + 1), spec_fields = map spec_field_of_transform partitionTransforms\<rparr>)"


section \<open>Properties\<close>

definition partition_wf :: "Partition \<Rightarrow> bool" where
  "partition_wf p \<longleftrightarrow> sorted (map pf_field_id p) \<and> distinct (map pf_field_id p) \<and>
     list_all (\<lambda>f. pf_value f \<noteq> Some []) p"

lemma copy_value_idem [simp]: "v \<noteq> Some [] \<Longrightarrow> copy_value v = v"
  by (auto simp: copy_value_def split: option.splits)

lemma copy_value_nonempty: "copy_value v \<noteq> Some []"
  by (auto simp: copy_value_def split: option.splits)

lemma CopyPartition_wf: "partition_wf p \<Longrightarrow> CopyPartition p = p"
  by (auto simp: CopyPartition_def partition_wf_def list_all_iff intro!: map_idI)

lemma map_sort_key: "map f (sort_key f xs) = sort (map f xs)"
  by (rule properties_for_sort [symmetric]) (simp_all only: mset_map mset_sort sorted_sort_key)

lemma partition_wf_Append:
  assumes "partition_wf p" "pf_field_id f \<notin> pf_field_id ` set p"
  shows "partition_wf (AppendPartitionField p f)"
proof -
  let ?f = "f\<lparr>pf_value := copy_value (pf_value f)\<rparr>"
  have "distinct (map pf_field_id (p @ [?f]))" using assms by (auto simp: partition_wf_def)
  then have "distinct (map pf_field_id (AppendPartitionField p f))"
    by (simp add: AppendPartitionField_def Let_def map_sort_key)
  moreover have "list_all (\<lambda>f. pf_value f \<noteq> Some []) (AppendPartitionField p f)"
    using assms(1) copy_value_nonempty by (auto simp: AppendPartitionField_def partition_wf_def list_all_iff)
  ultimately show ?thesis
    by (simp add: partition_wf_def AppendPartitionField_def Let_def)
qed

lemma AppendPartitionField_mset:
  "mset (AppendPartitionField p f) = add_mset (f\<lparr>pf_value := copy_value (pf_value f)\<rparr>) (mset p)"
  by (simp add: AppendPartitionField_def Let_def)

lemma foldl_Append:
  "mset (foldl AppendPartitionField p fs) =
     mset p + image_mset (\<lambda>f. f\<lparr>pf_value := copy_value (pf_value f)\<rparr>) (mset fs)"
  "sorted (map pf_field_id p) \<Longrightarrow> sorted (map pf_field_id (foldl AppendPartitionField p fs))"
proof (induction fs arbitrary: p)
  case (Cons f fs)
  { case 1 then show ?case using Cons.IH(1) by (simp add: AppendPartitionField_mset) }
  { case 2 then show ?case using Cons.IH(2) [of "AppendPartitionField p f"]
      by (simp add: AppendPartitionField_def Let_def) }
qed simp_all

lemma sorted_partition_unique:
  assumes "mset p = mset q" "distinct (map pf_field_id p)" "sorted (map pf_field_id p)" "sorted (map pf_field_id q)"
  shows "p = q"
proof -
  have "inj_on pf_field_id (set p)" using assms(2) by (simp add: distinct_map)
  then have "sort_key pf_field_id p = p" "sort_key pf_field_id p = q"
    using sort_key_inj_key_eq [OF refl _ assms(3)] sort_key_inj_key_eq [OF assms(1) _ assms(4)] by blast+
  then show ?thesis by simp
qed


definition sample_field :: "int \<Rightarrow> PartitionField" where
  "sample_field i = \<lparr>pf_field_name = ''f'', pf_field_id = i, pf_value_type =
     \<lparr>physical_type = ICEBERG_AVRO_PHYSICAL_TYPE_INT32, logical_type = ICEBERG_AVRO_LOGICAL_TYPE_NONE,
      avro_precision = 0, avro_scale = 0\<rparr>, pf_value = Some [1, 0, 0, 0]\<rparr>"


text \<open>An empty value is indistinguishable from \<^verbatim>\<open>NULL\<close> once it is appended.\<close>

lemma empty_value_becomes_null:
  "AppendPartitionField p (f\<lparr>pf_value := Some []\<rparr>) = AppendPartitionField p (f\<lparr>pf_value := None\<rparr>)"
  by (simp add: AppendPartitionField_def copy_value_def)

lemma BuildPartitionSpec_fresh:
  assumes "partitionTransforms \<noteq> []" "INT32_MIN \<le> largestSpecId" "largestSpecId < INT32_MAX"
  shows "spec_id (BuildPartitionSpecFromPartitionTransforms partitionTransforms largestSpecId) = largestSpecId + 1"
  using assms by (simp add: BuildPartitionSpecFromPartitionTransforms_def is_i32_def int_limits)

end
