(* ===== verification/Manifest.thy ===== *)
theory Manifest
  imports Partition Binary_Serde
begin

text \<open>
  \<^verbatim>\<open>pg_lake_iceberg/src/iceberg/api/manifest.c\<close>, \<^verbatim>\<open>manifest_entry.c\<close>, \<^verbatim>\<open>manifest_list.c\<close> and
  \<^verbatim>\<open>datafile.c\<close>: reading manifests and their entries, marking entries as deleted, and creating and
  uploading new manifests.

  Functions that write take and return a \<open>write_state\<close>: the object store as the transaction sees it
  (pending uploads included), the uploads scheduled and the in-progress file records inserted so far
  (\<^verbatim>\<open>ScheduleFileCopyToS3WithCleanup\<close> of \<^verbatim>\<open>s3_writer_utils.c\<close>), the running manifest index and the next
  unused address.  A manifest held in a list is a pointer: its address and its current contents.  Data
  the code takes from outside is the record \<open>manifest_env\<close>.
\<close>

section \<open>Environment and write state\<close>

record manifest_env =
  env_io :: type_io
  env_catalog :: pg_catalog
  env_lt :: "pg_oid \<Rightarrow> datum \<Rightarrow> datum \<Rightarrow> bool"
  env_gt :: "pg_oid \<Rightarrow> datum \<Rightarrow> datum \<Rightarrow> bool"
  GetLocalManifestSize :: "IcebergManifestEntry list \<Rightarrow> int"
  metadataLocation :: string
  snapshotUUID :: string
  EnableManifestMergeOnWrite :: bool
  TargetManifestSizeKB :: int
  ManifestMinCountToMerge :: int
  hash_seq_order :: "int list \<Rightarrow> int list"

record write_state =
  ws_store :: object_store
  PendingUploads :: "string list"
  InProgressFiles :: "(string \<times> bool) list"
  manifestIndex :: nat
  next_address :: nat

type_synonym manifest_ptr = "nat \<times> IcebergManifest"

definition ScheduleFileUpload :: "string \<Rightarrow> write_state \<Rightarrow> write_state result" where
  "ScheduleFileUpload remoteUrl ws =
     (if remoteUrl \<in> set (PendingUploads ws) then Inl (InternalError ''scheduled for upload twice'')
      else Inr (ws\<lparr>PendingUploads := PendingUploads ws @ [remoteUrl]\<rparr>))"

definition ScheduleFileCopyToS3WithCleanup :: "string \<Rightarrow> bool \<Rightarrow> write_state \<Rightarrow> write_state result" where
  "ScheduleFileCopyToS3WithCleanup s3Uri autoDeleteRecord ws =
     ScheduleFileUpload s3Uri (ws\<lparr>InProgressFiles := InProgressFiles ws @ [(s3Uri, autoDeleteRecord)]\<rparr>)"


section \<open>Manifest entries\<close>

definition IsManifestEntryStatusScannable :: "IcebergManifestEntry \<Rightarrow> bool" where
  "IsManifestEntryStatusScannable manifestEntry \<longleftrightarrow> status manifestEntry \<noteq> ICEBERG_MANIFEST_ENTRY_STATUS_DELETED"

text \<open>A \<^verbatim>\<open>NULL\<close> predicate is \<open>None\<close>.\<close>

definition keep_if :: "('a \<Rightarrow> bool) option \<Rightarrow> 'a \<Rightarrow> bool" where
  "keep_if predicate x = (case predicate of None \<Rightarrow> True | Some p \<Rightarrow> p x)"

definition FetchManifestEntriesFromManifest ::
  "object_store \<Rightarrow> IcebergManifest \<Rightarrow> (IcebergManifestEntry \<Rightarrow> bool) option \<Rightarrow> IcebergManifestEntry list result" where
  "FetchManifestEntriesFromManifest st manifest manifestEntryPredicateFn =
     result_bind (ReadManifestEntries st (manifest_path manifest)) (\<lambda>manifestEntries.
     Inr (filter (keep_if manifestEntryPredicateFn) manifestEntries))"

definition UpdateManifestEntryStateToDeleted ::
  "IcebergManifest \<Rightarrow> IcebergManifestEntry \<Rightarrow> int \<Rightarrow> IcebergManifest \<times> IcebergManifestEntry" where
  "UpdateManifestEntryStateToDeleted manifest entry snapshotId =
     (let rows = record_count (data_file entry);
          manifest = manifest\<lparr>deleted_rows_count := deleted_rows_count manifest + rows,
                              deleted_files_count := deleted_files_count manifest + 1\<rparr>;
          manifest = (case status entry of
              ICEBERG_MANIFEST_ENTRY_STATUS_ADDED \<Rightarrow>
                manifest\<lparr>added_rows_count := added_rows_count manifest - rows,
                         added_files_count := added_files_count manifest - 1\<rparr>
            | ICEBERG_MANIFEST_ENTRY_STATUS_EXISTING \<Rightarrow>
                manifest\<lparr>existing_rows_count := existing_rows_count manifest - rows,
                         existing_files_count := existing_files_count manifest - 1\<rparr>
            | ICEBERG_MANIFEST_ENTRY_STATUS_DELETED \<Rightarrow> manifest)
      in (manifest, entry\<lparr>status := ICEBERG_MANIFEST_ENTRY_STATUS_DELETED, me_snapshot_id := snapshotId\<rparr>))"

definition SetExistingStatus :: "int \<Rightarrow> IcebergManifestEntry \<Rightarrow> IcebergManifestEntry" where
  "SetExistingStatus currentSnapshotId manifestEntry =
     (if status manifestEntry = ICEBERG_MANIFEST_ENTRY_STATUS_ADDED \<and> me_snapshot_id manifestEntry \<noteq> currentSnapshotId
      then manifestEntry\<lparr>status := ICEBERG_MANIFEST_ENTRY_STATUS_EXISTING\<rparr> else manifestEntry)"

definition SetExistingStatusForOldSnapshotAddedEntries ::
  "IcebergManifestEntry list \<Rightarrow> int \<Rightarrow> IcebergManifestEntry list" where
  "SetExistingStatusForOldSnapshotAddedEntries manifestEntries currentSnapshotId =
     map (SetExistingStatus currentSnapshotId) manifestEntries"

text \<open>The inner loop over the entries to remove: the manifest and the entry after it, and how often the
  entry was appended to the list of deleted entries.\<close>

fun mark_removed ::
  "IcebergManifest \<Rightarrow> IcebergManifestEntry \<Rightarrow> IcebergManifestEntry list \<Rightarrow> int \<Rightarrow> IcebergManifest \<times> IcebergManifestEntry \<times> nat" where
  "mark_removed manifest entry [] snapshotId = (manifest, entry, 0)"
| "mark_removed manifest entry (r # rs) snapshotId =
     (if file_path (data_file entry) = file_path (data_file r)
      then case UpdateManifestEntryStateToDeleted manifest entry snapshotId of (manifest, entry) \<Rightarrow>
             case mark_removed manifest entry rs snapshotId of (manifest, entry, n) \<Rightarrow> (manifest, entry, Suc n)
      else mark_removed manifest entry rs snapshotId)"

text \<open>The entries of the manifest are updated in place; the deleted list points to them.  The result pairs
  every entry with the number of its occurrences in the deleted list.\<close>

fun FindAndAdjustDeletedManifestEntries ::
  "IcebergManifest \<Rightarrow> IcebergManifestEntry list \<Rightarrow> IcebergManifestEntry list \<Rightarrow> int \<Rightarrow> bool
     \<Rightarrow> IcebergManifest \<times> (IcebergManifestEntry \<times> nat) list" where
  "FindAndAdjustDeletedManifestEntries manifest [] removeManifestEntryList snapshotId allEntries = (manifest, [])"
| "FindAndAdjustDeletedManifestEntries manifest (entry # entries) removeManifestEntryList snapshotId allEntries =
     (if allEntries
      then (if status entry = ICEBERG_MANIFEST_ENTRY_STATUS_DELETED
            then case FindAndAdjustDeletedManifestEntries manifest entries removeManifestEntryList snapshotId allEntries of
                   (manifest, rest) \<Rightarrow> (manifest, (entry, 0) # rest)
            else case UpdateManifestEntryStateToDeleted manifest entry snapshotId of (manifest, entry) \<Rightarrow>
                 case FindAndAdjustDeletedManifestEntries manifest entries removeManifestEntryList snapshotId allEntries of
                   (manifest, rest) \<Rightarrow> (manifest, (entry, 1) # rest))
      else case mark_removed manifest entry removeManifestEntryList snapshotId of (manifest, entry, n) \<Rightarrow>
           case FindAndAdjustDeletedManifestEntries manifest entries removeManifestEntryList snapshotId allEntries of
             (manifest, rest) \<Rightarrow> (manifest, (entry, n) # rest))"

definition deleted_entries :: "(IcebergManifestEntry \<times> nat) list \<Rightarrow> IcebergManifestEntry list" where
  "deleted_entries marked = concat (map (\<lambda>(e, n). replicate n e) marked)"

definition remaining_entries :: "(IcebergManifestEntry \<times> nat) list \<Rightarrow> IcebergManifestEntry list" where
  "remaining_entries marked = map fst (filter (\<lambda>(e, n). n = 0) marked)"

definition IcebergAvroPhysicalTypeName :: "IcebergScalarAvroType \<Rightarrow> string" where
  "IcebergAvroPhysicalTypeName value_type =
     (case physical_type value_type of
        ICEBERG_AVRO_PHYSICAL_TYPE_INT32 \<Rightarrow> ''int''
      | ICEBERG_AVRO_PHYSICAL_TYPE_INT64 \<Rightarrow> ''long''
      | ICEBERG_AVRO_PHYSICAL_TYPE_STRING \<Rightarrow> ''string''
      | ICEBERG_AVRO_PHYSICAL_TYPE_BINARY \<Rightarrow> ''bytes''
      | ICEBERG_AVRO_PHYSICAL_TYPE_FLOAT \<Rightarrow> ''float''
      | ICEBERG_AVRO_PHYSICAL_TYPE_DOUBLE \<Rightarrow> ''double''
      | ICEBERG_AVRO_PHYSICAL_TYPE_BOOL \<Rightarrow> ''boolean'')"

definition IcebergAvroLogicalTypeName :: "IcebergScalarAvroType \<Rightarrow> string option" where
  "IcebergAvroLogicalTypeName value_type =
     (case logical_type value_type of
        ICEBERG_AVRO_LOGICAL_TYPE_DATE \<Rightarrow> Some ''date''
      | ICEBERG_AVRO_LOGICAL_TYPE_TIMESTAMP \<Rightarrow> Some ''timestamp''
      | ICEBERG_AVRO_LOGICAL_TYPE_TIME \<Rightarrow> Some ''time''
      | ICEBERG_AVRO_LOGICAL_TYPE_UUID \<Rightarrow> Some ''uuid''
      | ICEBERG_AVRO_LOGICAL_TYPE_DECIMAL \<Rightarrow> Some ''decimal''
      | ICEBERG_AVRO_LOGICAL_TYPE_NONE \<Rightarrow> None)"

definition IcebergAvroTypeSchemaString :: "IcebergScalarAvroType \<Rightarrow> string" where
  "IcebergAvroTypeSchemaString t =
     (let physicalType = IcebergAvroPhysicalTypeName t in
      case IcebergAvroLogicalTypeName t of
        None \<Rightarrow> ''\"'' @ physicalType @ ''\"''
      | Some logicalType \<Rightarrow>
          ''{'' @ ''\"type\": \"'' @ physicalType @ ''\",'' @ ''\"logicalType\": \"'' @ logicalType @ ''\"'' @
          (if logicalType = ''decimal''
           then '','' @ ''\"scale\": '' @ int_digits (avro_scale t) @ '','' @ ''\"precision\": '' @ int_digits (avro_precision t)
           else []) @ ''}'')"


section \<open>Manifests\<close>

definition IsManifestOfFileContentAdd :: "IcebergManifest \<Rightarrow> bool" where
  "IsManifestOfFileContentAdd manifest \<longleftrightarrow> m_content manifest = ICEBERG_MANIFEST_FILE_CONTENT_DATA"

definition IsManifestOfFileContentDeletes :: "IcebergManifest \<Rightarrow> bool" where
  "IsManifestOfFileContentDeletes manifest \<longleftrightarrow> m_content manifest = ICEBERG_MANIFEST_FILE_CONTENT_DELETES"

definition FetchManifestsFromSnapshot ::
  "object_store \<Rightarrow> IcebergSnapshot option \<Rightarrow> (IcebergManifest \<Rightarrow> bool) option \<Rightarrow> IcebergManifest list result" where
  "FetchManifestsFromSnapshot st snapshot manifestPredicateFn =
     (case snapshot of
        None \<Rightarrow> Inr []
      | Some snap \<Rightarrow>
          result_bind (ReadIcebergManifests st (manifest_list snap)) (\<lambda>manifests.
          Inr (filter (keep_if manifestPredicateFn) manifests)))"

definition UploadIcebergManifestToURI ::
  "manifest_env \<Rightarrow> IcebergManifestEntry list \<Rightarrow> string \<Rightarrow> write_state \<Rightarrow> (int \<times> write_state) result" where
  "UploadIcebergManifestToURI env manifestEntries manifestURI ws =
     (let autoDeleteRecord = False in
      result_bind (ScheduleFileCopyToS3WithCleanup manifestURI autoDeleteRecord ws) (\<lambda>ws.
      Inr (GetLocalManifestSize env manifestEntries,
           ws\<lparr>ws_store := (ws_store ws)\<lparr>manifest_files := (manifest_files (ws_store ws))(manifestURI \<mapsto> manifestEntries)\<rparr>\<rparr>)))"

definition GenerateRemoteManifestPath :: "string \<Rightarrow> string \<Rightarrow> nat \<Rightarrow> string \<Rightarrow> string" where
  "GenerateRemoteManifestPath loc uuid index queryArguments =
     loc @ ''/metadata/'' @ uuid @ ''-m'' @ nat_digits index @ ''.avro'' @ queryArguments"

definition count_entry :: "IcebergManifest \<Rightarrow> IcebergManifestEntry \<Rightarrow> IcebergManifest" where
  "count_entry manifest entry =
     (let rows = record_count (data_file entry) in
      case status entry of
        ICEBERG_MANIFEST_ENTRY_STATUS_ADDED \<Rightarrow>
          manifest\<lparr>added_files_count := added_files_count manifest + 1,
                   added_rows_count := added_rows_count manifest + rows\<rparr>
      | ICEBERG_MANIFEST_ENTRY_STATUS_EXISTING \<Rightarrow>
          manifest\<lparr>existing_files_count := existing_files_count manifest + 1,
                   existing_rows_count := existing_rows_count manifest + rows\<rparr>
      | ICEBERG_MANIFEST_ENTRY_STATUS_DELETED \<Rightarrow>
          manifest\<lparr>deleted_files_count := deleted_files_count manifest + 1,
                   deleted_rows_count := deleted_rows_count manifest + rows\<rparr>)"

definition SetManifestFileAndRowCounts :: "IcebergManifest \<Rightarrow> IcebergManifestEntry list \<Rightarrow> IcebergManifest" where
  "SetManifestFileAndRowCounts manifest manifestEntries = foldl count_entry manifest manifestEntries"

text \<open>The running minimum and maximum of one partition field over the data files.\<close>

fun summary_loop ::
  "manifest_env \<Rightarrow> nat \<Rightarrow> string \<Rightarrow> PGType \<Rightarrow> DataFile list \<Rightarrow> datum option \<Rightarrow> datum option \<Rightarrow> (datum option \<times> datum option) result" where
  "summary_loop env i resultField pgType [] minB maxB = Inr (minB, maxB)"
| "summary_loop env i resultField pgType (df # dfs) minB maxB =
     (if i \<ge> length (df_partition df) then Inl Trap
      else case pf_value (df_partition df ! i) of
        None \<Rightarrow> summary_loop env i resultField pgType dfs minB maxB
      | Some v \<Rightarrow>
          result_bind (PGIcebergBinaryDeserialize (env_io env) v resultField pgType) (\<lambda>d.
          result_bind (case minB of None \<Rightarrow> Inr True | Some m \<Rightarrow> IsDatumLessThan (env_lt env) d m pgType) (\<lambda>less.
          let minB = (if less then Some d else minB) in
          result_bind (case maxB of None \<Rightarrow> Inr True | Some m \<Rightarrow> IsDatumGreaterThan (env_gt env) d m pgType) (\<lambda>greater.
          let maxB = (if greater then Some d else maxB) in
          summary_loop env i resultField pgType dfs minB maxB))))"

definition serialize_bound :: "manifest_env \<Rightarrow> string \<Rightarrow> PGType \<Rightarrow> datum option \<Rightarrow> bytes option result" where
  "serialize_bound env resultField pgType b =
     (case b of None \<Rightarrow> Inr None
      | Some d \<Rightarrow> PGIcebergBinarySerializeBoundValue (env_io env) d resultField pgType)"

definition GetPartitionFieldSummaryFromDataFiles ::
  "manifest_env \<Rightarrow> DataFile list \<Rightarrow> nat \<Rightarrow> string \<Rightarrow> PGType \<Rightarrow> FieldSummary result" where
  "GetPartitionFieldSummaryFromDataFiles env dataFiles partitionFieldIndex resultField pgType =
     result_bind (summary_loop env partitionFieldIndex resultField pgType dataFiles None None) (\<lambda>(minB, maxB).
     result_bind (serialize_bound env resultField pgType minB) (\<lambda>lower.
     result_bind (serialize_bound env resultField pgType maxB) (\<lambda>upper.
     Inr \<lparr>contains_null = True, contains_nan = True, lower_bound = lower, upper_bound = upper\<rparr>)))"

text \<open>The summary of one partition field of the manifest.\<close>

definition partition_field_summary ::
  "manifest_env \<Rightarrow> IcebergPartitionTransform list \<Rightarrow> DataFile list \<Rightarrow> nat \<Rightarrow> FieldSummary result" where
  "partition_field_summary env transforms dataFiles partitionFieldIdx =
     (let partFieldId = pf_field_id (df_partition (hd dataFiles) ! partitionFieldIdx) in
      result_bind (FindPartitionTransformById transforms partFieldId True) (\<lambda>tr.
      case tr of
        None \<Rightarrow> Inl Trap
      | Some transform \<Rightarrow>
          result_bind (PostgresBaseTypeIdToIcebergTypeName (env_catalog env) (resultPgType transform)) (\<lambda>resultField.
          GetPartitionFieldSummaryFromDataFiles env dataFiles partitionFieldIdx resultField (resultPgType transform))))"

definition SetManifestPartitionSummary ::
  "manifest_env \<Rightarrow> IcebergManifest \<Rightarrow> IcebergManifestEntry list \<Rightarrow> IcebergPartitionTransform list \<Rightarrow> IcebergManifest result" where
  "SetManifestPartitionSummary env manifest manifestEntries transforms =
     (let dataFiles = map data_file manifestEntries in
      if dataFiles = [] then Inr (manifest\<lparr>m_partitions := []\<rparr>)
      else
        let nPartitionFields = length (df_partition (hd dataFiles)) in
        if nPartitionFields = 0 then Inr (manifest\<lparr>m_partitions := []\<rparr>)
        else if transforms = []
        then Inl (InternalError ''No partition transforms provided for manifest partition summary'')
        else
          result_bind (result_map (partition_field_summary env transforms dataFiles) [0..<nPartitionFields]) (\<lambda>partitionSummaries.
          Inr (manifest\<lparr>m_partitions := partitionSummaries\<rparr>)))"

definition CreateNewIcebergManifest ::
  "manifest_env \<Rightarrow> IcebergSnapshot \<Rightarrow> int \<Rightarrow> IcebergPartitionTransform list \<Rightarrow> int \<Rightarrow> IcebergManifestContentType \<Rightarrow> string
     \<Rightarrow> IcebergManifestEntry list \<Rightarrow> IcebergManifest result" where
  "CreateNewIcebergManifest env snapshot partitionSpecId allTransforms manifestFileSize contentType manifestPath manifestEntries =
     (let newManifest =
        \<lparr>manifest_path = manifestPath, manifest_length = manifestFileSize, partition_spec_id = partitionSpecId,
         m_content = contentType, m_sequence_number = sequence_number snapshot, min_sequence_number = 0,
         added_snapshot_id = snapshot_id snapshot, added_files_count = 0, existing_files_count = 0,
         deleted_files_count = 0, added_rows_count = 0, existing_rows_count = 0, deleted_rows_count = 0,
         m_partitions = [], m_key_metadata = None\<rparr>;
          newManifest = SetManifestFileAndRowCounts newManifest manifestEntries
      in SetManifestPartitionSummary env newManifest manifestEntries allTransforms)"

text \<open>A new manifest is written to the next path of the snapshot; the header lives at a new address.\<close>

definition alloc_manifest :: "IcebergManifest \<Rightarrow> write_state \<Rightarrow> manifest_ptr \<times> write_state" where
  "alloc_manifest m ws = ((next_address ws, m), ws\<lparr>next_address := Suc (next_address ws)\<rparr>)"

definition UploadIcebergManifestListToURI ::
  "IcebergManifest list \<Rightarrow> string \<Rightarrow> write_state \<Rightarrow> write_state result" where
  "UploadIcebergManifestListToURI manifests manifestListURI ws =
     (let autoDeleteRecord = True in
      result_bind (ScheduleFileCopyToS3WithCleanup manifestListURI autoDeleteRecord ws) (\<lambda>ws.
      Inr (ws\<lparr>ws_store := (ws_store ws)\<lparr>manifest_list_files := (manifest_list_files (ws_store ws))(manifestListURI \<mapsto> manifests)\<rparr>\<rparr>)))"

definition GenerateRemoteManifestListPath :: "int \<Rightarrow> string \<Rightarrow> string \<Rightarrow> nat \<Rightarrow> string \<Rightarrow> string" where
  "GenerateRemoteManifestListPath snapshotId loc uuid manifestListIndex queryArguments =
     loc @ ''/metadata/snap-'' @ int_digits snapshotId @ ''-'' @ nat_digits manifestListIndex @ ''-'' @ uuid @ ''.avro'' @ queryArguments"

end
