(* ===== verification/Snapshot.thy ===== *)
theory Snapshot
  imports Manifest
begin

text \<open>
  \<^verbatim>\<open>pg_lake_iceberg/src/iceberg/api/snapshot.c\<close> and \<^verbatim>\<open>datafile.c\<close>: the current snapshot of a table, new
  snapshots and the data files a snapshot reaches.  The clock and the random UUID are arguments.
\<close>

section \<open>Snapshots\<close>

definition IsCurrentSnapshot :: "IcebergTableMetadata \<Rightarrow> IcebergSnapshot \<Rightarrow> bool" where
  "IsCurrentSnapshot metadata snapshot \<longleftrightarrow> snapshot_id snapshot = current_snapshot_id metadata"

definition FetchSnapshotsFromTableMetadata ::
  "IcebergTableMetadata option \<Rightarrow> (IcebergTableMetadata \<Rightarrow> IcebergSnapshot \<Rightarrow> bool) option \<Rightarrow> IcebergSnapshot list result" where
  "FetchSnapshotsFromTableMetadata metadata snapshotPredicateFn =
     (case metadata of
        None \<Rightarrow> Inl (InternalError ''table metadata is NULL'')
      | Some md \<Rightarrow> Inr (filter (\<lambda>s. case snapshotPredicateFn of None \<Rightarrow> True | Some p \<Rightarrow> p md s) (snapshots md)))"

definition GetCurrentSnapshot :: "IcebergTableMetadata option \<Rightarrow> bool \<Rightarrow> IcebergSnapshot option result" where
  "GetCurrentSnapshot metadata missingOk =
     (case metadata of
        None \<Rightarrow> Inl (InternalError ''table metadata is NULL'')
      | Some md \<Rightarrow>
          result_bind (FetchSnapshotsFromTableMetadata metadata (Some IsCurrentSnapshot)) (\<lambda>snaps.
          if length snaps > 1 then Inl (InternalError ''Multiple current snapshots found'')
          else if length snaps = 0 \<and> \<not> missingOk then Inl (InternalError ''No current snapshot found'')
          else if length snaps = 0 then Inr None
          else Inr (Some (hd snaps))))"

fun find_snapshot :: "IcebergSnapshot list \<Rightarrow> u64 \<Rightarrow> IcebergSnapshot result" where
  "find_snapshot [] snapshotId = Inl (InternalError ''snapshot with id not found'')"
| "find_snapshot (snap # snaps) snapshotId =
     (if word_of_int (snapshot_id snap) = snapshotId then Inr snap else find_snapshot snaps snapshotId)"

definition GetIcebergSnapshotViaId :: "IcebergTableMetadata \<Rightarrow> u64 \<Rightarrow> IcebergSnapshot result" where
  "GetIcebergSnapshotViaId metadata snapshotId = find_snapshot (snapshots metadata) snapshotId"

text \<open>The id of a new snapshot from the sixteen bytes of a random UUID.\<close>

definition be_word :: "bytes \<Rightarrow> u64" where
  "be_word bs =
     push_bit 56 (ucast (bs ! 0)) OR push_bit 48 (ucast (bs ! 1)) OR push_bit 40 (ucast (bs ! 2)) OR
     push_bit 32 (ucast (bs ! 3)) OR push_bit 24 (ucast (bs ! 4)) OR push_bit 16 (ucast (bs ! 5)) OR
     push_bit 8 (ucast (bs ! 6)) OR ucast (bs ! 7)"

definition GenerateIcebergSnapshotId :: "bytes \<Rightarrow> int" where
  "GenerateIcebergSnapshotId uuid =
     (let mostSignificantBits = be_word (take 8 uuid);
          leastSignificantBits = be_word (drop 8 uuid)
      in sint ((mostSignificantBits XOR leastSignificantBits) AND 0x7FFFFFFFFFFFFFFF))"

definition CreateNewIcebergSnapshot :: "bytes \<Rightarrow> int \<Rightarrow> IcebergTableMetadata \<Rightarrow> IcebergSnapshot result" where
  "CreateNewIcebergSnapshot uuid now metadata =
     result_bind (GetCurrentSnapshot (Some metadata) True) (\<lambda>currentSnapshot.
     case currentSnapshot of
       None \<Rightarrow> Inr \<lparr>snapshot_id = GenerateIcebergSnapshotId uuid, parent_snapshot_id = - 1,
           sequence_number = last_sequence_number metadata, timestamp_ms = now, manifest_list = [], summary = [],
           snap_schema_id = current_schema_id metadata, schema_id_set = True\<rparr>
     | Some current \<Rightarrow> Inr \<lparr>snapshot_id = GenerateIcebergSnapshotId uuid, parent_snapshot_id = snapshot_id current,
           sequence_number = last_sequence_number metadata, timestamp_ms = now, manifest_list = [], summary = [],
           snap_schema_id = snap_schema_id current, schema_id_set = True\<rparr>)"


section \<open>Data files\<close>

definition FetchDataFilesFromManifestEntry ::
  "IcebergManifestEntry option \<Rightarrow> (DataFile \<Rightarrow> bool) option \<Rightarrow> DataFile list result" where
  "FetchDataFilesFromManifestEntry manifestEntry dataFilePredicateFn =
     (case manifestEntry of
        None \<Rightarrow> Inl (InternalError ''manifest entry is NULL'')
      | Some e \<Rightarrow> Inr (if keep_if dataFilePredicateFn (data_file e) then [data_file e] else []))"

text \<open>With \<^verbatim>\<open>pathOnly\<close> the list holds paths instead of data files.\<close>

datatype file_item = FilePath string | FileStruct DataFile

definition FetchDataFilesFromManifest ::
  "object_store \<Rightarrow> IcebergManifest \<Rightarrow> bool \<Rightarrow> (IcebergManifestEntry \<Rightarrow> bool) option \<Rightarrow> (DataFile \<Rightarrow> bool) option \<Rightarrow> file_item list result" where
  "FetchDataFilesFromManifest st manifest pathOnly manifestEntryPredicateFn dataFilePredicateFn =
     result_bind (FetchManifestEntriesFromManifest st manifest manifestEntryPredicateFn) (\<lambda>manifestEntries.
     Inr (map (\<lambda>e. if pathOnly then FilePath (file_path (data_file e)) else FileStruct (data_file e))
          (filter (\<lambda>e. keep_if dataFilePredicateFn (data_file e)) manifestEntries)))"

definition fetch_from_snapshot ::
  "object_store \<Rightarrow> bool \<Rightarrow> IcebergSnapshot option \<Rightarrow> (IcebergManifest \<Rightarrow> bool) option \<Rightarrow> (IcebergManifestEntry \<Rightarrow> bool) option
     \<Rightarrow> (DataFile \<Rightarrow> bool) option \<Rightarrow> file_item list result" where
  "fetch_from_snapshot st pathOnly snapshot manifestPredicateFn manifestEntryPredicateFn dataFilePredicateFn =
     result_bind (FetchManifestsFromSnapshot st snapshot manifestPredicateFn) (\<lambda>manifests.
     result_bind (result_map (\<lambda>m. FetchDataFilesFromManifest st m pathOnly manifestEntryPredicateFn dataFilePredicateFn) manifests)
       (\<lambda>lists. Inr (concat lists)))"

definition FetchDataFilesFromSnapshot where
  "FetchDataFilesFromSnapshot st snapshot manifestPredicateFn manifestEntryPredicateFn dataFilePredicateFn =
     fetch_from_snapshot st False snapshot manifestPredicateFn manifestEntryPredicateFn dataFilePredicateFn"

definition FetchDataFilePathsFromSnapshot where
  "FetchDataFilePathsFromSnapshot st snapshot manifestPredicateFn manifestEntryPredicateFn dataFilePredicateFn =
     fetch_from_snapshot st True snapshot manifestPredicateFn manifestEntryPredicateFn dataFilePredicateFn"

definition FetchAllDataAndDeleteFilesFromCurrentSnapshot ::
  "object_store \<Rightarrow> IcebergTableMetadata option \<Rightarrow> (file_item list \<times> file_item list) result" where
  "FetchAllDataAndDeleteFilesFromCurrentSnapshot st metadata =
     (case metadata of
        None \<Rightarrow> Inl (InternalError ''table metadata is NULL'')
      | Some md \<Rightarrow>
          result_bind (GetCurrentSnapshot metadata True) (\<lambda>snapshot.
          result_bind (FetchDataFilesFromSnapshot st snapshot (Some IsManifestOfFileContentAdd)
            (Some IsManifestEntryStatusScannable) None) (\<lambda>dataFiles.
          result_bind (FetchDataFilesFromSnapshot st snapshot (Some IsManifestOfFileContentDeletes)
            (Some IsManifestEntryStatusScannable) None) (\<lambda>deleteFiles.
          Inr (dataFiles, deleteFiles)))))"

fun item_path :: "file_item \<Rightarrow> string" where
  "item_path (FilePath p) = p"
| "item_path (FileStruct df) = file_path df"

definition FetchAllDataAndDeleteFilePathsFromCurrentSnapshot ::
  "object_store \<Rightarrow> IcebergTableMetadata option \<Rightarrow> (string list \<times> string list) result" where
  "FetchAllDataAndDeleteFilePathsFromCurrentSnapshot st metadata =
     result_bind (FetchAllDataAndDeleteFilesFromCurrentSnapshot st metadata) (\<lambda>(dataFiles, deleteFiles).
     Inr (map item_path dataFiles, map item_path deleteFiles))"


section \<open>What the object store holds\<close>

text \<open>The entries of a manifest and the manifests of a snapshot, none when the file is missing.\<close>

definition entries_of :: "object_store \<Rightarrow> IcebergManifest \<Rightarrow> IcebergManifestEntry list" where
  "entries_of st m = (case manifest_files st (manifest_path m) of None \<Rightarrow> [] | Some es \<Rightarrow> es)"

definition manifests_of :: "object_store \<Rightarrow> IcebergSnapshot \<Rightarrow> IcebergManifest list" where
  "manifests_of st s = (case manifest_list_files st (manifest_list s) of None \<Rightarrow> [] | Some ms \<Rightarrow> ms)"

definition live_paths :: "object_store \<Rightarrow> IcebergManifest \<Rightarrow> string set" where
  "live_paths st m = (file_path \<circ> data_file) ` set (filter IsManifestEntryStatusScannable (entries_of st m))"


section \<open>Sample values\<close>

text \<open>Small values at which the properties are applied.\<close>

definition sample_file :: "string \<Rightarrow> DataFile" where
  "sample_file path =
     \<lparr>df_content = ICEBERG_DATA_FILE_CONTENT_DATA, file_path = path, file_format = ''PARQUET'', df_partition = [],
      record_count = 10, file_size_in_bytes = 100, column_sizes = [], value_counts = [], null_value_counts = [],
      nan_value_counts = [], lower_bounds = [], upper_bounds = [], df_key_metadata = None, split_offsets = [],
      equality_ids = [], sort_order_id = None\<rparr>"

definition sample_entry :: "IcebergManifestEntryStatus \<Rightarrow> string \<Rightarrow> IcebergManifestEntry" where
  "sample_entry st path =
     \<lparr>status = st, has_snapshot_id = True, me_snapshot_id = 1, has_sequence_number = True, me_sequence_number = 1,
      has_file_sequence_number = False, file_sequence_number = 0, data_file = sample_file path\<rparr>"

definition sample_manifest :: "string \<Rightarrow> IcebergManifest" where
  "sample_manifest path =
     \<lparr>manifest_path = path, manifest_length = 1000, partition_spec_id = 0, m_content = ICEBERG_MANIFEST_FILE_CONTENT_DATA,
      m_sequence_number = 1, min_sequence_number = 0, added_snapshot_id = 1, added_files_count = 1,
      existing_files_count = 0, deleted_files_count = 0, added_rows_count = 10, existing_rows_count = 0,
      deleted_rows_count = 0, m_partitions = [], m_key_metadata = None\<rparr>"

definition sample_snapshot :: "int \<Rightarrow> string \<Rightarrow> IcebergSnapshot" where
  "sample_snapshot sid path =
     \<lparr>snapshot_id = sid, parent_snapshot_id = sid - 1, sequence_number = sid, timestamp_ms = 1000 * sid,
      manifest_list = path, summary = [], snap_schema_id = 0, schema_id_set = True\<rparr>"

text \<open>Two snapshots: the first has the files \<open>d1\<close> and \<open>d2\<close>, the second only \<open>d2\<close>.\<close>

definition sample_store :: object_store where
  "sample_store =
     \<lparr>manifest_files = [''m1'' \<mapsto> [sample_entry ICEBERG_MANIFEST_ENTRY_STATUS_ADDED ''d1''],
                       ''m2'' \<mapsto> [sample_entry ICEBERG_MANIFEST_ENTRY_STATUS_ADDED ''d2''],
                       ''m3'' \<mapsto> [sample_entry ICEBERG_MANIFEST_ENTRY_STATUS_DELETED ''d1'']],
      manifest_list_files = [''l1'' \<mapsto> [sample_manifest ''m1'', sample_manifest ''m2''],
                            ''l2'' \<mapsto> [sample_manifest ''m2'', sample_manifest ''m3'']]\<rparr>"



section \<open>Properties\<close>

text \<open>a generated snapshot id is never negative (negative ids mean "no snapshot").\<close>

theorem GenerateIcebergSnapshotId_nonneg: "0 \<le> GenerateIcebergSnapshotId uuid"
proof -
  define w where "w = be_word (take 8 uuid) XOR be_word (drop 8 uuid)"
  have m: "(0x7FFFFFFFFFFFFFFF :: u64) = mask 63" by (simp add: mask_eq_exp_minus_1)
  have "\<not> bit (w AND mask 63) (LENGTH(64) - Suc 0)" by (simp add: bit_and_iff bit_mask_iff)
  then have "\<not> sint (w AND mask 63) < 0" by (simp only: bit_last_iff not_False_eq_True)
  then show ?thesis unfolding GenerateIcebergSnapshotId_def Let_def w_def m by linarith
qed

end
