(* ===== verification/Manifest_Merge.thy ===== *)
theory Manifest_Merge
  imports Snapshot
begin

text \<open>
  \<^verbatim>\<open>pg_lake_iceberg/src/iceberg/operations/manifest_merge.c\<close>: dropping entries that earlier snapshots
  deleted, and merging small data manifests of the same partition spec by best-fit bin packing.
  A dynahash table keyed by an integer is an association list in order of insertion; the order of
  \<^verbatim>\<open>hash_seq_search\<close> is the parameter \<open>hash_seq_order\<close> of the environment.
\<close>

section \<open>Hash tables\<close>

fun hash_append :: "(int \<times> 'a list) list \<Rightarrow> int \<Rightarrow> 'a \<Rightarrow> (int \<times> 'a list) list" where
  "hash_append [] k x = [(k, [x])]"
| "hash_append ((k', xs) # ht) k x = (if k' = k then (k', xs @ [x]) # ht else (k', xs) # hash_append ht k x)"

definition hash_seq :: "manifest_env \<Rightarrow> (int \<times> 'a list) list \<Rightarrow> (int \<times> 'a list) list" where
  "hash_seq env ht = concat (map (\<lambda>k. filter (\<lambda>e. fst e = k) ht) (hash_seq_order env (map fst ht)))"


section \<open>Dropping deleted entries\<close>

text \<open>\<open>None\<close> is a manifest set to \<^verbatim>\<open>NULL\<close>.  The flag tells whether the manifest was modified.\<close>

definition RemoveDeletedManifestEntriesInternal ::
  "manifest_env \<Rightarrow> manifest_ptr \<Rightarrow> IcebergSnapshot option \<Rightarrow> IcebergPartitionTransform list \<Rightarrow> IcebergManifestContentType
     \<Rightarrow> write_state \<Rightarrow> (manifest_ptr option \<times> bool \<times> write_state) result" where
  "RemoveDeletedManifestEntriesInternal env manifest currentSnapshot allTransforms contentType ws =
     result_bind (FetchManifestEntriesFromManifest (ws_store ws) (snd manifest) None) (\<lambda>manifestEntries.
     let newManifestEntries = filter (\<lambda>e. status e \<noteq> ICEBERG_MANIFEST_ENTRY_STATUS_DELETED) manifestEntries in
     if newManifestEntries = [] then Inr (None, True, ws)
     else if length newManifestEntries \<noteq> length manifestEntries then
       case currentSnapshot of
         None \<Rightarrow> Inl Trap
       | Some snapshot \<Rightarrow>
           let remoteManifestPath = GenerateRemoteManifestPath (metadataLocation env) (snapshotUUID env) (manifestIndex ws) [];
               ws = ws\<lparr>manifestIndex := manifestIndex ws + 1\<rparr>
           in result_bind (UploadIcebergManifestToURI env newManifestEntries remoteManifestPath ws) (\<lambda>(manifestSize, ws).
              result_bind (CreateNewIcebergManifest env snapshot (partition_spec_id (snd manifest)) allTransforms
                manifestSize contentType remoteManifestPath newManifestEntries) (\<lambda>newManifest.
              case alloc_manifest newManifest ws of (ptr, ws) \<Rightarrow> Inr (Some ptr, True, ws)))
     else Inr (Some manifest, False, ws))"

fun RemoveDeletedManifestEntries ::
  "manifest_env \<Rightarrow> IcebergSnapshot option \<Rightarrow> IcebergPartitionTransform list \<Rightarrow> manifest_ptr list \<Rightarrow> IcebergManifestContentType
     \<Rightarrow> write_state \<Rightarrow> (manifest_ptr list \<times> bool \<times> write_state) result" where
  "RemoveDeletedManifestEntries env currentSnapshot allTransforms [] contentType ws = Inr ([], False, ws)"
| "RemoveDeletedManifestEntries env currentSnapshot allTransforms (manifest # manifests) contentType ws =
     result_bind (RemoveDeletedManifestEntriesInternal env manifest currentSnapshot allTransforms contentType ws)
       (\<lambda>(manifest, modified, ws).
     result_bind (RemoveDeletedManifestEntries env currentSnapshot allTransforms manifests contentType ws)
       (\<lambda>(resultManifests, anyManifestModified, ws).
     Inr ((case manifest of None \<Rightarrow> resultManifests | Some m \<Rightarrow> m # resultManifests), modified \<or> anyManifestModified, ws)))"


section \<open>Grouping\<close>

record ManifestGroup =
  group_manifests :: "manifest_ptr list"
  group_partitionSpecId :: int
  totalSize :: int

definition GroupManifestsByPartitionSpecId :: "manifest_ptr list \<Rightarrow> (int \<times> manifest_ptr list) list" where
  "GroupManifestsByPartitionSpecId manifests =
     foldl (\<lambda>ht m. hash_append ht (partition_spec_id (snd m)) m) [] manifests"

text \<open>The index of the group with the least remaining space, \<open>None\<close> when the manifest fits nowhere.\<close>

fun best_fit_loop :: "ManifestGroup list \<Rightarrow> nat \<Rightarrow> int \<Rightarrow> int \<Rightarrow> nat option \<Rightarrow> int \<Rightarrow> nat option" where
  "best_fit_loop [] i sz targetSize bestFitGroupIndex leastRemainingSize = bestFitGroupIndex"
| "best_fit_loop (grp # groups) i sz targetSize bestFitGroupIndex leastRemainingSize =
     (let candidateGroupSize = totalSize grp + sz in
      if candidateGroupSize \<le> targetSize \<and> targetSize - candidateGroupSize < leastRemainingSize
      then best_fit_loop groups (Suc i) sz targetSize (Some i) (targetSize - candidateGroupSize)
      else best_fit_loop groups (Suc i) sz targetSize bestFitGroupIndex leastRemainingSize)"

definition FindBestFitManifestGroupForManifest :: "ManifestGroup list \<Rightarrow> IcebergManifest \<Rightarrow> int \<Rightarrow> nat option" where
  "FindBestFitManifestGroupForManifest manifestGroups manifest targetSize =
     best_fit_loop manifestGroups 0 (manifest_length manifest) targetSize None INT64_MAX"

definition add_to_group :: "manifest_ptr \<Rightarrow> ManifestGroup \<Rightarrow> ManifestGroup" where
  "add_to_group manifest grp =
     grp\<lparr>group_manifests := group_manifests grp @ [manifest],
           totalSize := totalSize grp + manifest_length (snd manifest)\<rparr>"

definition place_manifest :: "int \<Rightarrow> ManifestGroup list \<Rightarrow> manifest_ptr \<Rightarrow> ManifestGroup list" where
  "place_manifest targetSize manifestGroups manifest =
     (case FindBestFitManifestGroupForManifest manifestGroups (snd manifest) targetSize of
        None \<Rightarrow> manifestGroups @ [add_to_group manifest
          \<lparr>group_manifests = [], group_partitionSpecId = partition_spec_id (snd manifest), totalSize = 0\<rparr>]
      | Some i \<Rightarrow> manifestGroups[i := add_to_group manifest (manifestGroups ! i)])"

definition CreateManifestGroupsWithTargetSize :: "manifest_ptr list \<Rightarrow> int \<Rightarrow> ManifestGroup list" where
  "CreateManifestGroupsWithTargetSize manifests targetSize = foldl (place_manifest targetSize) [] manifests"

definition IsMergeableManifestGroup :: "manifest_env \<Rightarrow> ManifestGroup \<Rightarrow> manifest_ptr \<Rightarrow> bool" where
  "IsMergeableManifestGroup env manifestGroup latestManifest =
     (if length (group_manifests manifestGroup) = 1 then False
      else if fst latestManifest \<in> set (map fst (group_manifests manifestGroup)) \<and>
              int (length (group_manifests manifestGroup)) < ManifestMinCountToMerge env then False
      else True)"

definition KB_BYTES :: int where "KB_BYTES = 1024"

definition target_size :: "manifest_env \<Rightarrow> int" where
  "target_size env = wrap32 (TargetManifestSizeKB env * KB_BYTES)"

definition HasMergeableManifests :: "manifest_env \<Rightarrow> manifest_ptr list \<Rightarrow> bool" where
  "HasMergeableManifests env dataManifests =
     (if dataManifests = [] then False
      else
        let latestManifest = last dataManifests
        in list_ex (\<lambda>(spec, manifests).
             list_ex (\<lambda>g. IsMergeableManifestGroup env g latestManifest)
               (CreateManifestGroupsWithTargetSize manifests (target_size env)))
             (hash_seq env (GroupManifestsByPartitionSpecId dataManifests)))"


section \<open>Merging\<close>

definition MergeManifestGroup ::
  "manifest_env \<Rightarrow> ManifestGroup \<Rightarrow> IcebergSnapshot \<Rightarrow> IcebergPartitionTransform list \<Rightarrow> nat \<Rightarrow> write_state
     \<Rightarrow> (manifest_ptr option \<times> write_state) result" where
  "MergeManifestGroup env mergeableManifestGroup currentSnapshot allTransforms mergedManifestIndex ws =
     result_bind (result_map (\<lambda>m.
         result_bind (FetchManifestEntriesFromManifest (ws_store ws) (snd m) None) (\<lambda>manifestEntries.
         Inr (SetExistingStatusForOldSnapshotAddedEntries manifestEntries (snapshot_id currentSnapshot))))
       (group_manifests mergeableManifestGroup)) (\<lambda>lists.
     let mergeableManifestEntries = concat lists in
     if mergeableManifestEntries = [] then Inr (None, ws)
     else
       let remoteManifestPath = GenerateRemoteManifestPath (metadataLocation env) (snapshotUUID env) mergedManifestIndex []
       in result_bind (UploadIcebergManifestToURI env mergeableManifestEntries remoteManifestPath ws) (\<lambda>(manifestSize, ws).
          result_bind (CreateNewIcebergManifest env currentSnapshot (group_partitionSpecId mergeableManifestGroup) allTransforms
            manifestSize ICEBERG_MANIFEST_FILE_CONTENT_DATA remoteManifestPath mergeableManifestEntries) (\<lambda>mergedManifest.
          case alloc_manifest mergedManifest ws of (ptr, ws) \<Rightarrow> Inr (Some ptr, ws))))"

text \<open>The loop over the groups: the merged manifests and the manifests left as they were.\<close>

fun merge_groups ::
  "manifest_env \<Rightarrow> ManifestGroup list \<Rightarrow> manifest_ptr \<Rightarrow> IcebergSnapshot \<Rightarrow> IcebergPartitionTransform list \<Rightarrow> write_state
     \<Rightarrow> (manifest_ptr list \<times> manifest_ptr list \<times> write_state) result" where
  "merge_groups env [] latestManifest currentSnapshot allTransforms ws = Inr ([], [], ws)"
| "merge_groups env (grp # groups) latestManifest currentSnapshot allTransforms ws =
     (if IsMergeableManifestGroup env grp latestManifest
      then result_bind (MergeManifestGroup env grp currentSnapshot allTransforms (manifestIndex ws) ws) (\<lambda>(mergedManifest, ws).
           case mergedManifest of
             None \<Rightarrow> merge_groups env groups latestManifest currentSnapshot allTransforms ws
           | Some m \<Rightarrow>
               result_bind (merge_groups env groups latestManifest currentSnapshot allTransforms
                 (ws\<lparr>manifestIndex := manifestIndex ws + 1\<rparr>)) (\<lambda>(merged, unmerged, ws).
               Inr (m # merged, unmerged, ws)))
      else result_bind (merge_groups env groups latestManifest currentSnapshot allTransforms ws) (\<lambda>(merged, unmerged, ws).
           Inr (merged, group_manifests grp @ unmerged, ws)))"

definition MergeDataManifests ::
  "manifest_env \<Rightarrow> IcebergSnapshot \<Rightarrow> IcebergPartitionTransform list \<Rightarrow> manifest_ptr list \<Rightarrow> write_state
     \<Rightarrow> (manifest_ptr list \<times> write_state) result" where
  "MergeDataManifests env currentSnapshot allTransforms dataManifests ws =
     (if dataManifests = [] then Inr ([], ws)
      else
        let latestManifest = last dataManifests;
            groups = concat (map (\<lambda>(spec, manifests). CreateManifestGroupsWithTargetSize manifests (target_size env))
              (hash_seq env (GroupManifestsByPartitionSpecId dataManifests)))
        in result_bind (merge_groups env groups latestManifest currentSnapshot allTransforms ws) (\<lambda>(merged, unmerged, ws).
           Inr (merged @ unmerged, ws)))"

end
