(* ===== verification/Manifest_State.thy ===== *)
theory Manifest_State
  imports Manifest_Merge
begin

text \<open>
  What a list of manifests means: the data files its live entries reach in the object store, and the
  invariant under which the commit code manipulates such lists.  The locale \<open>manifest_step\<close> is the
  contract between the commit (\<^verbatim>\<open>FinalizeNewSnapshot\<close>) and the routines that rewrite a manifest list; its
  lemmas are what the commit relies on, and the routines of \<^verbatim>\<open>manifest_merge.c\<close> are interpretations.
\<close>

section \<open>Live files of a manifest list\<close>

definition all_entries :: "object_store \<Rightarrow> manifest_ptr list \<Rightarrow> IcebergManifestEntry list" where
  "all_entries st ms = concat (map (\<lambda>m. entries_of st (snd m)) ms)"

definition live_of :: "IcebergManifestEntry list \<Rightarrow> DataFile multiset" where
  "live_of es = mset (map data_file (filter IsManifestEntryStatusScannable es))"

definition live_files :: "object_store \<Rightarrow> manifest_ptr list \<Rightarrow> DataFile multiset" where
  "live_files st ms = live_of (all_entries st ms)"

definition all_files :: "object_store \<Rightarrow> manifest_ptr list \<Rightarrow> DataFile set" where
  "all_files st ms = data_file ` set (all_entries st ms)"

lemma live_of_append [simp]: "live_of (xs @ ys) = live_of xs + live_of ys"
  by (simp add: live_of_def)

lemma live_of_Nil [simp]: "live_of [] = {#}"
  by (simp add: live_of_def)

lemma live_of_Cons: "live_of (e # es) = live_of [e] + live_of es"
  by (simp add: live_of_def)

lemma live_of_filter_not_deleted:
  "live_of (filter (\<lambda>e. status e \<noteq> ICEBERG_MANIFEST_ENTRY_STATUS_DELETED) es) = live_of es"
  by (simp add: live_of_def IsManifestEntryStatusScannable_def)

lemma live_of_SetExisting: "live_of (SetExistingStatusForOldSnapshotAddedEntries es sid) = live_of es"
  by (induction es)
     (auto simp: live_of_def SetExistingStatusForOldSnapshotAddedEntries_def SetExistingStatus_def IsManifestEntryStatusScannable_def)

lemma files_SetExisting [simp]:
  "map data_file (SetExistingStatusForOldSnapshotAddedEntries es sid) = map data_file es"
  by (simp add: SetExistingStatusForOldSnapshotAddedEntries_def SetExistingStatus_def)

lemma all_entries_simps [simp]:
  "all_entries st [] = []"
  "all_entries st (m # ms) = entries_of st (snd m) @ all_entries st ms"
  "all_entries st (ms @ ms') = all_entries st ms @ all_entries st ms'"
  by (simp_all add: all_entries_def)

lemma live_files_simps [simp]:
  "live_files st [] = {#}"
  "live_files st (m # ms) = live_of (entries_of st (snd m)) + live_files st ms"
  "live_files st (ms @ ms') = live_files st ms + live_files st ms'"
  by (simp_all add: live_files_def)

lemma all_files_simps [simp]:
  "all_files st [] = {}"
  "all_files st (m # ms) = data_file ` set (entries_of st (snd m)) \<union> all_files st ms"
  "all_files st (ms @ ms') = all_files st ms \<union> all_files st ms'"
  by (auto simp: all_files_def)

lemma live_files_mset: "mset ms = mset ms' \<Longrightarrow> live_files st ms = live_files st ms'"
proof -
  have "live_files st ms = (\<Sum>m\<in>#mset ms. live_of (entries_of st (snd m)))" for ms
    by (induction ms) simp_all
  then show "mset ms = mset ms' \<Longrightarrow> ?thesis" by simp
qed

lemma all_files_set: "set ms' \<subseteq> set ms \<Longrightarrow> all_files st ms' \<subseteq> all_files st ms"
  by (auto simp: all_files_def all_entries_def)


section \<open>The invariant of the write state\<close>

definition manifest_uri :: "manifest_env \<Rightarrow> nat \<Rightarrow> string" where
  "manifest_uri env i = GenerateRemoteManifestPath (metadataLocation env) (snapshotUUID env) i []"

text \<open>No path the commit will still generate is in use, and no address is beyond the next one.\<close>

definition state_ok :: "manifest_env \<Rightarrow> write_state \<Rightarrow> bool" where
  "state_ok env ws \<longleftrightarrow> (\<forall>i \<ge> manifestIndex ws. manifest_uri env i \<notin> set (PendingUploads ws))"

definition manifests_ok :: "manifest_env \<Rightarrow> IcebergManifestContentType \<Rightarrow> manifest_ptr list \<Rightarrow> write_state \<Rightarrow> bool" where
  "manifests_ok env content ms ws \<longleftrightarrow>
     (\<forall>m \<in> set ms. manifest_files (ws_store ws) (manifest_path (snd m)) \<noteq> None \<and>
        m_content (snd m) = content \<and> fst m < next_address ws \<and>
        (\<forall>i \<ge> manifestIndex ws. manifest_path (snd m) \<noteq> manifest_uri env i)) \<and>
     distinct (map fst ms)"

text \<open>How a write state may change: new files at the paths generated on the way, each scheduled for upload
  and recorded as in progress, and nothing else.\<close>

definition new_uris :: "manifest_env \<Rightarrow> write_state \<Rightarrow> write_state \<Rightarrow> string list" where
  "new_uris env ws ws' = map (manifest_uri env) [manifestIndex ws..<manifestIndex ws']"

definition extends :: "manifest_env \<Rightarrow> write_state \<Rightarrow> write_state \<Rightarrow> bool" where
  "extends env ws ws' \<longleftrightarrow>
     manifestIndex ws \<le> manifestIndex ws' \<and> next_address ws \<le> next_address ws' \<and>
     (\<forall>p. p \<notin> set (new_uris env ws ws') \<longrightarrow> manifest_files (ws_store ws') p = manifest_files (ws_store ws) p) \<and>
     manifest_list_files (ws_store ws') = manifest_list_files (ws_store ws) \<and>
     PendingUploads ws' = PendingUploads ws @ new_uris env ws ws' \<and>
     InProgressFiles ws' = InProgressFiles ws @ map (\<lambda>uri. (uri, False)) (new_uris env ws ws')"

lemma extends_refl [simp]: "extends env ws ws"
  by (simp add: extends_def new_uris_def)

lemma new_uris_trans:
  "manifestIndex ws \<le> manifestIndex ws' \<Longrightarrow> manifestIndex ws' \<le> manifestIndex ws'' \<Longrightarrow>
     new_uris env ws ws'' = new_uris env ws ws' @ new_uris env ws' ws''"
  unfolding new_uris_def by (metis map_append upt_add_eq_append le_add_diff_inverse)

lemma extends_trans [trans]:
  assumes "extends env ws ws'" "extends env ws' ws''"
  shows "extends env ws ws''"
proof -
  have u: "new_uris env ws ws'' = new_uris env ws ws' @ new_uris env ws' ws''"
    using assms by (intro new_uris_trans) (simp_all add: extends_def)
  show ?thesis using assms unfolding extends_def u by auto
qed

lemma extends_le: "extends env ws ws' \<Longrightarrow> manifestIndex ws \<le> manifestIndex ws' \<and> next_address ws \<le> next_address ws'"
  by (simp add: extends_def)

lemma not_new_uri:
  "\<forall>i \<ge> manifestIndex ws. p \<noteq> manifest_uri env i \<Longrightarrow> p \<notin> set (new_uris env ws ws')"
  by (auto simp: new_uris_def)

lemma entries_frame:
  assumes "manifests_ok env c ms ws" "extends env ws ws'" "m \<in> set ms"
  shows "manifest_files (ws_store ws') (manifest_path (snd m)) = manifest_files (ws_store ws) (manifest_path (snd m))"
    "entries_of (ws_store ws') (snd m) = entries_of (ws_store ws) (snd m)"
proof -
  show "manifest_files (ws_store ws') (manifest_path (snd m)) = manifest_files (ws_store ws) (manifest_path (snd m))"
    using assms not_new_uri [of ws "manifest_path (snd m)" env ws'] unfolding manifests_ok_def extends_def by blast
  then show "entries_of (ws_store ws') (snd m) = entries_of (ws_store ws) (snd m)" by (simp add: entries_of_def)
qed

lemma manifests_ok_frame:
  assumes "manifests_ok env c ms ws" "extends env ws ws'"
  shows "manifests_ok env c ms ws'" "live_files (ws_store ws') ms = live_files (ws_store ws) ms"
    "all_files (ws_store ws') ms = all_files (ws_store ws) ms"
proof -
  note same = entries_frame [OF assms]
  then have "all_entries (ws_store ws') ms = all_entries (ws_store ws) ms"
    by (auto simp: all_entries_def intro!: arg_cong [where f = concat])
  then show "live_files (ws_store ws') ms = live_files (ws_store ws) ms"
    "all_files (ws_store ws') ms = all_files (ws_store ws) ms"
    by (simp_all add: live_files_def all_files_def)
  show "manifests_ok env c ms ws'"
    using assms(1) same(1) extends_le [OF assms(2)] unfolding manifests_ok_def by (auto intro: le_trans order.strict_trans2)
qed

lemma manifests_ok_append:
  "manifests_ok env c (ms @ ms') ws \<longleftrightarrow>
     manifests_ok env c ms ws \<and> manifests_ok env c ms' ws \<and> fst ` set ms \<inter> fst ` set ms' = {}"
  by (auto simp: manifests_ok_def)

lemma manifests_ok_Cons:
  "manifests_ok env c (m # ms) ws \<longleftrightarrow>
     manifests_ok env c [m] ws \<and> manifests_ok env c ms ws \<and> fst m \<notin> fst ` set ms"
  by (auto simp: manifests_ok_def)

lemma manifests_ok_Nil [simp]: "manifests_ok env c [] ws"
  by (simp add: manifests_ok_def)

lemma read_entries_ok:
  "manifests_ok env c ms ws \<Longrightarrow> m \<in> set ms \<Longrightarrow>
     ReadManifestEntries (ws_store ws) (manifest_path (snd m)) = Inr (entries_of (ws_store ws) (snd m))"
  by (auto simp: manifests_ok_def ReadManifestEntries_def entries_of_def split: option.splits)

lemma fetch_entries_ok:
  "manifests_ok env c ms ws \<Longrightarrow> m \<in> set ms \<Longrightarrow>
     FetchManifestEntriesFromManifest (ws_store ws) (snd m) None = Inr (entries_of (ws_store ws) (snd m))"
  by (simp add: FetchManifestEntriesFromManifest_def read_entries_ok keep_if_def)

section \<open>Writing one manifest\<close>

lemma manifest_uri_inject [simp]: "manifest_uri env i = manifest_uri env j \<longleftrightarrow> i = j"
  by (simp add: manifest_uri_def GenerateRemoteManifestPath_def nat_digits_inject)

text \<open>The state after writing the entries to the next path and allocating a header.\<close>

definition pushed :: "manifest_env \<Rightarrow> IcebergManifestEntry list \<Rightarrow> write_state \<Rightarrow> write_state" where
  "pushed env es ws =
     (let uri = manifest_uri env (manifestIndex ws) in
      ws\<lparr>ws_store := (ws_store ws)\<lparr>manifest_files := (manifest_files (ws_store ws))(uri \<mapsto> es)\<rparr>,
         PendingUploads := PendingUploads ws @ [uri], InProgressFiles := InProgressFiles ws @ [(uri, False)],
         manifestIndex := Suc (manifestIndex ws), next_address := Suc (next_address ws)\<rparr>)"

lemma pushed_simps [simp]:
  "manifestIndex (pushed env es ws) = Suc (manifestIndex ws)"
  "next_address (pushed env es ws) = Suc (next_address ws)"
  "manifest_files (ws_store (pushed env es ws)) = (manifest_files (ws_store ws))(manifest_uri env (manifestIndex ws) \<mapsto> es)"
  "manifest_list_files (ws_store (pushed env es ws)) = manifest_list_files (ws_store ws)"
  "PendingUploads (pushed env es ws) = PendingUploads ws @ [manifest_uri env (manifestIndex ws)]"
  "InProgressFiles (pushed env es ws) = InProgressFiles ws @ [(manifest_uri env (manifestIndex ws), False)]"
  by (simp_all add: pushed_def Let_def)

lemma state_ok_pushed [simp]: "state_ok env ws \<Longrightarrow> state_ok env (pushed env es ws)"
  by (auto simp: state_ok_def)

lemma new_uris_pushed [simp]: "new_uris env ws (pushed env es ws) = [manifest_uri env (manifestIndex ws)]"
  by (simp add: new_uris_def)

lemma extends_pushed [simp]: "extends env ws (pushed env es ws)"
  by (simp add: extends_def)

lemma state_ok_extends: "state_ok env ws \<Longrightarrow> extends env ws ws' \<Longrightarrow> state_ok env ws'"
  by (auto simp: state_ok_def extends_def new_uris_def)

lemma pushed_entries [simp]:
  "manifest_path m = manifest_uri env (manifestIndex ws) \<Longrightarrow> entries_of (ws_store (pushed env es ws)) m = es"
  by (simp add: entries_of_def)

lemma pushed_manifest_ok:
  "manifest_path m = manifest_uri env (manifestIndex ws) \<Longrightarrow> m_content m = c \<Longrightarrow>
     manifests_ok env c [(next_address ws, m)] (pushed env es ws)"
  by (auto simp: manifests_ok_def)

lemma count_entry_frame [simp]:
  "manifest_path (count_entry m e) = manifest_path m" "m_content (count_entry m e) = m_content m"
  "partition_spec_id (count_entry m e) = partition_spec_id m" "manifest_length (count_entry m e) = manifest_length m"
  by (simp_all add: count_entry_def Let_def split: IcebergManifestEntryStatus.splits)

lemma counts_frame [simp]:
  "manifest_path (SetManifestFileAndRowCounts m es) = manifest_path m"
  "m_content (SetManifestFileAndRowCounts m es) = m_content m"
  "partition_spec_id (SetManifestFileAndRowCounts m es) = partition_spec_id m"
  unfolding SetManifestFileAndRowCounts_def by (induction es arbitrary: m) simp_all

lemma SetManifestPartitionSummary_frame:
  assumes "SetManifestPartitionSummary env m es tr = Inr m'"
  shows "\<exists>ps. m' = m\<lparr>m_partitions := ps\<rparr>"
  using assms by (auto simp: SetManifestPartitionSummary_def Let_def result_bind_Inr_iff split: if_splits)

lemma CreateNewIcebergManifest_frame:
  assumes "CreateNewIcebergManifest env snap spec tr sz c path es = Inr m"
  shows "manifest_path m = path" "m_content m = c" "partition_spec_id m = spec"
  using SetManifestPartitionSummary_frame [OF assms [unfolded CreateNewIcebergManifest_def Let_def]]
  by auto

definition unpartitioned :: "DataFile set \<Rightarrow> bool" where
  "unpartitioned fs \<longleftrightarrow> (\<forall>f \<in> fs. df_partition f = [])"

lemma CreateNewIcebergManifest_total:
  assumes "unpartitioned (data_file ` set es)"
  shows "\<exists>m. CreateNewIcebergManifest env snap spec tr sz c path es = Inr m"
  using assms by (cases es) (simp_all add: CreateNewIcebergManifest_def SetManifestPartitionSummary_def Let_def unpartitioned_def)

text \<open>Upload, header and address at once; the index is advanced before or after.\<close>

lemma upload_next:
  assumes "state_ok env ws"
  shows "UploadIcebergManifestToURI env es (manifest_uri env (manifestIndex ws)) ws =
    Inr (GetLocalManifestSize env es, (pushed env es ws)\<lparr>manifestIndex := manifestIndex ws, next_address := next_address ws\<rparr>)"
    "UploadIcebergManifestToURI env es (manifest_uri env (manifestIndex ws)) (ws\<lparr>manifestIndex := Suc (manifestIndex ws)\<rparr>) =
    Inr (GetLocalManifestSize env es, (pushed env es ws)\<lparr>next_address := next_address ws\<rparr>)"
  using assms by (simp_all add: UploadIcebergManifestToURI_def ScheduleFileCopyToS3WithCleanup_def ScheduleFileUpload_def state_ok_def pushed_def Let_def)


section \<open>The contract of a rewriting step\<close>

text \<open>The manifests of the result are old ones or were written on the way.\<close>

definition from_step :: "manifest_env \<Rightarrow> write_state \<Rightarrow> write_state \<Rightarrow> manifest_ptr list \<Rightarrow> manifest_ptr list \<Rightarrow> bool" where
  "from_step env ws ws' ms ms' \<longleftrightarrow>
     (\<forall>m \<in> set ms'. m \<in> set ms \<or>
        next_address ws \<le> fst m \<and> manifest_path (snd m) \<in> set (new_uris env ws ws'))"

lemma from_step_refl [simp]: "from_step env ws ws' ms ms"
  by (simp add: from_step_def)

lemma from_step_trans:
  assumes "extends env ws ws'" "extends env ws' ws''" "from_step env ws ws' ms ms'" "from_step env ws' ws'' ms' ms''"
  shows "from_step env ws ws'' ms ms''"
proof -
  have u: "new_uris env ws ws'' = new_uris env ws ws' @ new_uris env ws' ws''"
    using assms(1,2) by (intro new_uris_trans) (simp_all add: extends_def)
  show ?thesis
    using assms(3,4) extends_le [OF assms(1)] unfolding from_step_def u by fastforce
qed

definition step_post where
  "step_post env content effect ws ms ws' ms' \<longleftrightarrow>
     extends env ws ws' \<and> manifests_ok env content ms' ws' \<and>
     live_files (ws_store ws') ms' = effect (live_files (ws_store ws) ms) \<and>
     all_files (ws_store ws') ms' \<subseteq> all_files (ws_store ws) ms \<and>
     from_step env ws ws' ms ms'"

locale manifest_step =
  fixes env :: manifest_env
    and content :: IcebergManifestContentType
    and step :: "manifest_ptr list \<Rightarrow> write_state \<Rightarrow> (manifest_ptr list \<times> write_state) result"
    and effect :: "DataFile multiset \<Rightarrow> DataFile multiset"
  assumes step_total:
      "state_ok env ws \<Longrightarrow> manifests_ok env content ms ws \<Longrightarrow> unpartitioned (all_files (ws_store ws) ms) \<Longrightarrow>
       \<exists>ms' ws'. step ms ws = Inr (ms', ws')"
    and step_correct:
      "state_ok env ws \<Longrightarrow> manifests_ok env content ms ws \<Longrightarrow> step ms ws = Inr (ms', ws') \<Longrightarrow>
       step_post env content effect ws ms ws' ms'"
begin

text \<open>A step leaves every other list of manifests as it was.\<close>

lemma step_frame:
  assumes "state_ok env ws" "manifests_ok env content ms ws" "step ms ws = Inr (ms', ws')" "manifests_ok env c others ws"
  shows "state_ok env ws' \<and> manifests_ok env c others ws' \<and>
    live_files (ws_store ws') others = live_files (ws_store ws) others \<and>
    all_files (ws_store ws') others = all_files (ws_store ws) others"
proof -
  have e: "extends env ws ws'" using step_correct [OF assms(1-3)] by (simp add: step_post_def)
  from state_ok_extends [OF assms(1) e] manifests_ok_frame [OF assms(4) e] show ?thesis by blast
qed

lemma step_keeps_unpartitioned:
  assumes "state_ok env ws" "manifests_ok env content ms ws" "step ms ws = Inr (ms', ws')"
    "unpartitioned (all_files (ws_store ws) ms)"
  shows "unpartitioned (all_files (ws_store ws') ms')"
  using step_correct [OF assms(1-3)] assms(4) by (auto simp: step_post_def unpartitioned_def)

end


section \<open>Dropping deleted entries is a step\<close>

lemma manifest_uri_unfold:
  "GenerateRemoteManifestPath (metadataLocation env) (snapshotUUID env) i [] = manifest_uri env i"
  by (simp add: manifest_uri_def)

lemma alloc_after_upload:
  "alloc_manifest h ((pushed env es ws)\<lparr>next_address := next_address ws\<rparr>) = ((next_address ws, h), pushed env es ws)"
  "alloc_manifest h ((pushed env es ws)\<lparr>manifestIndex := manifestIndex ws, next_address := next_address ws\<rparr>) =
     ((next_address ws, h), (pushed env es ws)\<lparr>manifestIndex := manifestIndex ws\<rparr>)"
  by (simp_all add: alloc_manifest_def pushed_def Let_def)

lemma RemoveDeletedInternal_cases:
  assumes "state_ok env ws" "manifests_ok env c [m] ws"
    "RemoveDeletedManifestEntriesInternal env m snap tr c ws = Inr (r, modified, ws')"
  defines "es \<equiv> filter (\<lambda>e. status e \<noteq> ICEBERG_MANIFEST_ENTRY_STATUS_DELETED) (entries_of (ws_store ws) (snd m))"
  shows "(r = None \<and> es = [] \<and> ws' = ws) \<or> (r = Some m \<and> ws' = ws \<and> es = entries_of (ws_store ws) (snd m)) \<or>
    (\<exists>h. r = Some (next_address ws, h) \<and> ws' = pushed env es ws \<and> es \<noteq> [] \<and>
       manifest_path h = manifest_uri env (manifestIndex ws) \<and> m_content h = c)"
proof -
  note f = fetch_entries_ok [OF assms(2), of m]
  consider "es = []" | "es \<noteq> []" "length es \<noteq> length (entries_of (ws_store ws) (snd m))"
    | "es \<noteq> []" "length es = length (entries_of (ws_store ws) (snd m))" by blast
  then show ?thesis
  proof cases
    case 1
    then show ?thesis
      using assms(3) f by (simp add: RemoveDeletedManifestEntriesInternal_def es_def Let_def)
  next
    case 2
    have u: "UploadIcebergManifestToURI env es (manifest_uri env (manifestIndex ws)) (ws\<lparr>manifestIndex := manifestIndex ws + 1\<rparr>) =
      Inr (GetLocalManifestSize env es, (pushed env es ws)\<lparr>next_address := next_address ws\<rparr>)"
      using upload_next(2) [OF assms(1)] by simp
    have "RemoveDeletedManifestEntriesInternal env m snap tr c ws =
      (case snap of None \<Rightarrow> Inl Trap | Some s \<Rightarrow>
         result_bind (CreateNewIcebergManifest env s (partition_spec_id (snd m)) tr (GetLocalManifestSize env es) c
           (manifest_uri env (manifestIndex ws)) es) (\<lambda>h. Inr (Some (next_address ws, h), True, pushed env es ws)))"
      using 2 unfolding RemoveDeletedManifestEntriesInternal_def f [simplified] result_bind_simps es_def [symmetric] Let_def
        manifest_uri_unfold u by (cases snap) (simp_all add: alloc_after_upload)
    then obtain s h where s: "snap = Some s"
      "CreateNewIcebergManifest env s (partition_spec_id (snd m)) tr (GetLocalManifestSize env es) c
         (manifest_uri env (manifestIndex ws)) es = Inr h"
      "r = Some (next_address ws, h)" "ws' = pushed env es ws"
      using assms(3) by (cases snap) (auto simp: result_bind_Inr_iff)
    then show ?thesis using CreateNewIcebergManifest_frame [OF s(2)] 2 by auto
  next
    case 3
    then have "es = entries_of (ws_store ws) (snd m)" unfolding es_def by (metis filter_True length_filter_less nat_neq_iff)
    then show ?thesis
      using assms(3) f 3 by (simp add: RemoveDeletedManifestEntriesInternal_def es_def [symmetric] Let_def)
  qed
qed


lemma RemoveDeletedInternal_post:
  assumes "state_ok env ws" "manifests_ok env c [m] ws"
    "RemoveDeletedManifestEntriesInternal env m snap tr c ws = Inr (r, modified, ws')"
  shows "step_post env c id ws [m] ws' (case r of None \<Rightarrow> [] | Some h \<Rightarrow> [h])"
proof -
  let ?es = "filter (\<lambda>e. status e \<noteq> ICEBERG_MANIFEST_ENTRY_STATUS_DELETED) (entries_of (ws_store ws) (snd m))"
  have live: "live_files (ws_store ws) [m] = live_of ?es" by (simp add: live_of_filter_not_deleted)
  from RemoveDeletedInternal_cases [OF assms] consider "r = None" "?es = []" "ws' = ws" | "r = Some m" "ws' = ws"
    | h where "r = Some (next_address ws, h)" "ws' = pushed env ?es ws"
       "manifest_path h = manifest_uri env (manifestIndex ws)" "m_content h = c" by blast
  then show ?thesis
  proof cases
    case 1
    then show ?thesis using live by (simp add: step_post_def from_step_def)
  next
    case 2
    then show ?thesis using assms(2) by (simp add: step_post_def)
  next
    case 3
    then show ?thesis
      using pushed_manifest_ok [OF 3(3,4)] live by (auto simp: step_post_def from_step_def)
  qed
qed

text \<open>Steps on two parts of a list, one after the other.\<close>

lemma step_post_append:
  assumes "\<And>A B. effect (A + B) = effect A + effect B" "manifests_ok env c (ms1 @ ms2) ws"
    "step_post env c effect ws ms1 ws1 ms1'" "step_post env c effect ws1 ms2 ws2 ms2'"
  shows "step_post env c effect ws (ms1 @ ms2) ws2 (ms1' @ ms2')"
proof -
  have ok: "manifests_ok env c ms1 ws" "manifests_ok env c ms2 ws" "fst ` set ms1 \<inter> fst ` set ms2 = {}"
    using assms(2) by (simp_all add: manifests_ok_append)
  have e1: "extends env ws ws1" and e2: "extends env ws1 ws2" using assms(3,4) by (simp_all add: step_post_def)
  note f2 = manifests_ok_frame [OF ok(2) e1]
  have ok1: "manifests_ok env c ms1' ws1" using assms(3) by (simp add: step_post_def)
  note f1 = manifests_ok_frame [OF ok1 e2]
  have u: "new_uris env ws ws2 = new_uris env ws ws1 @ new_uris env ws1 ws2"
    using extends_le [OF e1] extends_le [OF e2] by (simp add: new_uris_trans)
  have fs: "from_step env ws ws1 ms1 ms1'" "from_step env ws1 ws2 ms2 ms2'" using assms(3,4) by (simp_all add: step_post_def)
  have fr: "from_step env ws ws2 (ms1 @ ms2) (ms1' @ ms2')"
    using fs extends_le [OF e1] unfolding from_step_def u by fastforce
  have bound: "fst m < next_address ws1" if "m \<in> set ms1'" for m using ok1 that by (auto simp: manifests_ok_def)
  have small: "fst m < next_address ws" if "m \<in> set ms1 \<union> set ms2" for m
    using ok(1,2) that by (auto simp: manifests_ok_def)
  have "fst ` set ms1' \<inter> fst ` set ms2' = {}"
  proof (rule ccontr)
    assume "fst ` set ms1' \<inter> fst ` set ms2' \<noteq> {}"
    then obtain a b where ab: "a \<in> set ms1'" "b \<in> set ms2'" "fst a = fst b" by auto
    have "b \<in> set ms2" using fs(2) ab bound [OF ab(1)] by (auto simp: from_step_def)
    moreover from this have "fst a < next_address ws" using small [of b] ab(3) by simp
    then have "a \<in> set ms1" using fs(1) ab(1) by (auto simp: from_step_def)
    ultimately show False using ok(3) ab(3) by (metis disjoint_iff imageI)
  qed
  then have "manifests_ok env c (ms1' @ ms2') ws2"
    using f1(1) assms(4) by (simp add: manifests_ok_append step_post_def)
  then show ?thesis
    using assms(3,4) f1 f2 fr extends_trans [OF e1 e2] by (auto simp: step_post_def assms(1))
qed

lemma RemoveDeleted_post:
  assumes "state_ok env ws" "manifests_ok env c ms ws"
    "RemoveDeletedManifestEntries env snap tr ms c ws = Inr (ms', modified, ws')"
  shows "step_post env c id ws ms ws' ms'"
  using assms
proof (induction ms arbitrary: ws ms' modified)
  case Nil
  then show ?case by (simp add: step_post_def)
next
  case (Cons m ms)
  obtain r b1 ws1 where r: "RemoveDeletedManifestEntriesInternal env m snap tr c ws = Inr (r, b1, ws1)"
    using Cons.prems(3) by (auto simp: result_bind_Inr_iff)
  obtain rs b2 where rs: "RemoveDeletedManifestEntries env snap tr ms c ws1 = Inr (rs, b2, ws')"
    "ms' = (case r of None \<Rightarrow> [] | Some h \<Rightarrow> [h]) @ rs"
    using Cons.prems(3) r by (cases r) (auto simp: result_bind_Inr_iff)
  have ok: "manifests_ok env c [m] ws" "manifests_ok env c ms ws" using Cons.prems(2) manifests_ok_Cons by blast+
  note p1 = RemoveDeletedInternal_post [OF Cons.prems(1) ok(1) r]
  then have e: "extends env ws ws1" by (simp add: step_post_def)
  have "step_post env c id ws1 ms ws' rs"
    by (rule Cons.IH [OF state_ok_extends [OF Cons.prems(1) e] manifests_ok_frame(1) [OF ok(2) e] rs(1)])
  from step_post_append [where effect = id, OF _ _ p1 this] Cons.prems(2) show ?case by (simp add: rs(2) id_def)
qed


lemma RemoveDeletedInternal_total:
  assumes "state_ok env ws" "manifests_ok env c [m] ws" "unpartitioned (all_files (ws_store ws) [m])"
  shows "\<exists>r b ws'. RemoveDeletedManifestEntriesInternal env m (Some s) tr c ws = Inr (r, b, ws')"
proof -
  note f = fetch_entries_ok [OF assms(2), of m]
  let ?es = "filter (\<lambda>e. status e \<noteq> ICEBERG_MANIFEST_ENTRY_STATUS_DELETED) (entries_of (ws_store ws) (snd m))"
  have up: "unpartitioned (data_file ` set ?es)" using assms(3) by (auto simp: unpartitioned_def)
  obtain h where h: "CreateNewIcebergManifest env s (partition_spec_id (snd m)) tr (GetLocalManifestSize env ?es) c
      (manifest_uri env (manifestIndex ws)) ?es = Inr h"
    using CreateNewIcebergManifest_total [OF up] by blast
  show ?thesis
    using f upload_next(2) [OF assms(1), of ?es] h
    by (simp add: RemoveDeletedManifestEntriesInternal_def Let_def manifest_uri_unfold alloc_after_upload ex_bool_eq)
qed

lemma RemoveDeleted_total:
  assumes "state_ok env ws" "manifests_ok env c ms ws" "unpartitioned (all_files (ws_store ws) ms)"
  shows "\<exists>ms' b ws'. RemoveDeletedManifestEntries env (Some s) tr ms c ws = Inr (ms', b, ws')"
  using assms
proof (induction ms arbitrary: ws)
  case (Cons m ms)
  have ok: "manifests_ok env c [m] ws" "manifests_ok env c ms ws" using Cons.prems(2) manifests_ok_Cons by blast+
  have up: "unpartitioned (all_files (ws_store ws) [m])" "unpartitioned (all_files (ws_store ws) ms)"
    using Cons.prems(3) by (simp_all add: unpartitioned_def)
  obtain r b ws1 where r: "RemoveDeletedManifestEntriesInternal env m (Some s) tr c ws = Inr (r, b, ws1)"
    using RemoveDeletedInternal_total [OF Cons.prems(1) ok(1) up(1)] by blast
  have e: "extends env ws ws1" using RemoveDeletedInternal_post [OF Cons.prems(1) ok(1) r] by (simp add: step_post_def)
  obtain rs b' ws' where "RemoveDeletedManifestEntries env (Some s) tr ms c ws1 = Inr (rs, b', ws')"
    using Cons.IH [OF state_ok_extends [OF Cons.prems(1) e] manifests_ok_frame(1) [OF ok(2) e]]
      up(2) manifests_ok_frame(3) [OF ok(2) e] by auto
  then show ?case using r by simp
qed (simp add: ex_bool_eq)

interpretation drop_step: manifest_step env c
  "\<lambda>ms ws. result_bind (RemoveDeletedManifestEntries env (Some s) tr ms c ws) (\<lambda>(ms, modified, ws). Inr (ms, ws))" id
  for env c s tr
proof unfold_locales
  fix ws ms
  assume "state_ok env ws" "manifests_ok env c ms ws" "unpartitioned (all_files (ws_store ws) ms)"
  from RemoveDeleted_total [OF this, of s tr]
  show "\<exists>ms' ws'. result_bind (RemoveDeletedManifestEntries env (Some s) tr ms c ws) (\<lambda>(ms, modified, ws). Inr (ms, ws)) =
    Inr (ms', ws')" by (auto simp: result_bind_Inr_iff)
next
  fix ws ms ms' ws'
  assume "state_ok env ws" "manifests_ok env c ms ws"
    "result_bind (RemoveDeletedManifestEntries env (Some s) tr ms c ws) (\<lambda>(ms, modified, ws). Inr (ms, ws)) = Inr (ms', ws')"
  then show "step_post env c id ws ms ws' ms'" by (auto simp: result_bind_Inr_iff intro: RemoveDeleted_post)
qed


section \<open>Merging is a step\<close>

lemma step_post_mset:
  assumes "step_post env c effect ws ms ws' ms'" "mset ms = mset ks" "mset ms' = mset ks'"
  shows "step_post env c effect ws ks ws' ks'"
proof -
  have s: "set ms = set ks" "set ms' = set ks'" using assms(2,3) by (metis set_mset_mset)+
  have l: "live_files st ks = live_files st ms" "live_files st ks' = live_files st ms'" for st
    using assms(2,3) by (metis live_files_mset)+
  have a: "all_files st ks = all_files st ms" "all_files st ks' = all_files st ms'" for st
    using s by (simp_all add: all_files_def all_entries_def)
  have "distinct (map fst ks') = distinct (map fst ms')"
    using assms(3) by (metis mset_map mset_eq_imp_distinct_iff)
  then show ?thesis using assms(1) s l a by (simp add: step_post_def manifests_ok_def from_step_def)
qed

lemma manifests_ok_mset: "mset ms = mset ks \<Longrightarrow> manifests_ok env c ms ws \<Longrightarrow> manifests_ok env c ks ws"
  unfolding manifests_ok_def by (metis mset_map mset_eq_imp_distinct_iff set_mset_mset)

lemma hash_append_mset: "mset (concat (map snd (hash_append ht k x))) = add_mset x (mset (concat (map snd ht)))"
  by (induction ht k x rule: hash_append.induct) simp_all

lemma hash_append_keys: "fst ` set (hash_append ht k x) = insert k (fst ` set ht)"
  by (induction ht k x rule: hash_append.induct) auto

lemma hash_append_distinct: "distinct (map fst ht) \<Longrightarrow> distinct (map fst (hash_append ht k x))"
  by (induction ht k x rule: hash_append.induct) (auto simp: hash_append_keys)

lemma GroupManifests_mset:
  "mset (concat (map snd (GroupManifestsByPartitionSpecId ms))) = mset ms \<and>
   distinct (map fst (GroupManifestsByPartitionSpecId ms))"
proof (induction ms rule: rev_induct)
  case (snoc m ms)
  then show ?case
    by (simp add: GroupManifestsByPartitionSpecId_def hash_append_mset hash_append_distinct)
qed (simp add: GroupManifestsByPartitionSpecId_def)

definition order_ok :: "manifest_env \<Rightarrow> bool" where
  "order_ok env \<longleftrightarrow> (\<forall>ks. mset (hash_seq_order env ks) = mset ks)"

lemma hash_seq_mset:
  assumes "order_ok env" "distinct (map fst ht)"
  shows "mset (hash_seq env ht) = mset ht"
proof -
  have *: "mset (concat (map (\<lambda>k. filter (\<lambda>e. fst e = k) ht) ks)) = filter_mset (\<lambda>e. fst e \<in> set ks) (mset ht)"
    if "distinct ks" for ks
    using that
  proof (induction ks)
    case (Cons k ks)
    then show ?case by (auto simp: multiset_eq_iff)
  qed simp
  let ?ks = "hash_seq_order env (map fst ht)"
  have m: "mset ?ks = mset (map fst ht)" using assms(1) unfolding order_ok_def by blast
  have d: "distinct ?ks" using mset_eq_imp_distinct_iff [OF m] assms(2) by simp
  have s: "set ?ks = fst ` set ht" using arg_cong [OF m, of set_mset] by simp
  show ?thesis unfolding hash_seq_def * [OF d] s by (simp add: filter_mset_eq_conv)
qed


definition grouped :: "ManifestGroup list \<Rightarrow> manifest_ptr list" where
  "grouped gs = concat (map group_manifests gs)"

lemma grouped_simps [simp]:
  "grouped [] = []" "grouped (g # gs) = group_manifests g @ grouped gs" "grouped (gs @ gs') = grouped gs @ grouped gs'"
  by (simp_all add: grouped_def)

lemma best_fit_range:
  "best_fit_loop gs i sz target best least = Some j \<Longrightarrow> best = Some j \<or> (i \<le> j \<and> j < i + length gs \<and>
     totalSize (gs ! (j - i)) + sz \<le> target)"
proof (induction gs arbitrary: i best least)
  case (Cons g gs)
  then show ?case
    by (fastforce simp: Let_def nth_Cons' split: if_splits)
qed simp

lemma FindBestFit_range:
  "FindBestFitManifestGroupForManifest gs m target = Some j \<Longrightarrow> j < length gs \<and> totalSize (gs ! j) + manifest_length m \<le> target"
  using best_fit_range [of gs 0 "manifest_length m" target None INT64_MAX j]
  by (simp add: FindBestFitManifestGroupForManifest_def)

lemma grouped_update:
  "i < length gs \<Longrightarrow> mset (grouped (gs[i := add_to_group m (gs ! i)])) = add_mset m (mset (grouped gs))"
proof (induction gs arbitrary: i)
  case (Cons g gs)
  then show ?case by (cases i) (simp_all add: add_to_group_def)
qed simp

lemma place_manifest_mset: "mset (grouped (place_manifest target gs m)) = add_mset m (mset (grouped gs))"
proof (cases "FindBestFitManifestGroupForManifest gs (snd m) target")
  case None
  then show ?thesis by (simp add: place_manifest_def add_to_group_def)
next
  case (Some i)
  then show ?thesis using FindBestFit_range [OF Some] by (simp add: place_manifest_def grouped_update)
qed

lemma CreateManifestGroups_mset: "mset (grouped (CreateManifestGroupsWithTargetSize ms target)) = mset ms"
  unfolding CreateManifestGroupsWithTargetSize_def
  by (induction ms rule: rev_induct) (simp_all add: place_manifest_mset)

definition merge_plan :: "manifest_env \<Rightarrow> manifest_ptr list \<Rightarrow> ManifestGroup list" where
  "merge_plan env ms = concat (map (\<lambda>(spec, ms). CreateManifestGroupsWithTargetSize ms (target_size env))
     (hash_seq env (GroupManifestsByPartitionSpecId ms)))"

lemma merge_plan_mset:
  assumes "order_ok env"
  shows "mset (grouped (merge_plan env ms)) = mset ms"
proof -
  have c: "mset (grouped (concat (map (\<lambda>(spec, ms). CreateManifestGroupsWithTargetSize ms target) ht))) = mset (concat (map snd ht))"
    for target and ht :: "(int \<times> manifest_ptr list) list"
    by (induction ht) (auto simp: CreateManifestGroups_mset)
  have p: "mset (concat (map snd ht)) = mset (concat (map snd ht'))" if "mset ht = mset ht'"
    for ht ht' :: "(int \<times> manifest_ptr list) list"
  proof -
    have "mset (concat (map snd ht)) = (\<Sum>x\<in>#mset ht. mset (snd x))" for ht :: "(int \<times> manifest_ptr list) list"
      by (induction ht) simp_all
    then show ?thesis using that by simp
  qed
  show ?thesis
    unfolding merge_plan_def c
    using p [OF hash_seq_mset [OF assms, of "GroupManifestsByPartitionSpecId ms"]] GroupManifests_mset [of ms] by simp
qed


text \<open>A group of two or more manifests is within the target size, and all its manifests have its spec.\<close>

definition group_ok :: "int \<Rightarrow> int \<Rightarrow> ManifestGroup \<Rightarrow> bool" where
  "group_ok spec target g \<longleftrightarrow>
     totalSize g = (\<Sum>m\<leftarrow>group_manifests g. manifest_length (snd m)) \<and>
     (1 < length (group_manifests g) \<longrightarrow> totalSize g \<le> target) \<and>
     group_partitionSpecId g = spec \<and> (\<forall>m \<in> set (group_manifests g). partition_spec_id (snd m) = spec)"

lemma place_manifest_ok:
  assumes "\<forall>g \<in> set gs. group_ok spec target g" "partition_spec_id (snd m) = spec"
  shows "\<forall>g \<in> set (place_manifest target gs m). group_ok spec target g"
proof (cases "FindBestFitManifestGroupForManifest gs (snd m) target")
  case None
  then show ?thesis using assms by (auto simp: place_manifest_def add_to_group_def group_ok_def)
next
  case (Some i)
  have i: "i < length gs" "totalSize (gs ! i) + manifest_length (snd m) \<le> target" using FindBestFit_range [OF Some] by auto
  have "group_ok spec target (add_to_group m (gs ! i))"
    using assms i nth_mem [OF i(1)] by (auto simp: group_ok_def add_to_group_def)
  then show ?thesis using Some assms(1) set_update_subset_insert [of gs i] by (auto simp: place_manifest_def)
qed

lemma CreateManifestGroups_ok:
  assumes "\<forall>m \<in> set ms. partition_spec_id (snd m) = spec"
  shows "\<forall>g \<in> set (CreateManifestGroupsWithTargetSize ms target). group_ok spec target g"
  using assms unfolding CreateManifestGroupsWithTargetSize_def
proof (induction ms rule: rev_induct)
  case (snoc m ms)
  then have "\<forall>g \<in> set (foldl (place_manifest target) [] ms). group_ok spec target g" by simp
  from place_manifest_ok [OF this, of m] snoc.prems show ?case by simp
qed simp

lemma hash_append_keyed:
  "\<forall>(k, xs) \<in> set ht. \<forall>x \<in> set xs. f x = k \<Longrightarrow> \<forall>(k, xs) \<in> set (hash_append ht (f y) y). \<forall>x \<in> set xs. f x = k"
  by (induction ht "f y" y rule: hash_append.induct) auto

lemma GroupManifests_keyed:
  "\<forall>(k, xs) \<in> set (GroupManifestsByPartitionSpecId ms). \<forall>m \<in> set xs. partition_spec_id (snd m) = k"
proof (induction ms rule: rev_induct)
  case (snoc m ms)
  then show ?case
    using hash_append_keyed [of "GroupManifestsByPartitionSpecId ms" "\<lambda>m. partition_spec_id (snd m)" m]
    by (simp add: GroupManifestsByPartitionSpecId_def)
qed (simp add: GroupManifestsByPartitionSpecId_def)

lemma merge_plan_ok:
  assumes "order_ok env" "g \<in> set (merge_plan env ms)"
  shows "\<exists>spec. group_ok spec (target_size env) g"
proof -
  have "set (hash_seq env (GroupManifestsByPartitionSpecId ms)) = set (GroupManifestsByPartitionSpecId ms)"
    using hash_seq_mset [OF assms(1)] GroupManifests_mset by (metis set_mset_mset)
  then show ?thesis using assms(2) GroupManifests_keyed [of ms] CreateManifestGroups_ok
    unfolding merge_plan_def by fastforce
qed

text \<open>One group.\<close>

lemma group_entries:
  assumes "manifests_ok env c ms ws"
  shows "result_map (\<lambda>m. result_bind (FetchManifestEntriesFromManifest (ws_store ws) (snd m) None)
      (\<lambda>es. Inr (SetExistingStatusForOldSnapshotAddedEntries es sid))) ms =
    Inr (map (\<lambda>m. SetExistingStatusForOldSnapshotAddedEntries (entries_of (ws_store ws) (snd m)) sid) ms)"
  using assms
proof (induction ms)
  case (Cons m ms)
  then show ?case using fetch_entries_ok [OF Cons.prems, of m] manifests_ok_Cons [of env c m ms ws] by simp
qed simp

definition merged_entries :: "object_store \<Rightarrow> manifest_ptr list \<Rightarrow> int \<Rightarrow> IcebergManifestEntry list" where
  "merged_entries st ms sid =
     concat (map (\<lambda>m. SetExistingStatusForOldSnapshotAddedEntries (entries_of st (snd m)) sid) ms)"

lemma merged_entries_live: "live_of (merged_entries st ms sid) = live_files st ms"
  by (induction ms) (simp_all add: merged_entries_def live_of_SetExisting)

lemma merged_entries_files: "data_file ` set (merged_entries st ms sid) = all_files st ms"
proof (induction ms)
  case (Cons m ms)
  have "data_file ` set (SetExistingStatusForOldSnapshotAddedEntries es sid) = data_file ` set es" for es
    by (metis files_SetExisting list.set_map)
  then show ?case using Cons by (simp add: merged_entries_def image_Un)
qed (simp add: merged_entries_def)

lemma MergeManifestGroup_eq:
  fixes s :: IcebergSnapshot
  assumes "state_ok env ws" "manifests_ok env c (group_manifests g) ws"
  defines "es \<equiv> merged_entries (ws_store ws) (group_manifests g) (snapshot_id s)"
  shows "MergeManifestGroup env g s tr (manifestIndex ws) ws =
    (if es = [] then Inr (None, ws)
     else result_bind (CreateNewIcebergManifest env s (group_partitionSpecId g) tr (GetLocalManifestSize env es)
         ICEBERG_MANIFEST_FILE_CONTENT_DATA (manifest_uri env (manifestIndex ws)) es) (\<lambda>h.
       Inr (Some (next_address ws, h), (pushed env es ws)\<lparr>manifestIndex := manifestIndex ws\<rparr>)))"
  unfolding MergeManifestGroup_def group_entries [OF assms(2)] result_bind_simps merged_entries_def [symmetric]
    es_def [symmetric] Let_def manifest_uri_unfold upload_next(1) [OF assms(1)]
  by (simp add: alloc_after_upload)


text \<open>All groups.  The merged manifests come first, the ones left alone last.\<close>

lemma pushed_index [simp]:
  "(pushed env es ws)\<lparr>manifestIndex := manifestIndex ws\<rparr>\<lparr>manifestIndex := Suc (manifestIndex ws)\<rparr> = pushed env es ws"
  by (simp add: pushed_def Let_def)

lemma merge_group_post:
  assumes "manifests_ok env ICEBERG_MANIFEST_FILE_CONTENT_DATA (group_manifests g) ws"
    "CreateNewIcebergManifest env s spec tr sz ICEBERG_MANIFEST_FILE_CONTENT_DATA (manifest_uri env (manifestIndex ws)) es = Inr h"
    "es = merged_entries (ws_store ws) (group_manifests g) sid"
  shows "step_post env ICEBERG_MANIFEST_FILE_CONTENT_DATA id ws (group_manifests g) (pushed env es ws) [(next_address ws, h)]"
proof -
  note h = CreateNewIcebergManifest_frame [OF assms(2)]
  show ?thesis
    using pushed_manifest_ok [OF h(1,2)] h merged_entries_live merged_entries_files
    by (simp add: step_post_def from_step_def assms(3))
qed

lemma merge_groups_Cons:
  fixes s :: IcebergSnapshot
  assumes "state_ok env ws" "manifests_ok env c (group_manifests g) ws"
  defines "es \<equiv> merged_entries (ws_store ws) (group_manifests g) (snapshot_id s)"
  shows "merge_groups env (g # gs) l s tr ws =
    (if \<not> IsMergeableManifestGroup env g l
     then result_bind (merge_groups env gs l s tr ws) (\<lambda>(merged, unmerged, ws). Inr (merged, group_manifests g @ unmerged, ws))
     else if es = [] then merge_groups env gs l s tr ws
     else result_bind (CreateNewIcebergManifest env s (group_partitionSpecId g) tr (GetLocalManifestSize env es)
         ICEBERG_MANIFEST_FILE_CONTENT_DATA (manifest_uri env (manifestIndex ws)) es) (\<lambda>h.
       result_bind (merge_groups env gs l s tr (pushed env es ws)) (\<lambda>(merged, unmerged, ws').
       Inr ((next_address ws, h) # merged, unmerged, ws'))))"
proof -
  have i: "(pushed env es ws)\<lparr>manifestIndex := manifestIndex ws\<rparr>\<lparr>manifestIndex := Suc (manifestIndex ((pushed env es ws)\<lparr>manifestIndex := manifestIndex ws\<rparr>))\<rparr>
     = pushed env es ws" by (simp add: pushed_def Let_def)
  show ?thesis
    using i
    by (cases "CreateNewIcebergManifest env s (group_partitionSpecId g) tr (GetLocalManifestSize env es)
         ICEBERG_MANIFEST_FILE_CONTENT_DATA (manifest_uri env (manifestIndex ws)) es")
       (simp_all add: MergeManifestGroup_eq [OF assms(1,2)] es_def [symmetric])
qed

lemma merge_groups_post:
  assumes "state_ok env ws" "manifests_ok env ICEBERG_MANIFEST_FILE_CONTENT_DATA (grouped gs) ws"
    "merge_groups env gs l s tr ws = Inr (merged, unmerged, ws')"
  shows "step_post env ICEBERG_MANIFEST_FILE_CONTENT_DATA id ws (grouped gs) ws' (merged @ unmerged)"
  using assms
proof (induction gs arbitrary: ws merged unmerged)
  case Nil
  then show ?case by (simp add: step_post_def)
next
  case (Cons g gs)
  let ?D = ICEBERG_MANIFEST_FILE_CONTENT_DATA
  define es where "es = merged_entries (ws_store ws) (group_manifests g) (snapshot_id s)"
  have ok: "manifests_ok env ?D (group_manifests g) ws" "manifests_ok env ?D (grouped gs) ws"
    using Cons.prems(2) by (simp_all add: manifests_ok_append)
  note step = step_post_append [of id env ?D "group_manifests g" "grouped gs", simplified]
  note eq = merge_groups_Cons [OF Cons.prems(1) ok(1), of gs l s tr, folded es_def]
  consider "\<not> IsMergeableManifestGroup env g l" | "IsMergeableManifestGroup env g l" "es = []"
    | "IsMergeableManifestGroup env g l" "es \<noteq> []" by blast
  then show ?case
  proof cases
    case 1
    then obtain um where u: "merge_groups env gs l s tr ws = Inr (merged, um, ws')" "unmerged = group_manifests g @ um"
      using Cons.prems(3) unfolding eq by (auto simp: result_bind_Inr_iff)
    have p: "step_post env ?D id ws (group_manifests g) ws (group_manifests g)" using ok(1) by (simp add: step_post_def)
    have "step_post env ?D id ws (group_manifests g @ grouped gs) ws' (group_manifests g @ merged @ um)"
      by (rule step [OF _ p Cons.IH [OF Cons.prems(1) ok(2) u(1)]]) (use Cons.prems(2) in simp)
    then show ?thesis by (rule step_post_mset) (simp_all add: u(2))
  next
    case 2
    have "live_files (ws_store ws) (group_manifests g) = {#}"
      using 2(2) merged_entries_live [of "ws_store ws" "group_manifests g" "snapshot_id s"] by (simp add: es_def)
    then have p: "step_post env ?D id ws (group_manifests g) ws []" by (simp add: step_post_def from_step_def)
    have "merge_groups env gs l s tr ws = Inr (merged, unmerged, ws')" using Cons.prems(3) 2 unfolding eq by simp
    from step [OF _ p Cons.IH [OF Cons.prems(1) ok(2) this]] Cons.prems(2) show ?thesis by (simp add: id_def)
  next
    case 3
    then obtain h md where h: "merge_groups env gs l s tr (pushed env es ws) = Inr (md, unmerged, ws')"
      "merged = (next_address ws, h) # md"
      "CreateNewIcebergManifest env s (group_partitionSpecId g) tr (GetLocalManifestSize env es) ?D
         (manifest_uri env (manifestIndex ws)) es = Inr h"
      using Cons.prems(3) unfolding eq by (auto simp: result_bind_Inr_iff)
    note p = merge_group_post [OF ok(1) h(3) es_def]
    have "step_post env ?D id (pushed env es ws) (grouped gs) ws' (md @ unmerged)"
      by (rule Cons.IH [OF _ _ h(1)]) (use Cons.prems(1) manifests_ok_frame(1) [OF ok(2) extends_pushed] in auto)
    from step [OF _ p this] Cons.prems(2) show ?thesis by (simp add: h(2) id_def)
  qed
qed

lemma merge_groups_total:
  assumes "state_ok env ws" "manifests_ok env ICEBERG_MANIFEST_FILE_CONTENT_DATA (grouped gs) ws"
    "unpartitioned (all_files (ws_store ws) (grouped gs))"
  shows "\<exists>merged unmerged ws'. merge_groups env gs l s tr ws = Inr (merged, unmerged, ws')"
  using assms
proof (induction gs arbitrary: ws)
  case (Cons g gs)
  let ?D = ICEBERG_MANIFEST_FILE_CONTENT_DATA
  define es where "es = merged_entries (ws_store ws) (group_manifests g) (snapshot_id s)"
  have ok: "manifests_ok env ?D (group_manifests g) ws" "manifests_ok env ?D (grouped gs) ws"
    using Cons.prems(2) by (simp_all add: manifests_ok_append)
  have "unpartitioned (data_file ` set es)"
    using Cons.prems(3) unfolding es_def merged_entries_files by (simp add: unpartitioned_def)
  from CreateNewIcebergManifest_total [OF this] obtain h where h: "CreateNewIcebergManifest env s (group_partitionSpecId g)
      tr (GetLocalManifestSize env es) ?D (manifest_uri env (manifestIndex ws)) es = Inr h" by blast
  have "unpartitioned (all_files (ws_store ws) (grouped gs))" using Cons.prems(3) by (simp add: unpartitioned_def)
  then obtain a b w a' b' w' where "merge_groups env gs l s tr ws = Inr (a, b, w)"
    "merge_groups env gs l s tr (pushed env es ws) = Inr (a', b', w')"
    using Cons.IH [OF Cons.prems(1) ok(2)] Cons.IH [of "pushed env es ws"] Cons.prems(1)
      manifests_ok_frame [OF ok(2) extends_pushed, of es] by (metis state_ok_pushed)
  then show ?case using h unfolding merge_groups_Cons [OF Cons.prems(1) ok(1), of gs l s tr, folded es_def] by simp
qed simp

lemma MergeDataManifests_eq:
  "ms \<noteq> [] \<Longrightarrow> MergeDataManifests env s tr ms ws =
     result_bind (merge_groups env (merge_plan env ms) (last ms) s tr ws) (\<lambda>(merged, unmerged, ws). Inr (merged @ unmerged, ws))"
  by (simp add: MergeDataManifests_def merge_plan_def Let_def)

lemma merge_is_step:
  assumes "order_ok env"
  shows "manifest_step env ICEBERG_MANIFEST_FILE_CONTENT_DATA (MergeDataManifests env s tr) id"
proof unfold_locales
  fix ws ms
  assume a: "state_ok env ws" "manifests_ok env ICEBERG_MANIFEST_FILE_CONTENT_DATA ms ws" "unpartitioned (all_files (ws_store ws) ms)"
  note m = merge_plan_mset [OF assms, of ms]
  have "all_files (ws_store ws) (grouped (merge_plan env ms)) = all_files (ws_store ws) ms"
    using m by (metis all_files_set order_eq_refl set_mset_mset subset_antisym)
  then show "\<exists>ms' ws'. MergeDataManifests env s tr ms ws = Inr (ms', ws')"
    using merge_groups_total [OF a(1) manifests_ok_mset [OF m [symmetric] a(2)], of "last ms" s tr] a(3)
    by (cases "ms = []") (simp add: MergeDataManifests_def, auto simp: MergeDataManifests_eq)
next
  fix ws ms ms' ws'
  assume a: "state_ok env ws" "manifests_ok env ICEBERG_MANIFEST_FILE_CONTENT_DATA ms ws" "MergeDataManifests env s tr ms ws = Inr (ms', ws')"
  note m = merge_plan_mset [OF assms, of ms]
  show "step_post env ICEBERG_MANIFEST_FILE_CONTENT_DATA id ws ms ws' ms'"
  proof (cases "ms = []")
    case True
    then show ?thesis using a by (simp add: MergeDataManifests_def step_post_def)
  next
    case False
    then obtain merged unmerged where "merge_groups env (merge_plan env ms) (last ms) s tr ws = Inr (merged, unmerged, ws')"
      "ms' = merged @ unmerged" using a(3) by (auto simp: MergeDataManifests_eq result_bind_Inr_iff)
    with merge_groups_post [OF a(1) manifests_ok_mset [OF m [symmetric] a(2)]] m
    show ?thesis by (metis step_post_mset)
  qed
qed


section \<open>Sample state\<close>

definition sample_env :: manifest_env where
  "sample_env =
     \<lparr>env_io = \<lparr>typoutput = \<lambda>_ _. [], typinput = \<lambda>_ bs _. Inr (DBytes bs), io_numeric_in = \<lambda>s _. Inr s,
               io_settings = default_numeric_settings\<rparr>,
      env_catalog = \<lparr>ResolveDomainBaseType = id, PgLakeSpatialEnabled = False, catalog_settings = default_numeric_settings\<rparr>,
      env_lt = \<lambda>_ _ _. False, env_gt = \<lambda>_ _ _. False, GetLocalManifestSize = \<lambda>es. 8000 + 100 * int (length es),
      metadataLocation = ''s3://b'', snapshotUUID = ''u'', EnableManifestMergeOnWrite = True, TargetManifestSizeKB = 8192,
      ManifestMinCountToMerge = 2, hash_seq_order = rev\<rparr>"

definition sample_state :: write_state where
  "sample_state = \<lparr>ws_store = sample_store, PendingUploads = [], InProgressFiles = [], manifestIndex = 0, next_address = 10\<rparr>"

definition sample_manifests :: "manifest_ptr list" where
  "sample_manifests = [(0, sample_manifest ''m1''), (1, sample_manifest ''m2''), (2, sample_manifest ''m3'')]"

lemma manifest_uri_long: "manifest_uri sample_env i \<noteq> [c, d]"
proof
  assume "manifest_uri sample_env i = [c, d]"
  then have "length (manifest_uri sample_env i) = 2" by simp
  then show False by (simp add: manifest_uri_def GenerateRemoteManifestPath_def sample_env_def)
qed

lemma sample_ok:
  "state_ok sample_env sample_state"
  "manifests_ok sample_env ICEBERG_MANIFEST_FILE_CONTENT_DATA sample_manifests sample_state"
  "unpartitioned (all_files (ws_store sample_state) sample_manifests)"
  "order_ok sample_env"
proof -
  show "state_ok sample_env sample_state" by (simp add: state_ok_def sample_state_def)
  show "manifests_ok sample_env ICEBERG_MANIFEST_FILE_CONTENT_DATA sample_manifests sample_state"
    using manifest_uri_long [symmetric]
    by (auto simp: manifests_ok_def sample_manifests_def sample_state_def sample_store_def sample_manifest_def)
  show "unpartitioned (all_files (ws_store sample_state) sample_manifests)"
    by (simp add: unpartitioned_def sample_state_def sample_store_def sample_manifests_def sample_manifest_def entries_of_def
        sample_entry_def sample_file_def)
  show "order_ok sample_env" by (simp add: order_ok_def sample_env_def)
qed


section \<open>Properties\<close>

text \<open>C21: merging data manifests never loses or adds a live data file.  For an unpartitioned table whose
  manifests can be read, the merge succeeds; the manifests it returns reach, through the object store, the
  same multiset of live files as before, each of them is an old manifest or one just written, and the
  files already in the store are untouched.\<close>

theorem MergeDataManifests_live:
  assumes "state_ok env ws" "manifests_ok env ICEBERG_MANIFEST_FILE_CONTENT_DATA ms ws"
    "unpartitioned (all_files (ws_store ws) ms)" "order_ok env"
  shows "\<exists>ms' ws'. MergeDataManifests env snap tr ms ws = Inr (ms', ws') \<and>
    live_files (ws_store ws') ms' = live_files (ws_store ws) ms \<and> extends env ws ws' \<and> from_step env ws ws' ms ms'"
proof -
  note step = merge_is_step [OF assms(4), of snap tr]
  obtain ms' ws' where m: "MergeDataManifests env snap tr ms ws = Inr (ms', ws')"
    using manifest_step.step_total [OF step assms(1-3)] by blast
  then show ?thesis using manifest_step.step_correct [OF step assms(1,2) m] by (auto simp: step_post_def)
qed

theorem MergeDataManifests_live_witness:
  "\<exists>ms' ws'. MergeDataManifests sample_env (sample_snapshot 3 []) [] sample_manifests sample_state = Inr (ms', ws') \<and>
    live_files (ws_store ws') ms' = live_files sample_store sample_manifests \<and>
    extends sample_env sample_state ws' \<and> from_step sample_env sample_state ws' sample_manifests ms'"
  using MergeDataManifests_live [OF sample_ok] by (simp add: sample_state_def)

text \<open>C28: best-fit packing puts every manifest into exactly one group, keeps manifests of different partition
  specs apart when all its input has one spec, and never exceeds the target size by joining manifests: a
  group over the target consists of a single manifest.\<close>

theorem CreateManifestGroups_packing:
  assumes "\<forall>m \<in> set ms. partition_spec_id (snd m) = spec"
  shows "mset (grouped (CreateManifestGroupsWithTargetSize ms target)) = mset ms \<and>
    (\<forall>g \<in> set (CreateManifestGroupsWithTargetSize ms target). group_ok spec target g)"
  using CreateManifestGroups_mset CreateManifestGroups_ok [OF assms] by blast

theorem CreateManifestGroups_packing_witness:
  "map (\<lambda>g. length (group_manifests g)) (CreateManifestGroupsWithTargetSize sample_manifests 2500) = [2, 1] \<and>
   list_all (group_ok 0 2500) (CreateManifestGroupsWithTargetSize sample_manifests 2500)"
proof -
  have "\<forall>m \<in> set sample_manifests. partition_spec_id (snd m) = 0" by (simp add: sample_manifests_def sample_manifest_def)
  from CreateManifestGroups_packing [OF this, of 2500] show ?thesis
    by (simp add: CreateManifestGroupsWithTargetSize_def sample_manifests_def place_manifest_def
        FindBestFitManifestGroupForManifest_def add_to_group_def sample_manifest_def INT64_MAX_def)
qed

lemma RemoveDeleted_clean:
  assumes "state_ok env ws" "manifests_ok env c ms ws"
    "RemoveDeletedManifestEntries env snap tr ms c ws = Inr (ms', modified, ws')"
  shows "\<forall>m \<in> set ms'. \<forall>e \<in> set (entries_of (ws_store ws') (snd m)). IsManifestEntryStatusScannable e"
  using assms
proof (induction ms arbitrary: ws ms' modified)
  case (Cons m ms)
  obtain r b1 ws1 where r: "RemoveDeletedManifestEntriesInternal env m snap tr c ws = Inr (r, b1, ws1)"
    using Cons.prems(3) by (auto simp: result_bind_Inr_iff)
  obtain rs b2 where rs: "RemoveDeletedManifestEntries env snap tr ms c ws1 = Inr (rs, b2, ws')"
    "ms' = (case r of None \<Rightarrow> [] | Some h \<Rightarrow> [h]) @ rs"
    using Cons.prems(3) r by (cases r) (auto simp: result_bind_Inr_iff)
  have ok: "manifests_ok env c [m] ws" "manifests_ok env c ms ws" using Cons.prems(2) manifests_ok_Cons by blast+
  have p1: "extends env ws ws1" "manifests_ok env c (case r of None \<Rightarrow> [] | Some h \<Rightarrow> [h]) ws1"
    using RemoveDeletedInternal_post [OF Cons.prems(1) ok(1) r] by (simp_all add: step_post_def)
  note s1 = state_ok_extends [OF Cons.prems(1) p1(1)] and o1 = manifests_ok_frame(1) [OF ok(2) p1(1)]
  have e1: "extends env ws1 ws'" using RemoveDeleted_post [OF s1 o1 rs(1)] by (simp add: step_post_def)
  have head: "IsManifestEntryStatusScannable e" if h: "r = Some h" "e \<in> set (entries_of (ws_store ws1) (snd h))" for h e
  proof -
    have "e \<in> set (filter (\<lambda>e. status e \<noteq> ICEBERG_MANIFEST_ENTRY_STATUS_DELETED) (entries_of (ws_store ws) (snd m)))"
      using RemoveDeletedInternal_cases [OF Cons.prems(1) ok(1) r] h by (elim disjE conjE exE) (simp, simp add: filter_id_conv, auto)
    then show ?thesis by (simp add: IsManifestEntryStatusScannable_def)
  qed
  have "entries_of (ws_store ws') (snd h) = entries_of (ws_store ws1) (snd h)" if "r = Some h" for h
    using entries_frame [OF p1(2) e1] that by simp
  then show ?case using Cons.IH [OF s1 o1 rs(1)] head by (cases r) (auto simp: rs(2))
qed simp



end
