(* ===== verification/Referenced_Files.thy ===== *)
theory Referenced_Files
  imports Snapshot
begin

text \<open>
  \<^verbatim>\<open>pg_lake_iceberg/src/iceberg/operations/find_referenced_files.c\<close>: the files a snapshot reaches
  (its manifest list, the manifests and the data files of their live entries), and the files that only
  expired snapshots reach, which \<^verbatim>\<open>DeleteUnreferencedFiles\<close> queues for deletion.

  The table of paths is the list of its keys in order of insertion.  It is a dynahash table with string
  keys, which compares and stores at most \<open>MAX_S3_PATH_LENGTH - 1\<close> characters of a path.  The order of
  \<^verbatim>\<open>hash_seq_search\<close> is the parameter \<open>seq_order\<close>; the reader of a \<^verbatim>\<open>metadata.json\<close> file is the parameter
  \<open>read_metadata\<close>.
\<close>

section \<open>Tables of paths\<close>

type_synonym file_hash = "string list"

definition MAX_S3_PATH_LENGTH :: nat where
  "MAX_S3_PATH_LENGTH = 5 + 63 + 1 + 1024 + 2"

definition hash_key :: "string \<Rightarrow> string" where
  "hash_key path = take (MAX_S3_PATH_LENGTH - 1) path"

definition CreateFilesHash :: file_hash where
  "CreateFilesHash = []"

definition AppendFileToHash :: "string \<Rightarrow> file_hash \<Rightarrow> bool \<times> file_hash" where
  "AppendFileToHash path fileHash =
     (if hash_key path \<in> set fileHash then (True, fileHash) else (False, fileHash @ [hash_key path]))"


section \<open>Files of a snapshot\<close>

definition add_data_file :: "file_hash \<Rightarrow> file_item \<Rightarrow> file_hash" where
  "add_data_file fileHash dataFile = snd (AppendFileToHash (item_path dataFile) fileHash)"

fun add_manifests :: "object_store \<Rightarrow> IcebergManifest list \<Rightarrow> file_hash \<Rightarrow> file_hash result" where
  "add_manifests st [] fileHash = Inr fileHash"
| "add_manifests st (manifest # manifests) fileHash =
     (case AppendFileToHash (manifest_path manifest) fileHash of (fileAlreadyExists, fileHash) \<Rightarrow>
        if fileAlreadyExists then add_manifests st manifests fileHash
        else
          result_bind (FetchDataFilesFromManifest st manifest False (Some IsManifestEntryStatusScannable) None) (\<lambda>manifestDataFiles.
          add_manifests st manifests (foldl add_data_file fileHash manifestDataFiles)))"

definition IcebergSnapshotAddAllReferencedFiles :: "object_store \<Rightarrow> IcebergSnapshot \<Rightarrow> file_hash \<Rightarrow> file_hash result" where
  "IcebergSnapshotAddAllReferencedFiles st snapshot fileHash =
     (case AppendFileToHash (manifest_list snapshot) fileHash of (fileAlreadyExists, fileHash) \<Rightarrow>
        if fileAlreadyExists then Inr fileHash
        else
          result_bind (FetchManifestsFromSnapshot st (Some snapshot) None) (\<lambda>manifests.
          add_manifests st manifests fileHash))"

fun add_snapshots :: "object_store \<Rightarrow> IcebergSnapshot list \<Rightarrow> file_hash \<Rightarrow> file_hash result" where
  "add_snapshots st [] fileHash = Inr fileHash"
| "add_snapshots st (snapshot # snaps) fileHash =
     result_bind (IcebergSnapshotAddAllReferencedFiles st snapshot fileHash) (add_snapshots st snaps)"

definition IcebergMetadataAddAllReferencedFiles ::
  "(string \<Rightarrow> IcebergTableMetadata result) \<Rightarrow> object_store \<Rightarrow> string \<Rightarrow> file_hash \<Rightarrow> file_hash result" where
  "IcebergMetadataAddAllReferencedFiles read_metadata st metadataPath fileHash =
     result_bind (read_metadata metadataPath) (\<lambda>metadata.
     add_snapshots st (snapshots metadata) (snd (AppendFileToHash metadataPath fileHash)))"

definition IcebergFindAllReferencedFiles ::
  "(string list \<Rightarrow> string list) \<Rightarrow> (string \<Rightarrow> IcebergTableMetadata result) \<Rightarrow> object_store \<Rightarrow> string \<Rightarrow> string list result" where
  "IcebergFindAllReferencedFiles seq_order read_metadata st metadataPath =
     result_bind (IcebergMetadataAddAllReferencedFiles read_metadata st metadataPath CreateFilesHash) (\<lambda>fileHash.
     Inr (seq_order fileHash))"


section \<open>Unreferenced files\<close>

definition FindUnreferencedFilesAmongHTABs :: "(string list \<Rightarrow> string list) \<Rightarrow> file_hash \<Rightarrow> file_hash \<Rightarrow> string list" where
  "FindUnreferencedFilesAmongHTABs seq_order prevReferencedFileHash currentReferencedFileHash =
     filter (\<lambda>path. hash_key path \<notin> set currentReferencedFileHash) (seq_order prevReferencedFileHash)"

definition FindUnreferencedFilesForSnapshots ::
  "(string list \<Rightarrow> string list) \<Rightarrow> object_store \<Rightarrow> IcebergSnapshot list \<Rightarrow> IcebergSnapshot list \<Rightarrow> string list result" where
  "FindUnreferencedFilesForSnapshots seq_order st prevSnapshots currentSnapshots =
     result_bind (add_snapshots st prevSnapshots CreateFilesHash) (\<lambda>prevReferencedFileHash.
     result_bind (add_snapshots st currentSnapshots CreateFilesHash) (\<lambda>currentReferencedFileHash.
     Inr (FindUnreferencedFilesAmongHTABs seq_order prevReferencedFileHash currentReferencedFileHash)))"

fun add_metadata_files ::
  "(string \<Rightarrow> IcebergTableMetadata result) \<Rightarrow> object_store \<Rightarrow> string list \<Rightarrow> file_hash \<Rightarrow> file_hash result" where
  "add_metadata_files read_metadata st [] fileHash = Inr fileHash"
| "add_metadata_files read_metadata st (path # paths) fileHash =
     result_bind (IcebergMetadataAddAllReferencedFiles read_metadata st path fileHash) (add_metadata_files read_metadata st paths)"

definition FindUnreferencedFiles ::
  "(string list \<Rightarrow> string list) \<Rightarrow> (string \<Rightarrow> IcebergTableMetadata result) \<Rightarrow> object_store \<Rightarrow> string list \<Rightarrow> string \<Rightarrow> string list result" where
  "FindUnreferencedFiles seq_order read_metadata st prevMetadataList currentMetadataPath =
     result_bind (add_metadata_files read_metadata st prevMetadataList CreateFilesHash) (\<lambda>prevReferencedFileHash.
     result_bind (IcebergMetadataAddAllReferencedFiles read_metadata st currentMetadataPath CreateFilesHash) (\<lambda>currentReferencedFileHash.
     Inr (FindUnreferencedFilesAmongHTABs seq_order prevReferencedFileHash currentReferencedFileHash)))"

definition GetIcebergSnapshotsViaSnapshotIdList :: "IcebergTableMetadata \<Rightarrow> int list \<Rightarrow> IcebergSnapshot list result" where
  "GetIcebergSnapshotsViaSnapshotIdList metadata snapshotIdList =
     result_map (\<lambda>snapshotId. GetIcebergSnapshotViaId metadata (word_of_int snapshotId)) snapshotIdList"

definition find_unreferenced_files_via_snapshot_ids ::
  "(string list \<Rightarrow> string list) \<Rightarrow> object_store \<Rightarrow> IcebergTableMetadata \<Rightarrow> int list \<Rightarrow> int list \<Rightarrow> string list result" where
  "find_unreferenced_files_via_snapshot_ids seq_order st metadata prevSnapshotIdList currentSnapshotIdList =
     result_bind (GetIcebergSnapshotsViaSnapshotIdList metadata prevSnapshotIdList) (\<lambda>prevSnapshots.
     result_bind (GetIcebergSnapshotsViaSnapshotIdList metadata currentSnapshotIdList) (\<lambda>currentSnapshots.
     FindUnreferencedFilesForSnapshots seq_order st prevSnapshots currentSnapshots))"

definition find_all_referenced_files_via_snapshot_ids ::
  "(string list \<Rightarrow> string list) \<Rightarrow> object_store \<Rightarrow> IcebergTableMetadata \<Rightarrow> int list \<Rightarrow> string list result" where
  "find_all_referenced_files_via_snapshot_ids seq_order st metadata snapshotIdList =
     result_bind (GetIcebergSnapshotsViaSnapshotIdList metadata snapshotIdList) (\<lambda>snaps.
     result_bind (add_snapshots st snaps CreateFilesHash) (\<lambda>fileHash. Inr (seq_order fileHash)))"


section \<open>The files a snapshot reaches\<close>

definition snapshot_files :: "object_store \<Rightarrow> IcebergSnapshot \<Rightarrow> string set" where
  "snapshot_files st s =
     insert (manifest_list s) (\<Union>m \<in> set (manifests_of st s). insert (manifest_path m) (live_paths st m))"

text \<open>Every manifest list and manifest can be read, no path is too long for the table, and a path names
  either a manifest list, or a manifest, or a data file.\<close>

definition list_paths :: "IcebergSnapshot set \<Rightarrow> string set" where
  "list_paths S = manifest_list ` S"

definition all_manifests :: "object_store \<Rightarrow> IcebergSnapshot set \<Rightarrow> IcebergManifest set" where
  "all_manifests st S = (\<Union>s \<in> S. set (manifests_of st s))"

definition paths_ok :: "object_store \<Rightarrow> IcebergSnapshot set \<Rightarrow> bool" where
  "paths_ok st S \<longleftrightarrow>
     (\<forall>s \<in> S. manifest_list_files st (manifest_list s) \<noteq> None) \<and>
     (\<forall>m \<in> all_manifests st S. manifest_files st (manifest_path m) \<noteq> None) \<and>
     (\<forall>s \<in> S. \<forall>p \<in> snapshot_files st s. length p < MAX_S3_PATH_LENGTH) \<and>
     list_paths S \<inter> manifest_path ` all_manifests st S = {} \<and>
     (\<forall>m \<in> all_manifests st S. live_paths st m \<inter> (list_paths S \<union> manifest_path ` all_manifests st S) = {})"

lemma hash_key_short: "length p < MAX_S3_PATH_LENGTH \<Longrightarrow> hash_key p = p"
  by (simp add: hash_key_def)

lemma AppendFileToHash_set:
  "length p < MAX_S3_PATH_LENGTH \<Longrightarrow> AppendFileToHash p h = (b, h') \<Longrightarrow> b = (p \<in> set h) \<and> set h' = insert p (set h)"
  by (auto simp: AppendFileToHash_def hash_key_short split: if_splits)

lemma add_data_files_set:
  "\<forall>d \<in> set ds. length (item_path d) < MAX_S3_PATH_LENGTH \<Longrightarrow> set (foldl add_data_file h ds) = set h \<union> item_path ` set ds"
proof (induction ds arbitrary: h)
  case (Cons d ds)
  have "set (add_data_file h d) = insert (item_path d) (set h)"
    using AppendFileToHash_set [of "item_path d" h] Cons.prems
    by (cases "AppendFileToHash (item_path d) h") (simp add: add_data_file_def)
  then show ?case using Cons by auto
qed simp

lemma fetch_live:
  assumes "manifest_files st (manifest_path m) \<noteq> None"
  shows "\<exists>ds. FetchDataFilesFromManifest st m False (Some IsManifestEntryStatusScannable) None = Inr ds \<and>
    item_path ` set ds = live_paths st m"
  using assms
  by (auto simp: FetchDataFilesFromManifest_def FetchManifestEntriesFromManifest_def ReadManifestEntries_def
      keep_if_def live_paths_def entries_of_def image_image)

text \<open>A manifest in the table has its live files in the table.\<close>

definition manifests_closed :: "object_store \<Rightarrow> IcebergSnapshot set \<Rightarrow> file_hash \<Rightarrow> bool" where
  "manifests_closed st S h \<longleftrightarrow> (\<forall>m \<in> all_manifests st S. manifest_path m \<in> set h \<longrightarrow> live_paths st m \<subseteq> set h)"

lemma live_paths_cong: "manifest_path m = manifest_path m' \<Longrightarrow> live_paths st m = live_paths st m'"
  by (simp add: live_paths_def entries_of_def)

lemma add_manifests_set:
  assumes "paths_ok st S" "set ms \<subseteq> all_manifests st S" "manifests_closed st S h"
  shows "\<exists>h'. add_manifests st ms h = Inr h' \<and> manifests_closed st S h' \<and>
    set h' = set h \<union> (\<Union>m \<in> set ms. insert (manifest_path m) (live_paths st m))"
  using assms(2,3)
proof (induction ms arbitrary: h)
  case (Cons m ms)
  have m: "m \<in> all_manifests st S" using Cons.prems by simp
  then obtain s where s: "s \<in> S" "m \<in> set (manifests_of st s)" by (auto simp: all_manifests_def)
  have sub: "manifest_path m \<in> snapshot_files st s" "p \<in> live_paths st m \<Longrightarrow> p \<in> snapshot_files st s" for p
    using s(2) by (auto simp: snapshot_files_def)
  have "\<forall>p \<in> snapshot_files st s. length p < MAX_S3_PATH_LENGTH" using assms(1) s(1) by (simp add: paths_ok_def)
  then have short: "length (manifest_path m) < MAX_S3_PATH_LENGTH" "\<forall>p \<in> live_paths st m. length p < MAX_S3_PATH_LENGTH"
    using sub by simp_all
  obtain b h1 where a: "AppendFileToHash (manifest_path m) h = (b, h1)" by (metis surj_pair)
  note h1 = AppendFileToHash_set [OF short(1) a]
  obtain ds where ds: "FetchDataFilesFromManifest st m False (Some IsManifestEntryStatusScannable) None = Inr ds"
    "item_path ` set ds = live_paths st m"
    using fetch_live [of st m] assms(1) m by (auto simp: paths_ok_def)
  show ?case
  proof (cases b)
    case True
    then have same: "set h1 = set h" "manifest_path m \<in> set h" using h1 by auto
    then have "live_paths st m \<subseteq> set h" using Cons.prems(2) m by (auto simp: manifests_closed_def)
    moreover have "manifests_closed st S h1" using Cons.prems(2) same by (simp add: manifests_closed_def)
    moreover from this obtain h' where "add_manifests st ms h1 = Inr h'" "manifests_closed st S h'"
      "set h' = set h1 \<union> (\<Union>m \<in> set ms. insert (manifest_path m) (live_paths st m))"
      using Cons.IH [of h1] Cons.prems(1) by auto
    ultimately show ?thesis using same True a by (intro exI [of _ h']) auto
  next
    case False
    have "\<forall>d \<in> set ds. length (item_path d) < MAX_S3_PATH_LENGTH" using short(2) unfolding ds(2) [symmetric] by simp
    from add_data_files_set [OF this, of h1] have h2: "set (foldl add_data_file h1 ds) = insert (manifest_path m) (set h) \<union> live_paths st m"
      using ds(2) h1 by auto
    have "manifests_closed st S (foldl add_data_file h1 ds)"
    proof -
      have "live_paths st n \<subseteq> set h \<union> live_paths st m"
        if "n \<in> all_manifests st S" "manifest_path n \<in> insert (manifest_path m) (set h) \<union> live_paths st m" for n
      proof -
        have "manifest_path n \<notin> live_paths st m" using assms(1) m that(1) by (fastforce simp: paths_ok_def)
        then show ?thesis using that Cons.prems(2) live_paths_cong [of n m st] by (auto simp: manifests_closed_def)
      qed
      then show ?thesis unfolding manifests_closed_def h2 by blast
    qed
    then obtain h' where "add_manifests st ms (foldl add_data_file h1 ds) = Inr h'" "manifests_closed st S h'"
      "set h' = set (foldl add_data_file h1 ds) \<union> (\<Union>m \<in> set ms. insert (manifest_path m) (live_paths st m))"
      using Cons.IH [of "foldl add_data_file h1 ds"] Cons.prems(1) by auto
    then show ?thesis using False h2 a ds(1) by (intro exI [of _ h']) auto
  qed
qed simp


text \<open>A manifest list in the table has its manifests and their live files in the table.\<close>

definition lists_closed :: "object_store \<Rightarrow> IcebergSnapshot set \<Rightarrow> file_hash \<Rightarrow> bool" where
  "lists_closed st S h \<longleftrightarrow> (\<forall>s \<in> S. manifest_list s \<in> set h \<longrightarrow> snapshot_files st s \<subseteq> set h)"

lemma snapshot_files_cong: "manifest_list s = manifest_list t \<Longrightarrow> snapshot_files st s = snapshot_files st t"
  by (simp add: snapshot_files_def manifests_of_def)

lemma add_snapshot_set:
  assumes ok: "paths_ok st S" and s: "s \<in> S" and cl: "manifests_closed st S h" "lists_closed st S h"
  shows "\<exists>h'. IcebergSnapshotAddAllReferencedFiles st s h = Inr h' \<and> manifests_closed st S h' \<and> lists_closed st S h' \<and>
    set h' = set h \<union> snapshot_files st s"
proof -
  have short: "length (manifest_list s) < MAX_S3_PATH_LENGTH" using ok s by (simp add: paths_ok_def snapshot_files_def)
  obtain b h1 where a: "AppendFileToHash (manifest_list s) h = (b, h1)" by (metis surj_pair)
  note h1 = AppendFileToHash_set [OF short a]
  have fetch: "FetchManifestsFromSnapshot st (Some s) None = Inr (manifests_of st s)"
    using ok s by (auto simp: paths_ok_def FetchManifestsFromSnapshot_def ReadIcebergManifests_def manifests_of_def keep_if_def)
  have sub: "set (manifests_of st s) \<subseteq> all_manifests st S" using s by (auto simp: all_manifests_def)
  show ?thesis
  proof (cases b)
    case True
    then have "set h1 = set h" "snapshot_files st s \<subseteq> set h" using h1 cl(2) s by (auto simp: lists_closed_def)
    then show ?thesis using cl True a
      by (auto simp: IcebergSnapshotAddAllReferencedFiles_def manifests_closed_def lists_closed_def)
  next
    case False
    have "manifest_path m \<noteq> manifest_list s" if "m \<in> all_manifests st S" for m
    proof -
      have "manifest_list s \<in> list_paths S" using s by (simp add: list_paths_def)
      moreover have "list_paths S \<inter> manifest_path ` all_manifests st S = {}" using ok by (simp add: paths_ok_def)
      ultimately show ?thesis using that by (metis disjoint_iff imageI)
    qed
    then have "manifests_closed st S h1" using cl(1) h1 by (auto simp: manifests_closed_def)
    from add_manifests_set [OF ok sub this] obtain h' where h': "add_manifests st (manifests_of st s) h1 = Inr h'"
      "manifests_closed st S h'" "set h' = set h1 \<union> (\<Union>m \<in> set (manifests_of st s). insert (manifest_path m) (live_paths st m))"
      by blast
    then have set: "set h' = set h \<union> snapshot_files st s" using h1 by (auto simp: snapshot_files_def)
    have "snapshot_files st t \<subseteq> set h'" if t: "t \<in> S" "manifest_list t \<in> set h \<union> snapshot_files st s" for t
    proof -
      have "manifest_list t \<in> list_paths S" using t(1) by (simp add: list_paths_def)
      then have "manifest_list t \<notin> manifest_path ` all_manifests st S" "\<forall>m \<in> all_manifests st S. manifest_list t \<notin> live_paths st m"
        using ok by (auto simp: paths_ok_def)
      then have "manifest_list t \<in> set h \<or> manifest_list t = manifest_list s"
        using t(2) sub by (auto simp: snapshot_files_def)
      then show ?thesis
        using cl(2) t(1) set snapshot_files_cong [of t s st] by (auto simp: lists_closed_def)
    qed
    then have "lists_closed st S h'" unfolding lists_closed_def set by (simp add: set)
    then show ?thesis using h' set False a fetch by (simp add: IcebergSnapshotAddAllReferencedFiles_def)
  qed
qed

lemma add_snapshots_set:
  assumes ok: "paths_ok st S" and "set ss \<subseteq> S" "manifests_closed st S h" "lists_closed st S h"
  shows "\<exists>h'. add_snapshots st ss h = Inr h' \<and> set h' = set h \<union> (\<Union>s \<in> set ss. snapshot_files st s)"
  using assms(2-4)
proof (induction ss arbitrary: h)
  case (Cons s ss)
  have s: "s \<in> S" using Cons.prems(1) by simp
  obtain h1 where h1: "IcebergSnapshotAddAllReferencedFiles st s h = Inr h1" "manifests_closed st S h1" "lists_closed st S h1"
    "set h1 = set h \<union> snapshot_files st s" using add_snapshot_set [OF ok s Cons.prems(2,3)] by blast
  then obtain h' where "add_snapshots st ss h1 = Inr h'" "set h' = set h1 \<union> (\<Union>s \<in> set ss. snapshot_files st s)"
    using Cons.IH [OF _ h1(2,3)] Cons.prems(1) by auto
  then show ?case using h1 by (intro exI [of _ h']) auto
qed simp


lemma unreferenced_exact:
  assumes "paths_ok st (set prevSnapshots \<union> set currentSnapshots)" "\<And>ks. set (seq_order ks) = set ks"
  shows "\<exists>files. FindUnreferencedFilesForSnapshots seq_order st prevSnapshots currentSnapshots = Inr files \<and>
    set files = (\<Union>s \<in> set prevSnapshots. snapshot_files st s) - (\<Union>s \<in> set currentSnapshots. snapshot_files st s)"
proof -
  have empty: "manifests_closed st S []" "lists_closed st S []" for S by (simp_all add: manifests_closed_def lists_closed_def)
  obtain p where p: "add_snapshots st prevSnapshots [] = Inr p" "set p = (\<Union>s \<in> set prevSnapshots. snapshot_files st s)"
    using add_snapshots_set [OF assms(1) _ empty, of prevSnapshots] by auto
  obtain c where c: "add_snapshots st currentSnapshots [] = Inr c" "set c = (\<Union>s \<in> set currentSnapshots. snapshot_files st s)"
    using add_snapshots_set [OF assms(1) _ empty, of currentSnapshots] by auto
  have "\<forall>path \<in> set p. hash_key path = path" using assms(1) p(2) hash_key_short by (fastforce simp: paths_ok_def)
  then show ?thesis
    using p c assms(2)
    by (auto simp: FindUnreferencedFilesForSnapshots_def FindUnreferencedFilesAmongHTABs_def CreateFilesHash_def)
qed


lemma sample_store_parts:
  "manifests_of sample_store (sample_snapshot sid ''l1'') = [sample_manifest ''m1'', sample_manifest ''m2'']"
  "manifests_of sample_store (sample_snapshot sid ''l2'') = [sample_manifest ''m2'', sample_manifest ''m3'']"
  "live_paths sample_store (sample_manifest ''m1'') = {''d1''}"
  "live_paths sample_store (sample_manifest ''m2'') = {''d2''}"
  "live_paths sample_store (sample_manifest ''m3'') = {}"
  "manifest_path (sample_manifest p) = p" "manifest_list (sample_snapshot sid p) = p"
  by (simp_all add: manifests_of_def sample_store_def sample_snapshot_def sample_manifest_def live_paths_def entries_of_def
      sample_entry_def sample_file_def IsManifestEntryStatusScannable_def)

lemma sample_snapshot_files:
  "snapshot_files sample_store (sample_snapshot sid ''l1'') = {''l1'', ''m2'', ''d2'', ''m1'', ''d1''}"
  "snapshot_files sample_store (sample_snapshot sid ''l2'') = {''l2'', ''m3'', ''m2'', ''d2''}"
  by (simp_all add: snapshot_files_def sample_store_parts)

lemma sample_paths_ok: "paths_ok sample_store {sample_snapshot 1 ''l1'', sample_snapshot 2 ''l2''}"
proof -
  have m: "all_manifests sample_store {sample_snapshot 1 ''l1'', sample_snapshot 2 ''l2''} =
      {sample_manifest ''m1'', sample_manifest ''m2'', sample_manifest ''m3''}"
    by (auto simp: all_manifests_def sample_store_parts)
  show ?thesis
    unfolding paths_ok_def m list_paths_def
    by (simp add: sample_snapshot_files sample_store_parts MAX_S3_PATH_LENGTH_def) (simp add: sample_store_def)
qed


section \<open>Properties\<close>

text \<open>C14: expiring snapshots reports exactly the files that only expired snapshots reach.  When the manifests can
  be read, paths fit into the table and no path has two roles, the search succeeds and its result is the
  set of files of the expired snapshots minus the files of the retained ones.  So no file that a retained
  snapshot needs is ever deleted, and no other file is left behind.\<close>

theorem FindUnreferencedFiles_exact:
  assumes "paths_ok st (set prevSnapshots \<union> set currentSnapshots)" "\<And>ks. set (seq_order ks) = set ks"
  shows "\<exists>files. FindUnreferencedFilesForSnapshots seq_order st prevSnapshots currentSnapshots = Inr files \<and>
    set files = (\<Union>s \<in> set prevSnapshots. snapshot_files st s) - (\<Union>s \<in> set currentSnapshots. snapshot_files st s)"
  using assms by (rule unreferenced_exact)

theorem FindUnreferencedFiles_exact_witness:
  "\<exists>files. FindUnreferencedFilesForSnapshots id sample_store [sample_snapshot 1 ''l1''] [sample_snapshot 2 ''l2''] = Inr files \<and>
    set files = {''l1'', ''m1'', ''d1''}"
proof -
  have "paths_ok sample_store (set [sample_snapshot 1 ''l1''] \<union> set [sample_snapshot 2 ''l2''])"
    using sample_paths_ok by (simp add: insert_commute)
  from FindUnreferencedFiles_exact [OF this, of id] show ?thesis by (simp add: sample_snapshot_files insert_Diff_if)
qed

end
