(* ===== verification/Table_Metadata.thy ===== *)
theory Table_Metadata
  imports Referenced_Files
begin

text \<open>
  \<^verbatim>\<open>pg_lake_iceberg/src/iceberg/api/table_metadata.c\<close>: the in-memory operations on the table metadata.
  The clock, random UUIDs, the owner's name and the schema builder are arguments; the rows inserted into
  the deletion queue are returned as a list.  Times and ages are words, since the age check mixes signed
  and unsigned arithmetic.
\<close>

section \<open>New tables\<close>

definition GenerateEmptyTableMetadata :: "string \<Rightarrow> int \<Rightarrow> string \<Rightarrow> string \<Rightarrow> IcebergTableMetadata" where
  "GenerateEmptyTableMetadata uuid now owner loc =
     \<lparr>format_version = 2, table_uuid = uuid, location = loc, last_sequence_number = 0, last_updated_ms = now,
      last_column_id = 0, current_schema_id = 0, schemas = [], default_spec_id = 0, partition_specs = [],
      last_partition_id = 0, properties = [(''owner'', owner)], partition_statistics = [], current_snapshot_id = - 1,
      snapshots = [], snapshot_log = [], metadata_log = [], sort_orders = [\<lparr>order_id = 0, so_fields = []\<rparr>],
      default_sort_order_id = 0, refs = [], statistics = []\<rparr>"

text \<open>\<open>%05d\<close>: at least five digits.\<close>

definition pad5 :: "int \<Rightarrow> string" where
  "pad5 n = (if n < 0 then ''-'' @ replicate (4 - length (nat_digits (nat (- n)))) (CHR ''0'') @ nat_digits (nat (- n))
             else replicate (5 - length (nat_digits (nat n))) (CHR ''0'') @ nat_digits (nat n))"

definition GenerateRemoteMetadataFilePath :: "string \<Rightarrow> int \<Rightarrow> string \<Rightarrow> string \<Rightarrow> string" where
  "GenerateRemoteMetadataFilePath uuid version loc queryArguments =
     loc @ ''/metadata/'' @ pad5 version @ ''-'' @ uuid @ ''.metadata.json'' @ queryArguments"

definition GenerateInitialIcebergTableMetadataPath :: "string \<Rightarrow> string \<times> string \<Rightarrow> string" where
  "GenerateInitialIcebergTableMetadataPath uuid writableTableLocation =
     (case writableTableLocation of (loc, queryArguments) \<Rightarrow> GenerateRemoteMetadataFilePath uuid 0 loc queryArguments)"

definition GenerateInitialIcebergTableMetadata :: "string \<Rightarrow> int \<Rightarrow> string \<Rightarrow> string \<times> string \<Rightarrow> IcebergTableMetadata" where
  "GenerateInitialIcebergTableMetadata uuid now owner writableTableLocation =
     GenerateEmptyTableMetadata uuid now owner (fst writableTableLocation)"


section \<open>Snapshots and logs\<close>

definition GenerateSnapshotLogEntries :: "IcebergTableMetadata \<Rightarrow> IcebergTableMetadata" where
  "GenerateSnapshotLogEntries metadata =
     metadata\<lparr>snapshot_log :=
       map (\<lambda>s. \<lparr>sl_timestamp_ms = timestamp_ms s, sl_snapshot_id = snapshot_id s\<rparr>) (snapshots metadata)\<rparr>"

definition ICEBERG_MAIN_BRANCH :: string where
  "ICEBERG_MAIN_BRANCH = ''main''"

text \<open>The first reference is overwritten in place, so the retention settings a reader found in it stay.\<close>

definition SetSnapshotReference :: "IcebergTableMetadata \<Rightarrow> int \<Rightarrow> IcebergTableMetadata" where
  "SetSnapshotReference metadata snapshotId =
     (let newEntry = (case refs metadata of
          [] \<Rightarrow> \<lparr>ref_key = [], ref_snapshot_id = 0, ref_type = SNAPSHOT_REFERENCE_TYPE_TAG, min_snapshots_to_keep = None,
                 max_snapshot_age_ms = None, max_ref_age_ms = None\<rparr>
        | r # _ \<Rightarrow> r)
      in metadata\<lparr>refs := [newEntry\<lparr>ref_key := ICEBERG_MAIN_BRANCH, ref_snapshot_id := snapshotId,
                                   ref_type := SNAPSHOT_REFERENCE_TYPE_BRANCH\<rparr>]\<rparr>)"

definition AddIcebergSnapshotToMetadata :: "IcebergTableMetadata \<Rightarrow> IcebergSnapshot \<Rightarrow> IcebergTableMetadata" where
  "AddIcebergSnapshotToMetadata metadata newSnapshot = metadata\<lparr>snapshots := snapshots metadata @ [newSnapshot]\<rparr>"

definition UpdateLatestSnapshot :: "IcebergTableMetadata \<Rightarrow> IcebergSnapshot \<Rightarrow> IcebergTableMetadata" where
  "UpdateLatestSnapshot tableMetadata newSnapshot =
     (SetSnapshotReference (AddIcebergSnapshotToMetadata tableMetadata newSnapshot) (snapshot_id newSnapshot))
       \<lparr>current_snapshot_id := snapshot_id newSnapshot\<rparr>"

definition AdjustAndRetainMetadataLogs ::
  "IcebergTableMetadata \<Rightarrow> string \<Rightarrow> nat \<Rightarrow> int \<Rightarrow> IcebergTableMetadata" where
  "AdjustAndRetainMetadataLogs metadata prevMetadataPath snapshotLogLength prev_last_updated_ms =
     (if snapshotLogLength = 0 then metadata\<lparr>metadata_log := []\<rparr>
      else
        let oldMetadataLength = length (metadata_log metadata);
            newMetadataLength = oldMetadataLength + 1;
            newMetadataLength = (if newMetadataLength > snapshotLogLength then snapshotLogLength else newMetadataLength);
            entriesToCopy = min oldMetadataLength (newMetadataLength - 1)
        in metadata\<lparr>metadata_log := drop (oldMetadataLength - entriesToCopy) (metadata_log metadata) @
             [\<lparr>ml_timestamp_ms = prev_last_updated_ms, metadata_file = prevMetadataPath\<rparr>]\<rparr>)"


section \<open>Expiring snapshots\<close>

text \<open>\<^verbatim>\<open>(uint64_t) maxAgeInSecs * 1000\<close>, compared with a signed difference converted to \<^verbatim>\<open>uint64_t\<close>.\<close>

definition SnapshotAgeExceeded :: "IcebergSnapshot \<Rightarrow> int \<Rightarrow> int \<Rightarrow> bool" where
  "SnapshotAgeExceeded snapshot currentTimeMs maxAgeInSecs \<longleftrightarrow>
     (let maxAgeMs = word_of_int maxAgeInSecs * 1000 :: u64
      in (word_of_int (currentTimeMs - timestamp_ms snapshot) :: u64) > maxAgeMs)"

definition GroupExpiredSnapshots ::
  "IcebergTableMetadata \<Rightarrow> int \<Rightarrow> int \<Rightarrow> IcebergSnapshot list \<times> IcebergSnapshot list" where
  "GroupExpiredSnapshots metadata currentTimeMs maxSnapshotAgeInSecs =
     (filter (\<lambda>s. SnapshotAgeExceeded s currentTimeMs maxSnapshotAgeInSecs) (snapshots metadata),
      filter (\<lambda>s. \<not> SnapshotAgeExceeded s currentTimeMs maxSnapshotAgeInSecs) (snapshots metadata))"

definition DeleteUnreferencedFiles ::
  "(string list \<Rightarrow> string list) \<Rightarrow> object_store \<Rightarrow> IcebergSnapshot list \<Rightarrow> IcebergSnapshot list \<Rightarrow> string list result" where
  "DeleteUnreferencedFiles seq_order st expiredSnapshots nonExpiredSnapshots =
     FindUnreferencedFilesForSnapshots seq_order st expiredSnapshots nonExpiredSnapshots"

text \<open>The expired ids, the metadata after the call, and the paths inserted into the deletion queue.\<close>

definition RemoveOldSnapshotsFromMetadata ::
  "(string list \<Rightarrow> string list) \<Rightarrow> object_store \<Rightarrow> bool \<Rightarrow> IcebergTableMetadata \<Rightarrow> int \<Rightarrow> int
     \<Rightarrow> (int list \<times> IcebergTableMetadata \<times> string list) result" where
  "RemoveOldSnapshotsFromMetadata seq_order st writableRestCatalogTable metadata currentTimeMs maxSnapshotAgeInSecs =
     (if snapshots metadata = [] then Inr ([], metadata, [])
      else
        case GroupExpiredSnapshots metadata currentTimeMs maxSnapshotAgeInSecs of (expiredSnapshots, nonExpiredSnapshots) \<Rightarrow>
        if expiredSnapshots = [] then Inr ([], metadata, [])
        else
          let (expiredSnapshots, nonExpiredSnapshots) =
            (if nonExpiredSnapshots = [] then (butlast expiredSnapshots, [last (snapshots metadata)])
             else (expiredSnapshots, nonExpiredSnapshots))
          in if expiredSnapshots = [] then Inr ([], metadata, [])
             else
               result_bind (DeleteUnreferencedFiles seq_order st expiredSnapshots nonExpiredSnapshots) (\<lambda>files.
               Inr (map snapshot_id expiredSnapshots,
                    (if writableRestCatalogTable then metadata else metadata\<lparr>snapshots := nonExpiredSnapshots\<rparr>),
                    files)))"


section \<open>Schemas and partition specs\<close>

fun largest_field_id :: "IcebergPartitionSpecField list \<Rightarrow> int \<Rightarrow> int" where
  "largest_field_id [] largestFieldId = largestFieldId"
| "largest_field_id (field # rest) largestFieldId =
     largest_field_id rest (if psf_field_id field > largestFieldId then psf_field_id field else largestFieldId)"

definition FindLargestPartitionFieldId :: "IcebergPartitionSpec \<Rightarrow> int" where
  "FindLargestPartitionFieldId newSpec = largest_field_id (spec_fields newSpec) 0"

fun max_schema_id :: "IcebergTableSchema list \<Rightarrow> int \<Rightarrow> int" where
  "max_schema_id [] maxSchemaId = maxSchemaId"
| "max_schema_id (s # ss) maxSchemaId = max_schema_id ss (if schema_id s > maxSchemaId then schema_id s else maxSchemaId)"

definition MaxSchemaId :: "IcebergTableSchema list \<Rightarrow> int" where
  "MaxSchemaId ss = max_schema_id ss (- 1)"

text \<open>\<^verbatim>\<open>RebuildIcebergSchemaFromDataFileSchema\<close> is the parameter \<open>rebuild\<close>: from a schema and the last column
  id it makes the Iceberg schema and the new last column id.\<close>

definition AppendCurrentPostgresSchema ::
  "('schema \<Rightarrow> int \<Rightarrow> IcebergTableSchema \<times> int) \<Rightarrow> IcebergTableMetadata \<Rightarrow> 'schema \<Rightarrow> IcebergTableMetadata" where
  "AppendCurrentPostgresSchema rebuild metadata schema =
     (case rebuild schema (last_column_id metadata) of (newSchema, lastColumnId) \<Rightarrow>
        let newId = (if schemas metadata = [] then 0 else MaxSchemaId (schemas metadata) + 1);
            newSchema = newSchema\<lparr>schema_id := newId\<rparr>
        in metadata\<lparr>last_column_id := lastColumnId, schemas := schemas metadata @ [newSchema], current_schema_id := newId\<rparr>)"

definition AppendPartitionSpec :: "IcebergTableMetadata \<Rightarrow> IcebergPartitionSpec \<Rightarrow> IcebergTableMetadata" where
  "AppendPartitionSpec metadata newSpec =
     (let metadata = metadata\<lparr>partition_specs := partition_specs metadata @ [newSpec]\<rparr>
      in if spec_fields newSpec \<noteq> [] then metadata\<lparr>last_partition_id := FindLargestPartitionFieldId newSpec\<rparr> else metadata)"

definition GetAllIcebergPartitionSpecsFromTableMetadata :: "IcebergTableMetadata \<Rightarrow> IcebergPartitionSpec list" where
  "GetAllIcebergPartitionSpecsFromTableMetadata metadata = partition_specs metadata"


section \<open>Properties\<close>

definition sample_metadata :: IcebergTableMetadata where
  "sample_metadata = (GenerateEmptyTableMetadata ''u'' 0 ''o'' ''s3://b'')
     \<lparr>last_sequence_number := 2, last_updated_ms := 2000, current_snapshot_id := 2,
      snapshots := [sample_snapshot 1 ''l1'', sample_snapshot 2 ''l2'']\<rparr>"

lemma age_ms: "0 \<le> age \<Longrightarrow> age < 2 ^ 31 \<Longrightarrow> uint (word_of_int age * 1000 :: u64) = age * 1000"
proof -
  assume a: "0 \<le> age" "age < 2 ^ 31"
  have "word_of_int age * 1000 = (word_of_int (age * 1000) :: u64)" by (simp only: of_int_mult of_int_numeral)
  moreover have "(age * 1000) mod 2 ^ LENGTH(64) = age * 1000" using a by (intro mod_pos_pos_trivial) simp_all
  ultimately show ?thesis by (simp only: uint_word_of_int take_bit_eq_mod)
qed

lemma SnapshotAgeExceeded_past:
  assumes "timestamp_ms s \<le> now" "now - timestamp_ms s < 2 ^ 63" "0 \<le> age" "age < 2 ^ 31"
  shows "SnapshotAgeExceeded s now age \<longleftrightarrow> now - timestamp_ms s > age * 1000"
proof -
  have d: "uint (word_of_int (now - timestamp_ms s) :: u64) = now - timestamp_ms s"
    using assms(1,2) unfolding uint_word_of_int take_bit_eq_mod by (intro mod_pos_pos_trivial) simp_all
  show ?thesis unfolding SnapshotAgeExceeded_def Let_def word_less_def age_ms [OF assms(3,4)] d by (rule refl)
qed

text \<open>C35: a snapshot whose timestamp is later than the current time is always taken for an old one: the negative
  age is converted to an unsigned number.\<close>

theorem SnapshotAgeExceeded_future:
  assumes "now < timestamp_ms s" "timestamp_ms s - now < 2 ^ 63" "0 \<le> age" "age < 2 ^ 31"
  shows "SnapshotAgeExceeded s now age"
proof -
  have d: "uint (word_of_int (now - timestamp_ms s) :: u64) = now - timestamp_ms s + 2 ^ 64"
  proof -
    have "(now - timestamp_ms s + 2 ^ 64) mod 2 ^ 64 = now - timestamp_ms s + 2 ^ 64"
      using assms(1,2) by (intro mod_pos_pos_trivial) simp_all
    then show ?thesis by (simp only: uint_word_of_int take_bit_eq_mod) simp
  qed
  show ?thesis unfolding SnapshotAgeExceeded_def Let_def word_less_def age_ms [OF assms(3,4)] d using assms by simp
qed

theorem SnapshotAgeExceeded_future_witness: "SnapshotAgeExceeded (sample_snapshot 2 ''l2'') 1999 259200"
  by (rule SnapshotAgeExceeded_future) (simp_all add: sample_snapshot_def)

lemma GroupExpired_sorted:
  assumes "sorted (map timestamp_ms ss)" "\<forall>s \<in> set ss. timestamp_ms s \<le> now \<and> now - timestamp_ms s < 2 ^ 63"
    "0 \<le> age" "age < 2 ^ 31"
  shows "ss = filter (\<lambda>s. SnapshotAgeExceeded s now age) ss @ filter (\<lambda>s. \<not> SnapshotAgeExceeded s now age) ss"
  using assms(1,2)
proof (induction ss)
  case (Cons s ss)
  show ?case
  proof (cases "SnapshotAgeExceeded s now age")
    case True
    then show ?thesis using Cons by simp
  next
    case False
    have "\<not> SnapshotAgeExceeded t now age" if "t \<in> set ss" for t
    proof -
      have "timestamp_ms s \<le> timestamp_ms t" using Cons.prems(1) that by simp
      then show ?thesis
        using False SnapshotAgeExceeded_past [OF _ _ assms(3,4), of s now] SnapshotAgeExceeded_past [OF _ _ assms(3,4), of t now]
          Cons.prems(2) that by simp
    qed
    then show ?thesis using False by (simp add: filter_id_conv)
  qed
qed simp

lemma RemoveOldSnapshots_cases:
  assumes "RemoveOldSnapshotsFromMetadata seq_order st rest md now age = Inr (ids, md', files)"
  shows "(ids = [] \<and> md' = md \<and> files = []) \<or>
    (\<exists>expired kept. expired \<noteq> [] \<and> kept \<noteq> [] \<and> ids = map snapshot_id expired \<and>
       md' = (if rest then md else md\<lparr>snapshots := kept\<rparr>) \<and>
       FindUnreferencedFilesForSnapshots seq_order st expired kept = Inr files \<and>
       (let e = filter (\<lambda>s. SnapshotAgeExceeded s now age) (snapshots md);
            k = filter (\<lambda>s. \<not> SnapshotAgeExceeded s now age) (snapshots md)
        in (expired, kept) = (if k = [] then (butlast e, [last (snapshots md)]) else (e, k))))"
proof -
  define e where "e = filter (\<lambda>s. SnapshotAgeExceeded s now age) (snapshots md)"
  define k where "k = filter (\<lambda>s. \<not> SnapshotAgeExceeded s now age) (snapshots md)"
  have eq: "RemoveOldSnapshotsFromMetadata seq_order st rest md now age =
    (if snapshots md = [] \<or> e = [] then Inr ([], md, [])
     else let (expired, kept) = (if k = [] then (butlast e, [last (snapshots md)]) else (e, k)) in
       if expired = [] then Inr ([], md, [])
       else result_bind (FindUnreferencedFilesForSnapshots seq_order st expired kept) (\<lambda>files.
         Inr (map snapshot_id expired, (if rest then md else md\<lparr>snapshots := kept\<rparr>), files)))"
    by (simp add: RemoveOldSnapshotsFromMetadata_def GroupExpiredSnapshots_def DeleteUnreferencedFiles_def e_def k_def)
  show ?thesis
    using assms unfolding eq Let_def e_def [symmetric] k_def [symmetric]
    by (cases "k = []") (auto simp: result_bind_Inr_iff split: if_splits)
qed



text \<open>after a new snapshot with a fresh id is made the latest one, it is the current snapshot.\<close>

theorem UpdateLatestSnapshot_current:
  assumes "snapshot_id new \<notin> snapshot_id ` set (snapshots md)"
  shows "GetCurrentSnapshot (Some (UpdateLatestSnapshot md new)) missingOk = Inr (Some new)"
proof -
  have "filter (\<lambda>s. snapshot_id s = snapshot_id new) (snapshots md) = []" using assms by (auto simp: filter_empty_conv image_iff)
  then show ?thesis
    by (simp add: GetCurrentSnapshot_def FetchSnapshotsFromTableMetadata_def IsCurrentSnapshot_def UpdateLatestSnapshot_def
        SetSnapshotReference_def AddIcebergSnapshotToMetadata_def Let_def)
qed

theorem UpdateLatestSnapshot_current_witness:
  "GetCurrentSnapshot (Some (UpdateLatestSnapshot sample_metadata (sample_snapshot 3 ''l3''))) False =
     Inr (Some (sample_snapshot 3 ''l3''))"
  by (rule UpdateLatestSnapshot_current) (simp add: sample_metadata_def sample_snapshot_def)

text \<open>the metadata log keeps the newest entries: it is the last \<open>snapshotLogLength\<close> entries of the old log
  followed by the entry of the previous metadata file.\<close>

theorem AdjustAndRetainMetadataLogs_suffix:
  "metadata_log (AdjustAndRetainMetadataLogs md path n ts) =
     (let log = metadata_log md @ [\<lparr>ml_timestamp_ms = ts, metadata_file = path\<rparr>] in drop (length log - n) log)"
  by (auto simp: AdjustAndRetainMetadataLogs_def Let_def min_def)

lemma max_schema_id_ge: "m \<le> max_schema_id ss m \<and> (\<forall>s \<in> set ss. schema_id s \<le> max_schema_id ss m)"
proof (induction ss arbitrary: m)
  case (Cons s ss)
  show ?case using Cons [of "if schema_id s > m then schema_id s else m"] by auto
qed simp

text \<open>adding a schema gives it an id no other schema has, and makes it the current schema.\<close>

theorem AppendCurrentPostgresSchema_fresh:
  assumes "distinct (map schema_id (schemas md))"
  shows "let md' = AppendCurrentPostgresSchema rebuild md schema in distinct (map schema_id (schemas md')) \<and>
    (\<exists>id. filter (\<lambda>t. schema_id t = current_schema_id md') (schemas md') =
       [(fst (rebuild schema (last_column_id md)))\<lparr>schema_id := id\<rparr>])"
proof -
  obtain s lastId where r: "rebuild schema (last_column_id md) = (s, lastId)" by (metis surj_pair)
  have "schema_id t < MaxSchemaId (schemas md) + 1" if "t \<in> set (schemas md)" for t
    using max_schema_id_ge [of "- 1" "schemas md"] that by (auto simp: MaxSchemaId_def)
  then have fresh: "MaxSchemaId (schemas md) + 1 \<notin> schema_id ` set (schemas md)" by fastforce
  then have "filter (\<lambda>t. schema_id t = MaxSchemaId (schemas md) + 1) (schemas md) = []"
    by (auto simp: filter_empty_conv image_iff)
  then show ?thesis using assms(1) fresh r by (auto simp: AppendCurrentPostgresSchema_def Let_def)
qed

theorem AppendCurrentPostgresSchema_fresh_witness:
  "distinct (map schema_id (schemas (AppendCurrentPostgresSchema
     (\<lambda>name lastId. (\<lparr>schema_id = 0, schema_type = ''struct'', schema_fields = [FieldStructElement (lastId + 1) name True None None None None (FieldScalar ''int'')], identifier_field_ids = []\<rparr>, lastId + 1))
     sample_metadata ''a'')))"
  using AppendCurrentPostgresSchema_fresh [of sample_metadata
     "\<lambda>name lastId. (\<lparr>schema_id = 0, schema_type = ''struct'', schema_fields = [FieldStructElement (lastId + 1) name True None None None None (FieldScalar ''int'')], identifier_field_ids = []\<rparr>, lastId + 1)" "''a''"]
  by (simp add: sample_metadata_def GenerateEmptyTableMetadata_def Let_def)

end
