(* ===== verification/String_Utils.thy ===== *)
theory String_Utils
  imports Prelude
begin

text \<open>
  \<^verbatim>\<open>pg_lake_engine/src/utils/string_utils.c\<close>: UUIDs, path clean-up, SQL literals and substring search.
  A C string is a \<open>string\<close> without zero bytes; a pointer into a string is the suffix it points to.  Random
  bytes are an argument, \<^verbatim>\<open>tolower\<close> and the case-insensitive comparison of PostgreSQL are parameters.
\<close>

section \<open>UUIDs\<close>

definition UUID_LEN :: nat where "UUID_LEN = 16"

text \<open>The sixteen random bytes with the version and variant bits set.\<close>

definition GeneratePGUUID :: "bytes \<Rightarrow> bytes" where
  "GeneratePGUUID random =
     (let data = random;
          data = data[6 := (data ! 6 AND 0x0f) OR 0x40];
          data = data[8 := (data ! 8 AND 0x3f) OR 0x80]
      in data)"

definition hex_chars :: string where
  "hex_chars = ''0123456789abcdef''"

definition uuid_byte :: "bytes \<Rightarrow> nat \<Rightarrow> string" where
  "uuid_byte data charIndex =
     (let hi = drop_bit 4 (data ! charIndex);
          lo = data ! charIndex AND 0x0F
      in (if charIndex = 4 \<or> charIndex = 6 \<or> charIndex = 8 \<or> charIndex = 10 then ''-'' else []) @
         [hex_chars ! unat hi, hex_chars ! unat lo])"

definition GenerateUUID :: "bytes \<Rightarrow> string" where
  "GenerateUUID random =
     (let uuid = GeneratePGUUID random in concat (map (uuid_byte uuid) [0..<UUID_LEN]))"


section \<open>Paths and case\<close>

text \<open>The character to strip from is an argument of the C function that its body does not use.\<close>

definition StripFromChar :: "string \<Rightarrow> char \<Rightarrow> string" where
  "StripFromChar input ch = takeWhile (\<lambda>c. c \<noteq> CHR ''?'') input"

definition ToLowerCase :: "(char \<Rightarrow> char) \<Rightarrow> string option \<Rightarrow> string option" where
  "ToLowerCase tolower input = map_option (map tolower) input"

definition PgStrcasecmpNullable :: "(string \<Rightarrow> string \<Rightarrow> int) \<Rightarrow> string option \<Rightarrow> string option \<Rightarrow> bool" where
  "PgStrcasecmpNullable pg_strcasecmp a b =
     (case (a, b) of
        (None, None) \<Rightarrow> True
      | (Some a, Some b) \<Rightarrow> pg_strcasecmp a b = 0
      | _ \<Rightarrow> False)"

definition StripTrailingSlash :: "string option \<Rightarrow> string option" where
  "StripTrailingSlash input =
     (case input of
        None \<Rightarrow> None
      | Some s \<Rightarrow> if length s > 0 \<and> s ! (length s - 1) = CHR ''/'' then Some (take (length s - 1) s) else Some s)"


section \<open>SQL literals\<close>

definition SQL_STR_DOUBLE :: "char \<Rightarrow> bool \<Rightarrow> bool" where
  "SQL_STR_DOUBLE ch escape_backslash \<longleftrightarrow> ch = CHR 0x27 \<or> ch = CHR 0x5C \<and> escape_backslash"

fun escaped_body :: "string \<Rightarrow> string" where
  "escaped_body [] = []"
| "escaped_body (ch # val) = (if SQL_STR_DOUBLE ch True then [ch, ch] else [ch]) @ escaped_body val"

definition EscapedStringLiteral :: "string \<Rightarrow> string" where
  "EscapedStringLiteral val =
     (if CHR 0x5C \<in> set val then ''E'' else []) @ [CHR 0x27] @ escaped_body val @ [CHR 0x27]"


section \<open>Substring search\<close>

text \<open>\<^verbatim>\<open>strstr\<close>: the suffix of the haystack that starts with the first occurrence of the needle.\<close>

fun strstr :: "string \<Rightarrow> string \<Rightarrow> string option" where
  "strstr [] needle = (if needle = [] then Some [] else None)"
| "strstr (c # cs) needle = (if take (length needle) (c # cs) = needle then Some (c # cs) else strstr cs needle)"

lemma strstr_length: "strstr h n = Some r \<Longrightarrow> length r \<le> length h"
  by (induction h) (auto split: if_splits)

text \<open>An empty needle is found at the terminator, and the next search would start beyond it.\<close>

function reverse_search_loop :: "string \<Rightarrow> string \<Rightarrow> string option \<Rightarrow> string option result" where
  "reverse_search_loop needle remainder found =
     (case strstr remainder needle of
        None \<Rightarrow> Inr found
      | Some [] \<Rightarrow> Inl Trap
      | Some (c # cs) \<Rightarrow> reverse_search_loop needle cs (Some (c # cs)))"
  by pat_completeness auto
termination by (relation "measure (\<lambda>(n, r, f). length r)") (auto dest: strstr_length)

declare reverse_search_loop.simps [simp del]

definition ReverseStringSearch :: "string \<Rightarrow> string \<Rightarrow> string option result" where
  "ReverseStringSearch haystack needle = reverse_search_loop needle haystack None"


section \<open>Character type modifiers\<close>

definition AdjustAnyCharTypmod :: "int \<Rightarrow> int \<Rightarrow> int" where
  "AdjustAnyCharTypmod typmod newLength = wrap32 (4 + newLength)"

definition GetAnyCharLengthFrom :: "int \<Rightarrow> int result" where
  "GetAnyCharLengthFrom typmod =
     (if typmod < 4 then Inl (InvalidParameter ''invalid typmod for anychar type'') else Inr (typmod - 4))"


section \<open>Properties\<close>

text \<open>How the SQL lexer reads the body of a literal: a doubled quote stands for a quote, in an \<^verbatim>\<open>E''\<close> literal a
  doubled backslash for a backslash (no other escape occurs here), and a single quote ends it.\<close>

fun read_body :: "bool \<Rightarrow> string \<Rightarrow> (string \<times> string) option" where
  "read_body esc [] = None"
| "read_body esc (c # cs) =
     (if c = CHR 0x27 then
        (case cs of
           [] \<Rightarrow> Some ([], [])
         | d # ds \<Rightarrow> if d = CHR 0x27 then map_option (apfst ((#) c)) (read_body esc ds) else Some ([], cs))
      else if esc \<and> c = CHR 0x5C then
        (case cs of
           [] \<Rightarrow> None
         | d # ds \<Rightarrow> if d = CHR 0x5C then map_option (apfst ((#) c)) (read_body esc ds) else None)
      else map_option (apfst ((#) c)) (read_body esc cs))"

fun read_literal :: "string \<Rightarrow> (string \<times> string) option" where
  "read_literal (c # cs) =
     (if c = CHR 0x27 then read_body False cs
      else if c = CHR ''E'' then (case cs of [] \<Rightarrow> None | d # ds \<Rightarrow> if d = CHR 0x27 then read_body True ds else None)
      else None)"
| "read_literal [] = None"

lemma read_escaped_body:
  assumes "rest = [] \<or> hd rest \<noteq> CHR 0x27" "esc \<or> CHR 0x5C \<notin> set val"
  shows "read_body esc (escaped_body val @ CHR 0x27 # rest) = Some (val, rest)"
  using assms
proof (induction val)
  case Nil
  then show ?case by (cases rest) auto
next
  case (Cons c val)
  then show ?case by (cases "c = CHR 0x27"; cases "c = CHR 0x5C") (auto simp: SQL_STR_DOUBLE_def)
qed

text \<open>C24: an escaped literal is safe to splice into SQL text: read back by the lexer it gives exactly the
  original value and ends exactly where the literal ends, whatever follows, unless another quote follows.\<close>

theorem EscapedStringLiteral_round_trip:
  assumes "rest = [] \<or> hd rest \<noteq> CHR 0x27"
  shows "read_literal (EscapedStringLiteral val @ rest) = Some (val, rest)"
  using read_escaped_body [OF assms, of True val] read_escaped_body [OF assms, of False val]
  by (simp add: EscapedStringLiteral_def)

theorem EscapedStringLiteral_round_trip_witness:
  "read_literal (EscapedStringLiteral [CHR 0x27, CHR 0x5C, CHR 0x27, CHR '';''] @ '', 1'') =
     Some ([CHR 0x27, CHR 0x5C, CHR 0x27, CHR '';''], '', 1'')"
  by (rule EscapedStringLiteral_round_trip) simp

end
