(* ===== verification/Data_Files.thy ===== *)
theory Data_Files
  imports Manifest String_Utils
begin

text \<open>
  Operations on the data files of a table: \<^verbatim>\<open>pg_lake_engine/src/data_file/data_files.c\<close> with its header,
  and \<^verbatim>\<open>pg_lake_iceberg/src/iceberg/data_file_stats.c\<close>, which turns the textual column statistics of a
  data file into Iceberg column bounds.  The PostgreSQL type of an Iceberg field
  (\<^verbatim>\<open>IcebergFieldToPostgresType\<close>, a lookup in the type catalog) is the parameter \<open>field_type\<close>.
\<close>

section \<open>Structs\<close>

record LeafField =
  leaf_fieldId :: int
  leaf_field :: Field
  leaf_pgType :: PGType
  duckTypeName :: string
  level :: int

record DataFileColumnStats =
  leafField :: LeafField
  lowerBoundText :: "bytes option"
  upperBoundText :: "bytes option"

record DataFileStats =
  dataFilePath :: string
  fileSize :: int
  rowCount :: int
  deletedRowCount :: int
  creationTime :: int
  columnStats :: "DataFileColumnStats list"
  rowIdStart :: int
  partitionKeysText :: "string option"

definition empty_stats :: DataFileStats where
  "empty_stats = \<lparr>dataFilePath = [], fileSize = 0, rowCount = 0, deletedRowCount = 0, creationTime = 0,
     columnStats = [], rowIdStart = 0, partitionKeysText = None\<rparr>"

record RowIdRangeMapping =
  rowStartId :: int
  rowStartNum :: int
  numRows :: int

datatype DataFileContent = CONTENT_DATA | CONTENT_POSITION_DELETES | CONTENT_EQUALITY_DELETES

datatype TableMetadataOperationType =
    DATA_FILE_ADD | DATA_FILE_REMOVE | DATA_FILE_REMOVE_ALL | DATA_FILE_DROP_TABLE
  | DATA_FILE_UPDATE_DELETED_ROW_COUNT | DATA_FILE_MERGE_MANIFESTS | DATA_FILE_ADD_DELETE_MAPPING
  | EXPIRE_OLD_SNAPSHOTS | TABLE_DDL | DATA_FILE_ADD_ROW_ID_MAPPING | TABLE_PARTITION_BY | TABLE_CREATE

datatype DDLSchemaEffect = DDL_EFFECT_NONE | DDL_EFFECT_ADD_SCHEMA | DDL_EFFECT_SET_EXISTING_SCHEMA

record TableMetadataOperation =
  op_type :: TableMetadataOperationType
  op_path :: string
  op_content :: DataFileContent
  dataFileStats :: DataFileStats
  op_partitionSpecId :: int
  op_partition :: "Partition option"
  deletedFrom :: "string option"
  ddlSchemaEffect :: DDLSchemaEffect
  newSchema :: "DataFileSchema option"
  existingSchemaId :: int
  deleteStats :: "string list"
  rowIdRanges :: "RowIdRangeMapping list"
  op_partitionSpecs :: "IcebergPartitionSpec list"
  op_defaultSpecId :: int

text \<open>\<^verbatim>\<open>palloc0\<close>: an operation with all fields zero.\<close>

definition zero_operation :: TableMetadataOperation where
  "zero_operation =
     \<lparr>op_type = DATA_FILE_ADD, op_path = [], op_content = CONTENT_DATA, dataFileStats = empty_stats,
      op_partitionSpecId = 0, op_partition = None, deletedFrom = None, ddlSchemaEffect = DDL_EFFECT_NONE,
      newSchema = None, existingSchemaId = 0, deleteStats = [], rowIdRanges = [], op_partitionSpecs = [],
      op_defaultSpecId = 0\<rparr>"


section \<open>Building operations\<close>

definition AddDataFileOperation ::
  "string \<Rightarrow> DataFileContent \<Rightarrow> DataFileStats \<Rightarrow> Partition option \<Rightarrow> int \<Rightarrow> TableMetadataOperation" where
  "AddDataFileOperation path content stats part partitionSpecId =
     zero_operation\<lparr>op_type := DATA_FILE_ADD, op_path := StripFromChar path (CHR ''?''), op_content := content,
       dataFileStats := stats, op_partition := part, op_partitionSpecId := partitionSpecId\<rparr>"

definition UpdateDeletedRowCountOperation :: "string \<Rightarrow> int \<Rightarrow> TableMetadataOperation" where
  "UpdateDeletedRowCountOperation path deletedRows =
     zero_operation\<lparr>op_type := DATA_FILE_UPDATE_DELETED_ROW_COUNT, op_path := path,
       dataFileStats := empty_stats\<lparr>deletedRowCount := deletedRows\<rparr>\<rparr>"

definition RemoveDataFileOperation :: "string \<Rightarrow> TableMetadataOperation" where
  "RemoveDataFileOperation path = zero_operation\<lparr>op_type := DATA_FILE_REMOVE, op_path := path\<rparr>"

definition AddDeleteMappingOperation :: "string \<Rightarrow> string \<Rightarrow> TableMetadataOperation" where
  "AddDeleteMappingOperation deleteFilePath dataFile =
     zero_operation\<lparr>op_type := DATA_FILE_ADD_DELETE_MAPPING, op_path := StripFromChar deleteFilePath (CHR ''?''),
       deletedFrom := Some (StripFromChar dataFile (CHR ''?''))\<rparr>"

definition AddRowIdMappingOperation :: "string \<Rightarrow> RowIdRangeMapping list \<Rightarrow> TableMetadataOperation" where
  "AddRowIdMappingOperation dataFile ranges =
     zero_operation\<lparr>op_type := DATA_FILE_ADD_ROW_ID_MAPPING, op_path := StripFromChar dataFile (CHR ''?''),
       rowIdRanges := ranges\<rparr>"

text \<open>The copy leaves out the partition keys.\<close>

definition DeepCopyDataFileStats :: "DataFileStats \<Rightarrow> DataFileStats" where
  "DeepCopyDataFileStats stats =
     \<lparr>dataFilePath = dataFilePath stats, fileSize = fileSize stats, rowCount = rowCount stats,
      deletedRowCount = deletedRowCount stats, creationTime = creationTime stats, columnStats = columnStats stats,
      rowIdStart = rowIdStart stats, partitionKeysText = None\<rparr>"


section \<open>Column bounds\<close>

fun scalar_type_name :: "Field \<Rightarrow> string result" where
  "scalar_type_name (FieldScalar n) = Inr n"
| "scalar_type_name _ = Inl Trap"

definition ColumnBoundDatum :: "type_io \<Rightarrow> bytes \<Rightarrow> PGType \<Rightarrow> datum result" where
  "ColumnBoundDatum io columnBoundText pgType =
     typinput io (postgresTypeOid pgType) columnBoundText (postgresTypeMod pgType)"

definition IcebergSerializeColumnBoundText ::
  "type_io \<Rightarrow> (Field \<Rightarrow> PGType result) \<Rightarrow> bytes \<Rightarrow> Field \<Rightarrow> bytes option result" where
  "IcebergSerializeColumnBoundText io field_type columnBoundText field =
     result_bind (field_type field) (\<lambda>pgType.
     result_bind (ColumnBoundDatum io columnBoundText pgType) (\<lambda>boundDatum.
     result_bind (scalar_type_name field) (\<lambda>tname.
     PGIcebergBinarySerializeBoundValue io boundDatum tname pgType)))"

definition CanSerializeColumnBound ::
  "type_io \<Rightarrow> (Field \<Rightarrow> PGType result) \<Rightarrow> bytes option \<Rightarrow> Field \<Rightarrow> bool result" where
  "CanSerializeColumnBound io field_type boundText field =
     (case boundText of
        None \<Rightarrow> Inr False
      | Some t \<Rightarrow> result_bind (IcebergSerializeColumnBoundText io field_type t field) (\<lambda>r. Inr (r \<noteq> None)))"

definition CreateColumnBoundForLeafField ::
  "type_io \<Rightarrow> (Field \<Rightarrow> PGType result) \<Rightarrow> LeafField \<Rightarrow> bytes \<Rightarrow> ColumnBound option result" where
  "CreateColumnBoundForLeafField io field_type leaf columnBoundText =
     result_bind (IcebergSerializeColumnBoundText io field_type columnBoundText (leaf_field leaf)) (\<lambda>v.
     Inr (map_option (\<lambda>bs. (leaf_fieldId leaf, bs)) v))"

definition column_bound ::
  "type_io \<Rightarrow> (Field \<Rightarrow> PGType result) \<Rightarrow> LeafField \<Rightarrow> bytes option \<Rightarrow> ColumnBound option result" where
  "column_bound io field_type leaf boundText =
     (case boundText of None \<Rightarrow> Inr None | Some t \<Rightarrow> CreateColumnBoundForLeafField io field_type leaf t)"

fun SetColumnBoundsFromDataFileStats ::
  "type_io \<Rightarrow> (Field \<Rightarrow> PGType result) \<Rightarrow> DataFileColumnStats list \<Rightarrow> (ColumnBound list \<times> ColumnBound list) result" where
  "SetColumnBoundsFromDataFileStats io field_type [] = Inr ([], [])"
| "SetColumnBoundsFromDataFileStats io field_type (columnStat # stats) =
     result_bind (column_bound io field_type (leafField columnStat) (lowerBoundText columnStat)) (\<lambda>lowerBound.
     result_bind (column_bound io field_type (leafField columnStat) (upperBoundText columnStat)) (\<lambda>upperBound.
     result_bind (SetColumnBoundsFromDataFileStats io field_type stats) (\<lambda>(lBounds, uBounds).
     case (lowerBound, upperBound) of
       (Some l, Some u) \<Rightarrow> Inr (l # lBounds, u # uBounds)
     | _ \<Rightarrow> Inr (lBounds, uBounds))))"

text \<open>Record count, file size, lower and upper bounds.\<close>

definition SetIcebergDataFileStats ::
  "type_io \<Rightarrow> (Field \<Rightarrow> PGType result) \<Rightarrow> DataFileStats \<Rightarrow> (int \<times> int \<times> ColumnBound list \<times> ColumnBound list) result" where
  "SetIcebergDataFileStats io field_type stats =
     result_bind (SetColumnBoundsFromDataFileStats io field_type (columnStats stats)) (\<lambda>(lower, upper).
     Inr (rowCount stats, fileSize stats, lower, upper))"


section \<open>Properties\<close>



definition sample_io :: type_io where
  "sample_io = \<lparr>typoutput = \<lambda>_ _. [], typinput = \<lambda>_ bs _. Inr (DInt (int (length bs))), io_numeric_in = \<lambda>s _. Inr s,
     io_settings = default_numeric_settings\<rparr>"

definition sample_leaf :: "int \<Rightarrow> LeafField" where
  "sample_leaf i = \<lparr>leaf_fieldId = i, leaf_field = FieldScalar ''int'', leaf_pgType = MakePGType INT4OID (- 1),
     duckTypeName = ''INTEGER'', level = 1\<rparr>"

definition sample_stats :: DataFileStats where
  "sample_stats = empty_stats\<lparr>columnStats :=
     [\<lparr>leafField = sample_leaf 7, lowerBoundText = Some [0], upperBoundText = Some [0, 0]\<rparr>,
      \<lparr>leafField = sample_leaf 8, lowerBoundText = Some [0], upperBoundText = None\<rparr>]\<rparr>"

lemma sample_bound:
  "CreateColumnBoundForLeafField sample_io (\<lambda>_. Inr (MakePGType INT4OID (- 1))) (sample_leaf i) [0] = Inr (Some (i, int_to_le 4 1))"
  "CreateColumnBoundForLeafField sample_io (\<lambda>_. Inr (MakePGType INT4OID (- 1))) (sample_leaf i) [0, 0] = Inr (Some (i, int_to_le 4 2))"
  by (simp_all add: CreateColumnBoundForLeafField_def sample_leaf_def sample_io_def IcebergSerializeColumnBoundText_def ColumnBoundDatum_def
      PGIcebergBinarySerializeBoundValue_def PGIcebergBinarySerialize_def PGTypeRequiresConversionToIcebergString_def MakePGType_def
      DatumGetInt32_def is_i32_def int_limits)


end
