(* ===== verification/Metadata_Operations.thy ===== *)
theory Metadata_Operations
  imports Manifest_State Table_Metadata Data_Files
begin

text \<open>
  \<^verbatim>\<open>pg_lake_iceberg/src/iceberg/metadata_operations.c\<close>: a commit turns a list of metadata operations into
  a new snapshot (\<^verbatim>\<open>FinalizeNewSnapshot\<close>) and new table metadata (\<^verbatim>\<open>ApplyIcebergMetadataChanges\<close>).

  The state is the \<open>write_state\<close> of the manifest layer.  The UUID of the snapshot and the location of the
  table are part of the environment; the hash tables of entries by partition spec are association lists.
\<close>

section \<open>The snapshot builder\<close>

datatype SnapshotOperation =
    SNAPSHOT_OPERATION_INVALID | SNAPSHOT_OPERATION_APPEND | SNAPSHOT_OPERATION_REPLACE
  | SNAPSHOT_OPERATION_OVERWRITE | SNAPSHOT_OPERATION_DELETE

type_synonym entry_hash = "(int \<times> IcebergManifestEntry list) list"

record IcebergSnapshotBuilder =
  baseSnapshot :: "IcebergSnapshot option"
  newSnapshot :: IcebergSnapshot
  dataEntries :: entry_hash
  positionalDeleteEntries :: entry_hash
  removedEntries :: "IcebergManifestEntry list"
  removeAllEntries :: bool
  applyManifestCompaction :: bool
  regenerateSchema :: bool
  regeneratePartitionSpec :: bool
  b_partitionSpecs :: "IcebergPartitionSpec list"
  b_defaultSpecId :: int
  createTable :: bool
  expireOldSnapshots :: bool
  b_schema :: "DataFileSchema option"
  b_schemaId :: int
  operation :: SnapshotOperation

definition MakePartitionManifestEntryHash :: entry_hash where
  "MakePartitionManifestEntryHash = []"

definition AddManifestEntryToHash :: "entry_hash \<Rightarrow> int \<Rightarrow> IcebergManifestEntry \<Rightarrow> entry_hash" where
  "AddManifestEntryToHash ht partitionSpecId entry = hash_append ht partitionSpecId entry"

definition SetSnapshotOperation :: "IcebergSnapshot \<Rightarrow> SnapshotOperation \<Rightarrow> IcebergSnapshot result" where
  "SetSnapshotOperation snapshot op =
     (case op of
        SNAPSHOT_OPERATION_APPEND \<Rightarrow> Inr (snapshot\<lparr>summary := [(''operation'', ''append'')]\<rparr>)
      | SNAPSHOT_OPERATION_REPLACE \<Rightarrow> Inr (snapshot\<lparr>summary := [(''operation'', ''replace'')]\<rparr>)
      | SNAPSHOT_OPERATION_OVERWRITE \<Rightarrow> Inr (snapshot\<lparr>summary := [(''operation'', ''overwrite'')]\<rparr>)
      | SNAPSHOT_OPERATION_DELETE \<Rightarrow> Inr (snapshot\<lparr>summary := [(''operation'', ''delete'')]\<rparr>)
      | SNAPSHOT_OPERATION_INVALID \<Rightarrow> Inl (InternalError ''Unsupported snapshot operation''))"

definition merge_summary :: "SnapshotOperation \<Rightarrow> SnapshotOperation \<Rightarrow> SnapshotOperation" where
  "merge_summary op currentSummary =
     (if currentSummary = SNAPSHOT_OPERATION_INVALID \<or> currentSummary = op then op else SNAPSHOT_OPERATION_OVERWRITE)"

definition summary_step :: "SnapshotOperation \<Rightarrow> TableMetadataOperation \<Rightarrow> SnapshotOperation result" where
  "summary_step currentSummary op =
     (case op_type op of
        DATA_FILE_ADD \<Rightarrow>
          (case op_content op of
             CONTENT_DATA \<Rightarrow> Inr (merge_summary SNAPSHOT_OPERATION_APPEND currentSummary)
           | CONTENT_POSITION_DELETES \<Rightarrow> Inr (merge_summary SNAPSHOT_OPERATION_DELETE currentSummary)
           | CONTENT_EQUALITY_DELETES \<Rightarrow> Inl (InternalError ''Unsupported operation content type''))
      | DATA_FILE_REMOVE_ALL \<Rightarrow> Inr (merge_summary SNAPSHOT_OPERATION_DELETE currentSummary)
      | DATA_FILE_REMOVE \<Rightarrow> Inr (merge_summary SNAPSHOT_OPERATION_DELETE currentSummary)
      | DATA_FILE_MERGE_MANIFESTS \<Rightarrow> Inr (merge_summary SNAPSHOT_OPERATION_REPLACE currentSummary)
      | EXPIRE_OLD_SNAPSHOTS \<Rightarrow> Inr (merge_summary SNAPSHOT_OPERATION_REPLACE currentSummary)
      | TABLE_DDL \<Rightarrow> Inr SNAPSHOT_OPERATION_OVERWRITE
      | TABLE_PARTITION_BY \<Rightarrow> Inr SNAPSHOT_OPERATION_OVERWRITE
      | DATA_FILE_UPDATE_DELETED_ROW_COUNT \<Rightarrow> Inr currentSummary
      | DATA_FILE_ADD_DELETE_MAPPING \<Rightarrow> Inr currentSummary
      | DATA_FILE_ADD_ROW_ID_MAPPING \<Rightarrow> Inr currentSummary
      | DATA_FILE_DROP_TABLE \<Rightarrow> Inr currentSummary
      | TABLE_CREATE \<Rightarrow> Inr currentSummary)"

fun summary_loop_ops :: "TableMetadataOperation list \<Rightarrow> SnapshotOperation \<Rightarrow> SnapshotOperation result" where
  "summary_loop_ops [] currentSummary = Inr currentSummary"
| "summary_loop_ops (op # ops) currentSummary = result_bind (summary_step currentSummary op) (summary_loop_ops ops)"

definition SnapshotOperationSummary :: "TableMetadataOperation list \<Rightarrow> SnapshotOperation result" where
  "SnapshotOperationSummary metadataOperations = summary_loop_ops metadataOperations SNAPSHOT_OPERATION_INVALID"

text \<open>Copies are the values themselves.\<close>

definition CopyIcebergSnapshot :: "IcebergSnapshot option \<Rightarrow> IcebergSnapshot option" where
  "CopyIcebergSnapshot src = map_option (\<lambda>s.
     \<lparr>snapshot_id = snapshot_id s, parent_snapshot_id = parent_snapshot_id s, sequence_number = sequence_number s,
      timestamp_ms = timestamp_ms s, manifest_list = manifest_list s, summary = summary s,
      snap_schema_id = snap_schema_id s, schema_id_set = schema_id_set s\<rparr>) src"

definition CreateIcebergSnapshotBuilder ::
  "bytes \<Rightarrow> int \<Rightarrow> IcebergTableMetadata \<Rightarrow> TableMetadataOperation list \<Rightarrow> IcebergSnapshotBuilder result" where
  "CreateIcebergSnapshotBuilder uuid now metadata metadataOperations =
     result_bind (GetCurrentSnapshot (Some metadata) True) (\<lambda>current.
     result_bind (CreateNewIcebergSnapshot uuid now metadata) (\<lambda>new.
     result_bind (SnapshotOperationSummary metadataOperations) (\<lambda>op.
     Inr \<lparr>baseSnapshot = CopyIcebergSnapshot current, newSnapshot = new, dataEntries = MakePartitionManifestEntryHash,
          positionalDeleteEntries = MakePartitionManifestEntryHash, removedEntries = [], removeAllEntries = False,
          applyManifestCompaction = False, regenerateSchema = False, regeneratePartitionSpec = False,
          b_partitionSpecs = [], b_defaultSpecId = 0, createTable = False, expireOldSnapshots = False,
          b_schema = None, b_schemaId = 0, operation = op\<rparr>)))"

definition CreateIcebergManifestEntryFromMetadataOperation ::
  "type_io \<Rightarrow> (Field \<Rightarrow> PGType result) \<Rightarrow> TableMetadataOperation \<Rightarrow> int \<Rightarrow> int \<Rightarrow> IcebergManifestEntry result" where
  "CreateIcebergManifestEntryFromMetadataOperation io field_type op newSnapshotId sequenceNumber =
     (let baseUrl = StripFromChar (op_path op) (CHR ''?'') in
      result_bind (SetIcebergDataFileStats io field_type (dataFileStats op)) (\<lambda>(records, bytes, lower, upper).
      Inr \<lparr>status = (if op_type op = DATA_FILE_ADD then ICEBERG_MANIFEST_ENTRY_STATUS_ADDED
                     else ICEBERG_MANIFEST_ENTRY_STATUS_DELETED),
           has_snapshot_id = True, me_snapshot_id = newSnapshotId, has_sequence_number = True,
           me_sequence_number = sequenceNumber, has_file_sequence_number = False, file_sequence_number = 0,
           data_file =
             \<lparr>df_content = (if op_content op = CONTENT_DATA then ICEBERG_DATA_FILE_CONTENT_DATA
                            else ICEBERG_DATA_FILE_CONTENT_POSITION_DELETES),
              file_path = baseUrl, file_format = ''PARQUET'',
              df_partition = (case op_partition op of None \<Rightarrow> [] | Some p \<Rightarrow> CopyPartition p),
              record_count = records, file_size_in_bytes = bytes, column_sizes = [], value_counts = [],
              null_value_counts = [], nan_value_counts = [], lower_bounds = lower, upper_bounds = upper,
              df_key_metadata = None, split_offsets = [], equality_ids = [], sort_order_id = None\<rparr>\<rparr>))"

definition process_operation ::
  "type_io \<Rightarrow> (Field \<Rightarrow> PGType result) \<Rightarrow> IcebergSnapshotBuilder \<Rightarrow> TableMetadataOperation \<Rightarrow> IcebergSnapshotBuilder result" where
  "process_operation io field_type builder op =
     (let new = newSnapshot builder in
      case op_type op of
        DATA_FILE_ADD \<Rightarrow>
          result_bind (CreateIcebergManifestEntryFromMetadataOperation io field_type op (snapshot_id new) (sequence_number new)) (\<lambda>e.
          case op_content op of
            CONTENT_DATA \<Rightarrow>
              Inr (builder\<lparr>dataEntries := AddManifestEntryToHash (dataEntries builder) (op_partitionSpecId op) e\<rparr>)
          | CONTENT_POSITION_DELETES \<Rightarrow>
              Inr (builder\<lparr>positionalDeleteEntries :=
                AddManifestEntryToHash (positionalDeleteEntries builder) (op_partitionSpecId op) e\<rparr>)
          | CONTENT_EQUALITY_DELETES \<Rightarrow> Inl (InternalError ''Unsupported operation content type''))
      | DATA_FILE_REMOVE \<Rightarrow>
          result_bind (CreateIcebergManifestEntryFromMetadataOperation io field_type op (snapshot_id new) (sequence_number new)) (\<lambda>e.
          Inr (builder\<lparr>removedEntries := removedEntries builder @ [e]\<rparr>))
      | DATA_FILE_ADD_DELETE_MAPPING \<Rightarrow> Inr builder
      | DATA_FILE_ADD_ROW_ID_MAPPING \<Rightarrow> Inr builder
      | DATA_FILE_UPDATE_DELETED_ROW_COUNT \<Rightarrow> Inr builder
      | DATA_FILE_MERGE_MANIFESTS \<Rightarrow> Inr (builder\<lparr>applyManifestCompaction := True\<rparr>)
      | TABLE_CREATE \<Rightarrow>
          Inr (builder\<lparr>createTable := True, b_schema := newSchema op, b_partitionSpecs := op_partitionSpecs op,
                       b_defaultSpecId := op_defaultSpecId op\<rparr>)
      | TABLE_DDL \<Rightarrow>
          (let builder = builder\<lparr>regenerateSchema := True\<rparr> in
           case ddlSchemaEffect op of
             DDL_EFFECT_ADD_SCHEMA \<Rightarrow> Inr (builder\<lparr>b_schema := newSchema op\<rparr>)
           | DDL_EFFECT_SET_EXISTING_SCHEMA \<Rightarrow> Inr (builder\<lparr>b_schemaId := existingSchemaId op\<rparr>)
           | DDL_EFFECT_NONE \<Rightarrow> Inl (InternalError ''Unsupported DDL schema effect''))
      | TABLE_PARTITION_BY \<Rightarrow>
          Inr (builder\<lparr>regeneratePartitionSpec := True, b_partitionSpecs := op_partitionSpecs op,
                       b_defaultSpecId := op_defaultSpecId op\<rparr>)
      | EXPIRE_OLD_SNAPSHOTS \<Rightarrow> Inr (builder\<lparr>expireOldSnapshots := True\<rparr>)
      | DATA_FILE_DROP_TABLE \<Rightarrow> Inr builder
      | DATA_FILE_REMOVE_ALL \<Rightarrow> Inr (builder\<lparr>removeAllEntries := True\<rparr>))"

fun ProcessIcebergMetadataOperations ::
  "type_io \<Rightarrow> (Field \<Rightarrow> PGType result) \<Rightarrow> TableMetadataOperation list \<Rightarrow> IcebergSnapshotBuilder \<Rightarrow> IcebergSnapshotBuilder result" where
  "ProcessIcebergMetadataOperations io field_type [] builder = Inr builder"
| "ProcessIcebergMetadataOperations io field_type (op # ops) builder =
     result_bind (process_operation io field_type builder op) (ProcessIcebergMetadataOperations io field_type ops)"

definition GetMetadataOperationTypes :: "TableMetadataOperation list \<Rightarrow> TableMetadataOperationType list" where
  "GetMetadataOperationTypes metadataOperations = map op_type metadataOperations"

fun ShouldSkipMetadataChangeToIceberg :: "TableMetadataOperationType list \<Rightarrow> bool" where
  "ShouldSkipMetadataChangeToIceberg [] = True"
| "ShouldSkipMetadataChangeToIceberg (opType # opTypes) =
     (if opType \<in> {DATA_FILE_ADD, DATA_FILE_REMOVE, DATA_FILE_REMOVE_ALL, DATA_FILE_MERGE_MANIFESTS,
                  EXPIRE_OLD_SNAPSHOTS, TABLE_CREATE, TABLE_DDL, TABLE_PARTITION_BY}
      then False else ShouldSkipMetadataChangeToIceberg opTypes)"

definition HasCreateTableOperation :: "TableMetadataOperation list \<Rightarrow> bool" where
  "HasCreateTableOperation metadataOperations = list_ex (\<lambda>op. op_type op = TABLE_CREATE) metadataOperations"


section \<open>Properties\<close>

text \<open>What one operation asks for, \<open>SNAPSHOT_OPERATION_INVALID\<close> when it does not change the snapshot.\<close>

definition summary_kind :: "TableMetadataOperation \<Rightarrow> SnapshotOperation" where
  "summary_kind op =
     (case op_type op of
        DATA_FILE_ADD \<Rightarrow> if op_content op = CONTENT_DATA then SNAPSHOT_OPERATION_APPEND else SNAPSHOT_OPERATION_DELETE
      | DATA_FILE_REMOVE \<Rightarrow> SNAPSHOT_OPERATION_DELETE
      | DATA_FILE_REMOVE_ALL \<Rightarrow> SNAPSHOT_OPERATION_DELETE
      | DATA_FILE_MERGE_MANIFESTS \<Rightarrow> SNAPSHOT_OPERATION_REPLACE
      | EXPIRE_OLD_SNAPSHOTS \<Rightarrow> SNAPSHOT_OPERATION_REPLACE
      | TABLE_DDL \<Rightarrow> SNAPSHOT_OPERATION_OVERWRITE
      | TABLE_PARTITION_BY \<Rightarrow> SNAPSHOT_OPERATION_OVERWRITE
      | _ \<Rightarrow> SNAPSHOT_OPERATION_INVALID)"

definition adds_equality_deletes :: "TableMetadataOperation \<Rightarrow> bool" where
  "adds_equality_deletes op \<longleftrightarrow> op_type op = DATA_FILE_ADD \<and> op_content op = CONTENT_EQUALITY_DELETES"

text \<open>The kind of a set of kinds: none, the only one, or an overwrite.\<close>

definition common_kind :: "SnapshotOperation set \<Rightarrow> SnapshotOperation" where
  "common_kind ks =
     (if ks - {SNAPSHOT_OPERATION_INVALID} = {} then SNAPSHOT_OPERATION_INVALID
      else if \<exists>k. ks - {SNAPSHOT_OPERATION_INVALID} = {k} then the_elem (ks - {SNAPSHOT_OPERATION_INVALID})
      else SNAPSHOT_OPERATION_OVERWRITE)"

lemma common_kind_cases:
  "(\<forall>k \<in> ks. k = SNAPSHOT_OPERATION_INVALID) \<Longrightarrow> common_kind ks = SNAPSHOT_OPERATION_INVALID"
  "j \<in> ks \<Longrightarrow> j \<noteq> SNAPSHOT_OPERATION_INVALID \<Longrightarrow> (\<forall>k \<in> ks. k = SNAPSHOT_OPERATION_INVALID \<or> k = j) \<Longrightarrow> common_kind ks = j"
  "j \<in> ks \<Longrightarrow> k \<in> ks \<Longrightarrow> j \<noteq> SNAPSHOT_OPERATION_INVALID \<Longrightarrow> k \<noteq> SNAPSHOT_OPERATION_INVALID \<Longrightarrow> j \<noteq> k \<Longrightarrow>
     common_kind ks = SNAPSHOT_OPERATION_OVERWRITE"
proof -
  show "common_kind ks = SNAPSHOT_OPERATION_INVALID" if "\<forall>k \<in> ks. k = SNAPSHOT_OPERATION_INVALID"
  proof -
    have "ks - {SNAPSHOT_OPERATION_INVALID} = {}" using that by blast
    then show ?thesis by (simp add: common_kind_def)
  qed
  show "common_kind ks = j" if "j \<in> ks" "j \<noteq> SNAPSHOT_OPERATION_INVALID" "\<forall>k \<in> ks. k = SNAPSHOT_OPERATION_INVALID \<or> k = j"
  proof -
    have "ks - {SNAPSHOT_OPERATION_INVALID} = {j}" using that by blast
    then show ?thesis by (simp add: common_kind_def)
  qed
  show "common_kind ks = SNAPSHOT_OPERATION_OVERWRITE"
    if "j \<in> ks" "k \<in> ks" "j \<noteq> SNAPSHOT_OPERATION_INVALID" "k \<noteq> SNAPSHOT_OPERATION_INVALID" "j \<noteq> k"
  proof -
    have "j \<in> ks - {SNAPSHOT_OPERATION_INVALID}" "k \<in> ks - {SNAPSHOT_OPERATION_INVALID}" using that by simp_all
    then have "\<not> (\<exists>l. ks - {SNAPSHOT_OPERATION_INVALID} = {l})" "ks - {SNAPSHOT_OPERATION_INVALID} \<noteq> {}"
      using that(5) by (metis singletonD, metis empty_iff)
    then show ?thesis by (simp add: common_kind_def)
  qed
qed

lemma common_kind_insert:
  "common_kind (insert k ks) =
     (if k = SNAPSHOT_OPERATION_INVALID then common_kind ks
      else if common_kind ks = SNAPSHOT_OPERATION_INVALID \<or> common_kind ks = k then k else SNAPSHOT_OPERATION_OVERWRITE)"
proof -
  consider "\<forall>j \<in> ks. j = SNAPSHOT_OPERATION_INVALID"
    | j where "j \<in> ks" "j \<noteq> SNAPSHOT_OPERATION_INVALID" "\<forall>i \<in> ks. i = SNAPSHOT_OPERATION_INVALID \<or> i = j"
    | i j where "i \<in> ks" "j \<in> ks" "i \<noteq> SNAPSHOT_OPERATION_INVALID" "j \<noteq> SNAPSHOT_OPERATION_INVALID" "i \<noteq> j" by blast
  then show ?thesis
  proof cases
    case 1
    then have "common_kind (insert k ks) = k"
      using common_kind_cases(1) [of "insert k ks"] common_kind_cases(2) [of k "insert k ks"] by (cases "k = SNAPSHOT_OPERATION_INVALID") auto
    then show ?thesis using common_kind_cases(1) [OF 1] by simp
  next
    case 2
    note j = common_kind_cases(2) [OF 2]
    have "common_kind (insert k ks) = (if k = SNAPSHOT_OPERATION_INVALID \<or> k = j then j else SNAPSHOT_OPERATION_OVERWRITE)"
      using common_kind_cases(2) [of j "insert k ks"] common_kind_cases(3) [of k "insert k ks" j] 2 by auto
    then show ?thesis using j 2(2) by auto
  next
    case 3
    then show ?thesis using common_kind_cases(3) [of i ks j] common_kind_cases(3) [of i "insert k ks" j] by auto
  qed
qed

lemma summary_step_eq:
  "summary_step cur op =
     (if adds_equality_deletes op then Inl (InternalError ''Unsupported operation content type'')
      else Inr (case summary_kind op of SNAPSHOT_OPERATION_INVALID \<Rightarrow> cur
                | SNAPSHOT_OPERATION_OVERWRITE \<Rightarrow> SNAPSHOT_OPERATION_OVERWRITE | k \<Rightarrow> merge_summary k cur))"
  by (auto simp: summary_step_def summary_kind_def adds_equality_deletes_def split: TableMetadataOperationType.splits DataFileContent.splits)

lemma summary_loop_eq:
  "summary_loop_ops ops (common_kind ks) =
     (if list_ex adds_equality_deletes ops then Inl (InternalError ''Unsupported operation content type'')
      else Inr (common_kind (summary_kind ` set ops \<union> ks)))"
proof (induction ops arbitrary: ks)
  case (Cons op ops)
  have s: "summary_step (common_kind ks) op =
    (if adds_equality_deletes op then Inl (InternalError ''Unsupported operation content type'')
     else Inr (common_kind (insert (summary_kind op) ks)))"
    by (cases "summary_kind op") (simp_all add: summary_step_eq common_kind_insert merge_summary_def)
  show ?case using Cons.IH [of "insert (summary_kind op) ks"] by (simp add: s)
qed simp

text \<open>C32: the kind recorded for a snapshot depends only on the set of its operations, not on their order.  It is that of the operations
  when they agree and an overwrite when they do not; operations that only touch the catalog do not count.  Adding
  a file of equality deletes is an error.\<close>

theorem SnapshotOperationSummary_kinds:
  "SnapshotOperationSummary ops =
     (if list_ex adds_equality_deletes ops then Inl (InternalError ''Unsupported operation content type'')
      else Inr (common_kind (summary_kind ` set ops)))"
proof -
  have "common_kind {} = SNAPSHOT_OPERATION_INVALID" by (simp add: common_kind_def)
  then show ?thesis using summary_loop_eq [of ops "{}"] by (simp add: SnapshotOperationSummary_def)
qed

end
