(* ===== verification/Snapshot_Commit.thy ===== *)
theory Snapshot_Commit
  imports Metadata_Operations
begin

text \<open>
  The commit itself, from \<^verbatim>\<open>metadata_operations.c\<close>: rewriting manifests for removed files, building the
  manifests and the manifest list of the new snapshot (\<^verbatim>\<open>FinalizeNewSnapshot\<close>), and applying all metadata
  operations to the table metadata (\<^verbatim>\<open>ApplyIcebergMetadataChanges\<close>).
\<close>

section \<open>Removing entries\<close>

text \<open>The manifest at the next path of the snapshot with the given entries; the entries written to the file
  and the entries counted in the header may differ.\<close>

definition write_manifest ::
  "manifest_env \<Rightarrow> IcebergSnapshot \<Rightarrow> int \<Rightarrow> IcebergPartitionTransform list \<Rightarrow> IcebergManifestContentType
     \<Rightarrow> IcebergManifestEntry list \<Rightarrow> IcebergManifestEntry list \<Rightarrow> write_state \<Rightarrow> (manifest_ptr \<times> write_state) result" where
  "write_manifest env snapshot partitionSpecId transforms contentType written counted ws =
     (let path = GenerateRemoteManifestPath (metadataLocation env) (snapshotUUID env) (manifestIndex ws) [];
          ws = ws\<lparr>manifestIndex := manifestIndex ws + 1\<rparr>
      in result_bind (UploadIcebergManifestToURI env written path ws) (\<lambda>(manifestSize, ws).
         result_bind (CreateNewIcebergManifest env snapshot partitionSpecId transforms manifestSize contentType path counted)
           (\<lambda>manifest. Inr (alloc_manifest manifest ws))))"

definition CreateNewManifestsForDeletedEntries ::
  "manifest_env \<Rightarrow> (IcebergManifestEntry \<times> nat) list \<Rightarrow> IcebergSnapshot \<Rightarrow> int \<Rightarrow> IcebergPartitionTransform list
     \<Rightarrow> IcebergManifestContentType \<Rightarrow> write_state \<Rightarrow> (manifest_ptr list \<times> write_state) result" where
  "CreateNewManifestsForDeletedEntries env marked new partitionSpecId transforms contentType ws =
     result_bind (write_manifest env new partitionSpecId transforms contentType (deleted_entries marked) (deleted_entries marked) ws)
       (\<lambda>(deleteManifest, ws).
     let remainingManifestEntries = remaining_entries marked in
     if length remainingManifestEntries = 0 then Inr ([deleteManifest], ws)
     else
       result_bind (write_manifest env new partitionSpecId transforms contentType remainingManifestEntries
           (SetExistingStatusForOldSnapshotAddedEntries remainingManifestEntries (snapshot_id new)) ws)
         (\<lambda>(remainingManifest, ws). Inr ([deleteManifest, remainingManifest], ws)))"

text \<open>The manifests that replace the given one, \<open>None\<close> when it stays.\<close>

definition rewrite_manifest ::
  "manifest_env \<Rightarrow> IcebergManifest \<Rightarrow> IcebergManifestEntry list \<Rightarrow> bool \<Rightarrow> IcebergSnapshot \<Rightarrow> IcebergPartitionTransform list
     \<Rightarrow> write_state \<Rightarrow> (manifest_ptr list option \<times> write_state) result" where
  "rewrite_manifest env manifest removed allEntries new transforms ws =
     result_bind (ReadManifestEntries (ws_store ws) (manifest_path manifest)) (\<lambda>manifestEntries.
     case FindAndAdjustDeletedManifestEntries manifest manifestEntries removed (snapshot_id new) allEntries of
       (manifest, marked) \<Rightarrow>
         if deleted_entries marked \<noteq> []
         then result_bind (CreateNewManifestsForDeletedEntries env marked new (partition_spec_id manifest) transforms
                (m_content manifest) ws) (\<lambda>(newManifests, ws). Inr (Some newManifests, ws))
         else Inr (None, ws))"

definition RewriteManifestForRemoval ::
  "manifest_env \<Rightarrow> manifest_ptr \<Rightarrow> IcebergManifestEntry list \<Rightarrow> bool \<Rightarrow> IcebergSnapshot \<Rightarrow> IcebergPartitionTransform list
     \<Rightarrow> manifest_ptr list \<Rightarrow> manifest_ptr list \<Rightarrow> write_state
     \<Rightarrow> (bool \<times> manifest_ptr list \<times> manifest_ptr list \<times> write_state) result" where
  "RewriteManifestForRemoval env manifest removed allEntries new transforms finalData finalDelete ws =
     result_bind (rewrite_manifest env (snd manifest) removed allEntries new transforms ws) (\<lambda>(r, ws).
     case r of
       None \<Rightarrow> Inr (False, finalData, finalDelete, ws)
     | Some newManifests \<Rightarrow>
         (case m_content (snd manifest) of
            ICEBERG_MANIFEST_FILE_CONTENT_DATA \<Rightarrow>
              Inr (True, filter (\<lambda>m. fst m \<noteq> fst manifest) finalData @ newManifests, finalDelete, ws)
          | ICEBERG_MANIFEST_FILE_CONTENT_DELETES \<Rightarrow>
              Inr (True, finalData, filter (\<lambda>m. fst m \<noteq> fst manifest) finalDelete @ newManifests, ws)))"

fun rewrite_loop ::
  "manifest_env \<Rightarrow> manifest_ptr list \<Rightarrow> IcebergManifestEntry list \<Rightarrow> bool \<Rightarrow> IcebergSnapshot \<Rightarrow> IcebergPartitionTransform list
     \<Rightarrow> manifest_ptr list \<Rightarrow> manifest_ptr list \<Rightarrow> write_state
     \<Rightarrow> (bool \<times> manifest_ptr list \<times> manifest_ptr list \<times> write_state) result" where
  "rewrite_loop env [] removed allEntries new transforms finalData finalDelete ws = Inr (False, finalData, finalDelete, ws)"
| "rewrite_loop env (manifest # manifests) removed allEntries new transforms finalData finalDelete ws =
     result_bind (RewriteManifestForRemoval env manifest removed allEntries new transforms finalData finalDelete ws)
       (\<lambda>(rewritten, finalData, finalDelete, ws).
     result_bind (rewrite_loop env manifests removed allEntries new transforms finalData finalDelete ws)
       (\<lambda>(any, finalData, finalDelete, ws). Inr (rewritten \<or> any, finalData, finalDelete, ws)))"


section \<open>Building the snapshot\<close>

text \<open>Manifests read from the store are at new addresses.\<close>

definition alloc_list :: "IcebergManifest list \<Rightarrow> write_state \<Rightarrow> manifest_ptr list \<times> write_state" where
  "alloc_list ms ws =
     (zip [next_address ws..<next_address ws + length ms] ms, ws\<lparr>next_address := next_address ws + length ms\<rparr>)"

fun add_new_manifests ::
  "manifest_env \<Rightarrow> IcebergSnapshot \<Rightarrow> IcebergPartitionTransform list \<Rightarrow> IcebergManifestContentType \<Rightarrow> entry_hash
     \<Rightarrow> manifest_ptr list \<Rightarrow> write_state \<Rightarrow> (manifest_ptr list \<times> write_state) result" where
  "add_new_manifests env new transforms contentType [] finalList ws = Inr (finalList, ws)"
| "add_new_manifests env new transforms contentType ((partitionSpecId, manifestEntries) # rest) finalList ws =
     result_bind (write_manifest env new partitionSpecId transforms contentType manifestEntries manifestEntries ws)
       (\<lambda>(manifest, ws). add_new_manifests env new transforms contentType rest (finalList @ [manifest]) ws)"

definition drop_in_progress_record :: "string \<Rightarrow> write_state \<Rightarrow> write_state" where
  "drop_in_progress_record path ws = ws\<lparr>InProgressFiles := filter (\<lambda>(p, auto). p \<noteq> path) (InProgressFiles ws)\<rparr>"

definition DeleteInProgressManifests :: "manifest_ptr list \<Rightarrow> write_state \<Rightarrow> write_state" where
  "DeleteInProgressManifests manifests ws =
     foldl (\<lambda>ws m. drop_in_progress_record (manifest_path (snd m)) ws) ws manifests"

definition list_difference_ptr :: "manifest_ptr list \<Rightarrow> manifest_ptr list \<Rightarrow> manifest_ptr list" where
  "list_difference_ptr xs ys = filter (\<lambda>x. fst x \<notin> set (map fst ys)) xs"

text \<open>The manifests of the new snapshot and whether anything changed: dropping deleted entries, adding new
  manifests, removing files and merging, in this order.\<close>

definition drop_deleted ::
  "manifest_env \<Rightarrow> IcebergSnapshotBuilder \<Rightarrow> IcebergPartitionTransform list \<Rightarrow> manifest_ptr list \<Rightarrow> manifest_ptr list \<Rightarrow> write_state
     \<Rightarrow> (bool \<times> manifest_ptr list \<times> manifest_ptr list \<times> write_state) result" where
  "drop_deleted env builder transforms finalData finalDelete ws =
     (if applyManifestCompaction builder \<or> EnableManifestMergeOnWrite env
      then result_bind (RemoveDeletedManifestEntries env (baseSnapshot builder) transforms finalData
               ICEBERG_MANIFEST_FILE_CONTENT_DATA ws) (\<lambda>(finalData, anyData, ws).
           result_bind (RemoveDeletedManifestEntries env (baseSnapshot builder) transforms finalDelete
               ICEBERG_MANIFEST_FILE_CONTENT_DELETES ws) (\<lambda>(finalDelete, anyDelete, ws).
           Inr (anyData \<or> anyDelete, finalData, finalDelete, ws)))
      else Inr (False, finalData, finalDelete, ws))"

definition remove_files ::
  "manifest_env \<Rightarrow> IcebergSnapshotBuilder \<Rightarrow> IcebergPartitionTransform list \<Rightarrow> manifest_ptr list \<Rightarrow> manifest_ptr list \<Rightarrow> write_state
     \<Rightarrow> (bool \<times> manifest_ptr list \<times> manifest_ptr list \<times> write_state) result" where
  "remove_files env builder transforms finalData finalDelete ws =
     (if removedEntries builder \<noteq> [] \<or> removeAllEntries builder
      then rewrite_loop env (finalData @ finalDelete) (removedEntries builder) (removeAllEntries builder)
             (newSnapshot builder) transforms finalData finalDelete ws
      else Inr (False, finalData, finalDelete, ws))"

definition merge_manifests ::
  "manifest_env \<Rightarrow> IcebergSnapshotBuilder \<Rightarrow> IcebergPartitionTransform list \<Rightarrow> manifest_ptr list \<Rightarrow> write_state
     \<Rightarrow> (bool \<times> manifest_ptr list \<times> write_state) result" where
  "merge_manifests env builder transforms finalData ws =
     (if applyManifestCompaction builder \<or> (EnableManifestMergeOnWrite env \<and> HasMergeableManifests env finalData)
      then result_bind (MergeDataManifests env (newSnapshot builder) transforms finalData ws) (\<lambda>(merged, ws).
           Inr (length merged < length finalData, merged, ws))
      else Inr (False, finalData, ws))"

definition publish_snapshot ::
  "manifest_env \<Rightarrow> IcebergSnapshotBuilder \<Rightarrow> int \<Rightarrow> manifest_ptr list \<Rightarrow> manifest_ptr list \<Rightarrow> manifest_ptr list \<Rightarrow> manifest_ptr list
     \<Rightarrow> write_state \<Rightarrow> (IcebergSnapshot option \<times> write_state) result" where
  "publish_snapshot env builder currentSchemaId existingData existingDelete finalData finalDelete ws =
     (let newPersisted = list_difference_ptr finalData existingData @ list_difference_ptr finalDelete existingDelete;
          ws = DeleteInProgressManifests newPersisted ws
      in result_bind (SetSnapshotOperation (newSnapshot builder) (operation builder)) (\<lambda>new.
         let manifestListPath = GenerateRemoteManifestListPath (snapshot_id new) (metadataLocation env) (snapshotUUID env) 1 []
         in result_bind (UploadIcebergManifestListToURI (map snd (finalData @ finalDelete)) manifestListPath ws) (\<lambda>ws.
            Inr (Some (new\<lparr>manifest_list := manifestListPath, snap_schema_id := currentSchemaId\<rparr>), ws))))"

definition build_manifests ::
  "manifest_env \<Rightarrow> IcebergSnapshotBuilder \<Rightarrow> IcebergPartitionTransform list \<Rightarrow> manifest_ptr list \<Rightarrow> manifest_ptr list \<Rightarrow> write_state
     \<Rightarrow> (bool \<times> manifest_ptr list \<times> manifest_ptr list \<times> write_state) result" where
  "build_manifests env builder transforms existingData existingDelete ws =
     result_bind (drop_deleted env builder transforms existingData existingDelete ws) (\<lambda>(dropped, finalData, finalDelete, ws).
     result_bind (add_new_manifests env (newSnapshot builder) transforms ICEBERG_MANIFEST_FILE_CONTENT_DATA
         (hash_seq env (dataEntries builder)) finalData ws) (\<lambda>(finalData, ws).
     result_bind (add_new_manifests env (newSnapshot builder) transforms ICEBERG_MANIFEST_FILE_CONTENT_DELETES
         (hash_seq env (positionalDeleteEntries builder)) finalDelete ws) (\<lambda>(finalDelete, ws).
     let added = dataEntries builder \<noteq> [] \<or> positionalDeleteEntries builder \<noteq> [] in
     result_bind (remove_files env builder transforms finalData finalDelete ws) (\<lambda>(removed, finalData, finalDelete, ws).
     result_bind (merge_manifests env builder transforms finalData ws) (\<lambda>(merged, finalData, ws).
     Inr (dropped \<or> added \<or> removed \<or> merged, finalData, finalDelete, ws))))))"

definition FinalizeNewSnapshot ::
  "manifest_env \<Rightarrow> IcebergSnapshotBuilder \<Rightarrow> int \<Rightarrow> IcebergPartitionTransform list \<Rightarrow> write_state
     \<Rightarrow> (IcebergSnapshot option \<times> write_state) result" where
  "FinalizeNewSnapshot env builder currentSchemaId transforms ws =
     (let ws = ws\<lparr>manifestIndex := 0\<rparr>;
          createNewSnapshot = regenerateSchema builder \<or> regeneratePartitionSpec builder
      in result_bind (FetchManifestsFromSnapshot (ws_store ws) (baseSnapshot builder) (Some IsManifestOfFileContentAdd)) (\<lambda>dataMs.
         result_bind (FetchManifestsFromSnapshot (ws_store ws) (baseSnapshot builder) (Some IsManifestOfFileContentDeletes)) (\<lambda>deleteMs.
         case alloc_list dataMs ws of (existingData, ws) \<Rightarrow>
         case alloc_list deleteMs ws of (existingDelete, ws) \<Rightarrow>
         result_bind (build_manifests env builder transforms existingData existingDelete ws) (\<lambda>(changed, finalData, finalDelete, ws).
         if \<not> (createNewSnapshot \<or> changed) then Inr (None, ws)
         else publish_snapshot env builder currentSchemaId existingData existingDelete finalData finalDelete ws))))"


section \<open>Writing and rewriting one manifest\<close>

lemma write_manifest_eq:
  assumes "state_ok env ws"
  shows "write_manifest env s spec tr c es es' ws =
    result_bind (CreateNewIcebergManifest env s spec tr (GetLocalManifestSize env es) c (manifest_uri env (manifestIndex ws)) es')
      (\<lambda>h. Inr ((next_address ws, h), pushed env es ws))"
  using upload_next(2) [OF assms, of es]
  by (simp add: write_manifest_def Let_def manifest_uri_unfold alloc_after_upload)

lemma write_manifest_total:
  assumes "state_ok env ws" "unpartitioned (data_file ` set es')"
  shows "\<exists>h. write_manifest env s spec tr c es es' ws = Inr ((next_address ws, h), pushed env es ws) \<and>
    manifest_path h = manifest_uri env (manifestIndex ws) \<and> m_content h = c"
proof -
  obtain h where h: "CreateNewIcebergManifest env s spec tr (GetLocalManifestSize env es) c (manifest_uri env (manifestIndex ws)) es' = Inr h"
    using CreateNewIcebergManifest_total [OF assms(2)] by blast
  then show ?thesis using CreateNewIcebergManifest_frame [OF h] by (simp add: write_manifest_eq [OF assms(1)])
qed

text \<open>The files that stay when some paths, or all, are removed.\<close>

definition keeps :: "IcebergManifestEntry list \<Rightarrow> bool \<Rightarrow> DataFile \<Rightarrow> bool" where
  "keeps removed allEntries f \<longleftrightarrow> \<not> allEntries \<and> file_path f \<notin> (\<lambda>e. file_path (data_file e)) ` set removed"

lemma UpdateManifestEntryStateToDeleted_frame:
  assumes "UpdateManifestEntryStateToDeleted m e sid = (m', e')"
  shows "m_content m' = m_content m" "partition_spec_id m' = partition_spec_id m" "data_file e' = data_file e"
    "status e' = ICEBERG_MANIFEST_ENTRY_STATUS_DELETED"
  using assms by (auto simp: UpdateManifestEntryStateToDeleted_def Let_def split: IcebergManifestEntryStatus.splits)

lemma mark_removed_spec:
  assumes "mark_removed m e rs sid = (m', e', n)"
  shows "m_content m' = m_content m \<and> partition_spec_id m' = partition_spec_id m \<and> data_file e' = data_file e \<and>
    (n = 0 \<longleftrightarrow> keeps rs False (data_file e)) \<and>
    (if n = 0 then e' = e else status e' = ICEBERG_MANIFEST_ENTRY_STATUS_DELETED)"
  using assms
proof (induction rs arbitrary: m e m' e' n)
  case Nil
  then show ?case by (simp add: keeps_def)
next
  case (Cons r rs)
  show ?case
  proof (cases "file_path (data_file e) = file_path (data_file r)")
    case True
    obtain m1 e1 where u: "UpdateManifestEntryStateToDeleted m e sid = (m1, e1)" by (metis surj_pair)
    obtain n1 where r: "mark_removed m1 e1 rs sid = (m', e', n1)" "n = Suc n1"
      using Cons.prems True u by (auto split: prod.splits)
    have "status e' = ICEBERG_MANIFEST_ENTRY_STATUS_DELETED"
      using Cons.IH [OF r(1)] UpdateManifestEntryStateToDeleted_frame [OF u] by (auto split: if_splits)
    then show ?thesis
      using Cons.IH [OF r(1)] UpdateManifestEntryStateToDeleted_frame [OF u] True r(2) by (simp add: keeps_def)
  next
    case False
    then show ?thesis using Cons.IH [of m e m' e' n] Cons.prems by (auto simp: keeps_def)
  qed
qed

lemma live_of_single: "live_of [e] = (if IsManifestEntryStatusScannable e then {#data_file e#} else {#})"
  by (simp add: live_of_def)

lemma deleted_entries_simps [simp]:
  "deleted_entries [] = []" "deleted_entries ((e, n) # marked) = replicate n e @ deleted_entries marked"
  by (simp_all add: deleted_entries_def)

lemma remaining_entries_simps [simp]:
  "remaining_entries [] = []"
  "remaining_entries ((e, n) # marked) = (if n = 0 then e # remaining_entries marked else remaining_entries marked)"
  by (simp_all add: remaining_entries_def)

lemma live_of_replicate_deleted: "status e = ICEBERG_MANIFEST_ENTRY_STATUS_DELETED \<Longrightarrow> live_of (replicate n e) = {#}"
  by (induction n) (simp_all add: live_of_def IsManifestEntryStatusScannable_def)

lemma FindAndAdjust_spec:
  assumes "FindAndAdjustDeletedManifestEntries m es rs sid allEntries = (m', marked)"
  shows "m_content m' = m_content m \<and> partition_spec_id m' = partition_spec_id m \<and>
    live_of (deleted_entries marked) = {#} \<and>
    live_of (remaining_entries marked) = filter_mset (keeps rs allEntries) (live_of es) \<and>
    (deleted_entries marked = [] \<longrightarrow> remaining_entries marked = es) \<and>
    data_file ` set (deleted_entries marked @ remaining_entries marked) \<subseteq> data_file ` set es"
  using assms
proof (induction es arbitrary: m m' marked)
  case Nil
  then show ?case by simp
next
  case (Cons e es)
  show ?case
  proof (cases allEntries)
    case True
    show ?thesis
    proof (cases "status e = ICEBERG_MANIFEST_ENTRY_STATUS_DELETED")
      case deleted: True
      then obtain rest where r: "FindAndAdjustDeletedManifestEntries m es rs sid allEntries = (m', rest)" "marked = (e, 0) # rest"
        using Cons.prems True by (auto split: prod.splits)
      then show ?thesis using Cons.IH [OF r(1)] deleted
        by (auto simp: live_of_Cons [of e] live_of_single IsManifestEntryStatusScannable_def)
    next
      case False
      obtain m1 e1 where u: "UpdateManifestEntryStateToDeleted m e sid = (m1, e1)" by (metis surj_pair)
      then obtain rest where r: "FindAndAdjustDeletedManifestEntries m1 es rs sid allEntries = (m', rest)" "marked = (e1, 1) # rest"
        using Cons.prems True False by (auto split: prod.splits)
      note f = UpdateManifestEntryStateToDeleted_frame [OF u]
      show ?thesis using Cons.IH [OF r(1)] f r(2) True
        by (auto simp: live_of_Cons [of e] live_of_Cons [of e1] live_of_single IsManifestEntryStatusScannable_def keeps_def)
    qed
  next
    case False
    obtain m1 e1 n where u: "mark_removed m e rs sid = (m1, e1, n)" by (metis surj_pair)
    then obtain rest where r: "FindAndAdjustDeletedManifestEntries m1 es rs sid allEntries = (m', rest)" "marked = (e1, n) # rest"
      using Cons.prems False by (auto split: prod.splits)
    note f = mark_removed_spec [OF u]
    show ?thesis
    proof (cases "n = 0")
      case True
      then show ?thesis using Cons.IH [OF r(1)] f r(2) False
        by (auto simp: live_of_Cons [of e] live_of_single)
    next
      case removed: False
      then show ?thesis using Cons.IH [OF r(1)] f r(2) False
        by (auto simp: live_of_Cons [of e] live_of_single live_of_replicate_deleted)
    qed
  qed
qed

lemma pushed_pair_post:
  assumes "manifests_ok env c [m] ws"
    "manifest_path h1 = manifest_uri env (manifestIndex ws)" "m_content h1 = c"
    "manifest_path h2 = manifest_uri env (Suc (manifestIndex ws))" "m_content h2 = c"
    "live_of es1 + live_of es2 = effect (live_files (ws_store ws) [m])"
    "data_file ` set (es1 @ es2) \<subseteq> all_files (ws_store ws) [m]"
  shows "step_post env c effect ws [m] (pushed env es2 (pushed env es1 ws)) [(next_address ws, h1), (Suc (next_address ws), h2)]"
proof -
  let ?ws1 = "pushed env es1 ws" and ?ws2 = "pushed env es2 (pushed env es1 ws)"
  have ok1: "manifests_ok env c [(next_address ws, h1)] ?ws1" using assms(2,3) by (rule pushed_manifest_ok)
  have ok2: "manifests_ok env c [(Suc (next_address ws), h2)] ?ws2"
    using pushed_manifest_ok [of h2 env ?ws1 c es2] assms(4,5) by simp
  have e: "extends env ws ?ws2" using extends_trans [OF extends_pushed extends_pushed] .
  note f1 = manifests_ok_frame [OF ok1 extends_pushed, of es2]
  have l: "entries_of (ws_store ?ws2) h1 = es1" "entries_of (ws_store ?ws2) h2 = es2"
    using entries_frame(2) [OF ok1 extends_pushed, of "(next_address ws, h1)" es2] assms(2,4) by simp_all
  have "manifests_ok env c [(next_address ws, h1), (Suc (next_address ws), h2)] ?ws2"
    using f1(1) ok2 manifests_ok_Cons [of env c "(next_address ws, h1)" "[(Suc (next_address ws), h2)]" ?ws2] by simp
  moreover have "from_step env ws ?ws2 [m] [(next_address ws, h1), (Suc (next_address ws), h2)]"
    using assms(2,4) by (simp add: from_step_def new_uris_def)
  ultimately show ?thesis using e assms(6,7) by (simp add: step_post_def l image_Un)
qed

lemma pushed_one_post:
  assumes "manifests_ok env c [m] ws"
    "manifest_path h = manifest_uri env (manifestIndex ws)" "m_content h = c"
    "live_of es = effect (live_files (ws_store ws) [m])" "data_file ` set es \<subseteq> all_files (ws_store ws) [m]"
  shows "step_post env c effect ws [m] (pushed env es ws) [(next_address ws, h)]"
  using pushed_manifest_ok [OF assms(2,3)] assms(2,4,5) by (simp add: step_post_def from_step_def)

lemma unpartitioned_subset: "unpartitioned A \<Longrightarrow> B \<subseteq> A \<Longrightarrow> unpartitioned B"
  by (auto simp: unpartitioned_def)

lemma write_manifest_cases:
  assumes "state_ok env ws" "write_manifest env s spec tr c es es' ws = Inr (m, ws')"
  shows "\<exists>h. m = (next_address ws, h) \<and> ws' = pushed env es ws \<and>
    manifest_path h = manifest_uri env (manifestIndex ws) \<and> m_content h = c"
  using assms(2) CreateNewIcebergManifest_frame
  by (auto simp: write_manifest_eq [OF assms(1)] result_bind_Inr_iff)

text \<open>The outcome of marking the entries of one manifest.\<close>

lemma rewrite_manifest_eq:
  assumes "manifests_ok env c [m] ws"
  shows "\<exists>marked spec. rewrite_manifest env (snd m) removed allEntries new tr ws =
      (if deleted_entries marked \<noteq> []
       then result_bind (CreateNewManifestsForDeletedEntries env marked new spec tr c ws) (\<lambda>(ms, ws). Inr (Some ms, ws))
       else Inr (None, ws)) \<and>
    live_of (deleted_entries marked) + live_of (remaining_entries marked) =
      filter_mset (keeps removed allEntries) (live_files (ws_store ws) [m]) \<and>
    (deleted_entries marked = [] \<longrightarrow>
      filter_mset (keeps removed allEntries) (live_files (ws_store ws) [m]) = live_files (ws_store ws) [m]) \<and>
    data_file ` set (deleted_entries marked @ remaining_entries marked) \<subseteq> all_files (ws_store ws) [m]"
proof -
  let ?es = "entries_of (ws_store ws) (snd m)"
  obtain m' marked where f: "FindAndAdjustDeletedManifestEntries (snd m) ?es removed (snapshot_id new) allEntries = (m', marked)"
    by (metis surj_pair)
  note spec = FindAndAdjust_spec [OF f]
  have read: "ReadManifestEntries (ws_store ws) (manifest_path (snd m)) = Inr ?es" using read_entries_ok [OF assms, of m] by simp
  have c: "m_content m' = c" using spec assms by (simp add: manifests_ok_def)
  have "deleted_entries marked = [] \<longrightarrow> filter_mset (keeps removed allEntries) (live_of ?es) = live_of ?es" using spec by metis
  then show ?thesis
    using spec by (intro exI [of _ marked] exI [of _ "partition_spec_id m'"]) (simp add: rewrite_manifest_def read f c)
qed

lemma CreateNewManifests_post:
  assumes ok: "state_ok env ws" "manifests_ok env c [m] ws"
    and live: "live_of (deleted_entries marked) + live_of (remaining_entries marked) = effect (live_files (ws_store ws) [m])"
    and files: "data_file ` set (deleted_entries marked @ remaining_entries marked) \<subseteq> all_files (ws_store ws) [m]"
    and r: "CreateNewManifestsForDeletedEntries env marked new spec tr c ws = Inr (ms, ws')"
  shows "step_post env c effect ws [m] ws' ms"
proof -
  let ?del = "deleted_entries marked" and ?rem = "remaining_entries marked"
  obtain d ws1 where d: "write_manifest env new spec tr c ?del ?del ws = Inr (d, ws1)"
    using r by (auto simp: CreateNewManifestsForDeletedEntries_def result_bind_Inr_iff)
  obtain h1 where h1: "d = (next_address ws, h1)" "ws1 = pushed env ?del ws"
    "manifest_path h1 = manifest_uri env (manifestIndex ws)" "m_content h1 = c"
    using write_manifest_cases [OF ok(1) d] by blast
  show ?thesis
  proof (cases "?rem = []")
    case True
    then have "ms = [d]" "ws' = ws1" using r d by (simp_all add: CreateNewManifestsForDeletedEntries_def)
    then show ?thesis
      using pushed_one_post [OF ok(2) h1(3,4), of ?del effect] live files True h1(1,2) by simp
  next
    case False
    then obtain e where e: "write_manifest env new spec tr c ?rem (SetExistingStatusForOldSnapshotAddedEntries ?rem (snapshot_id new)) ws1 = Inr (e, ws')"
      "ms = [d, e]" using r d by (auto simp: CreateNewManifestsForDeletedEntries_def Let_def result_bind_Inr_iff)
    obtain h2 where h2: "e = (next_address ws1, h2)" "ws' = pushed env ?rem ws1"
      "manifest_path h2 = manifest_uri env (manifestIndex ws1)" "m_content h2 = c"
      using write_manifest_cases [OF _ e(1)] ok(1) h1(2) by auto
    show ?thesis
      using pushed_pair_post [where effect = effect, OF ok(2) h1(3,4) _ h2(4) live files] h1(1,2) h2(1-3) e(2) by simp
  qed
qed

lemma CreateNewManifests_total:
  assumes "state_ok env ws" "unpartitioned (data_file ` set (deleted_entries marked @ remaining_entries marked))"
  shows "\<exists>ms ws'. CreateNewManifestsForDeletedEntries env marked new spec tr c ws = Inr (ms, ws')"
proof -
  let ?del = "deleted_entries marked" and ?rem = "remaining_entries marked"
  have "data_file ` set (SetExistingStatusForOldSnapshotAddedEntries ?rem (snapshot_id new)) = data_file ` set ?rem"
    by (metis files_SetExisting list.set_map)
  then have up: "unpartitioned (data_file ` set ?del)"
    "unpartitioned (data_file ` set (SetExistingStatusForOldSnapshotAddedEntries ?rem (snapshot_id new)))"
    using assms(2) by (simp_all add: image_Un unpartitioned_def)
  obtain h where "write_manifest env new spec tr c ?del ?del ws = Inr (h, pushed env ?del ws)"
    using write_manifest_total [OF assms(1) up(1)] by blast
  moreover obtain h' ws' where "write_manifest env new spec tr c ?rem (SetExistingStatusForOldSnapshotAddedEntries ?rem (snapshot_id new))
      (pushed env ?del ws) = Inr (h', ws')"
    using write_manifest_total [OF state_ok_pushed [OF assms(1)] up(2)] by blast
  ultimately show ?thesis by (simp add: CreateNewManifestsForDeletedEntries_def Let_def)
qed

lemma rewrite_manifest_post:
  assumes ok: "state_ok env ws" "manifests_ok env c [m] ws"
    and r: "rewrite_manifest env (snd m) removed allEntries new tr ws = Inr (r, ws')"
  shows "step_post env c (filter_mset (keeps removed allEntries)) ws [m] ws' (case r of None \<Rightarrow> [m] | Some ms \<Rightarrow> ms)"
    "r = None \<Longrightarrow> ws' = ws"
proof -
  let ?eff = "filter_mset (keeps removed allEntries)"
  obtain marked spec where eq: "rewrite_manifest env (snd m) removed allEntries new tr ws =
      (if deleted_entries marked \<noteq> []
       then result_bind (CreateNewManifestsForDeletedEntries env marked new spec tr c ws) (\<lambda>(ms, ws). Inr (Some ms, ws))
       else Inr (None, ws))"
    and live: "live_of (deleted_entries marked) + live_of (remaining_entries marked) = ?eff (live_files (ws_store ws) [m])"
    and same: "deleted_entries marked = [] \<longrightarrow> ?eff (live_files (ws_store ws) [m]) = live_files (ws_store ws) [m]"
    and files: "data_file ` set (deleted_entries marked @ remaining_entries marked) \<subseteq> all_files (ws_store ws) [m]"
    using rewrite_manifest_eq [OF ok(2), of removed allEntries new tr] by blast
  show "r = None \<Longrightarrow> ws' = ws" using r unfolding eq by (auto simp: result_bind_Inr_iff split: if_splits)
  show "step_post env c ?eff ws [m] ws' (case r of None \<Rightarrow> [m] | Some ms \<Rightarrow> ms)"
  proof (cases "deleted_entries marked = []")
    case True
    then show ?thesis using r eq ok(2) same by (simp add: step_post_def)
  next
    case False
    then obtain ms where "CreateNewManifestsForDeletedEntries env marked new spec tr c ws = Inr (ms, ws')" "r = Some ms"
      using r eq by (auto simp: result_bind_Inr_iff)
    then show ?thesis using CreateNewManifests_post [where effect = ?eff, OF ok live files] by simp
  qed
qed

lemma rewrite_manifest_total:
  assumes "state_ok env ws" "manifests_ok env c [m] ws" "unpartitioned (all_files (ws_store ws) [m])"
  shows "\<exists>r ws'. rewrite_manifest env (snd m) removed allEntries new tr ws = Inr (r, ws')"
proof -
  obtain marked spec where eq: "rewrite_manifest env (snd m) removed allEntries new tr ws =
      (if deleted_entries marked \<noteq> []
       then result_bind (CreateNewManifestsForDeletedEntries env marked new spec tr c ws) (\<lambda>(ms, ws). Inr (Some ms, ws))
       else Inr (None, ws))"
    and files: "data_file ` set (deleted_entries marked @ remaining_entries marked) \<subseteq> all_files (ws_store ws) [m]"
    using rewrite_manifest_eq [OF assms(2), of removed allEntries new tr] by blast
  obtain ms ws' where "CreateNewManifestsForDeletedEntries env marked new spec tr c ws = Inr (ms, ws')"
    using CreateNewManifests_total [OF assms(1) unpartitioned_subset [OF assms(3) files]] by blast
  then show ?thesis by (simp add: eq)
qed


section \<open>Removing files from a list of manifests\<close>

definition final_list :: "IcebergManifestContentType \<Rightarrow> manifest_ptr list \<Rightarrow> manifest_ptr list \<Rightarrow> manifest_ptr list" where
  "final_list c finalData finalDelete = (case c of ICEBERG_MANIFEST_FILE_CONTENT_DATA \<Rightarrow> finalData | ICEBERG_MANIFEST_FILE_CONTENT_DELETES \<Rightarrow> finalDelete)"

definition other_list :: "IcebergManifestContentType \<Rightarrow> manifest_ptr list \<Rightarrow> manifest_ptr list \<Rightarrow> manifest_ptr list" where
  "other_list c finalData finalDelete = (case c of ICEBERG_MANIFEST_FILE_CONTENT_DATA \<Rightarrow> finalDelete | ICEBERG_MANIFEST_FILE_CONTENT_DELETES \<Rightarrow> finalData)"

lemma filter_address:
  assumes "distinct (map fst ms)" "m \<in> set ms"
  shows "mset ms = add_mset m (mset (filter (\<lambda>k. fst k \<noteq> fst m) ms))"
  using assms
proof (induction ms)
  case (Cons k ms)
  show ?case
  proof (cases "k = m")
    case True
    then have "filter (\<lambda>k. fst k \<noteq> fst m) ms = ms" using Cons.prems(1) by (simp add: filter_id_conv) (metis image_eqI)
    then show ?thesis using True by simp
  next
    case False
    then have "m \<in> set ms" "fst k \<noteq> fst m" using Cons.prems by force+
    then show ?thesis using Cons by simp
  qed
qed simp

lemma manifests_ok_step:
  assumes "manifests_ok env c (as @ ms @ bs) ws" "step_post env c effect ws ms ws' ms'"
  shows "manifests_ok env c (as @ ms' @ bs) ws'"
proof -
  have ok: "manifests_ok env c as ws" "manifests_ok env c bs ws" "manifests_ok env c ms' ws'" and e: "extends env ws ws'"
    and from': "\<And>m. m \<in> set ms' \<Longrightarrow> m \<in> set ms \<or> next_address ws \<le> fst m"
    using assms by (auto simp: manifests_ok_append step_post_def from_step_def)
  have dj: "fst ` set as \<inter> fst ` set bs = {}" "fst ` set (as @ bs) \<inter> fst ` set ms = {}"
    using assms(1) by (auto simp: manifests_ok_append image_Un)
  have small: "a < next_address ws" if "a \<in> fst ` set (as @ bs)" for a using ok(1,2) that by (auto simp: manifests_ok_def)
  have "fst ` set (as @ bs) \<inter> fst ` set ms' = {}"
  proof (rule ccontr)
    assume "fst ` set (as @ bs) \<inter> fst ` set ms' \<noteq> {}"
    then obtain a where "a \<in> fst ` set (as @ bs)" "a \<in> fst ` set ms'" by blast
    then obtain m where m: "m \<in> set ms'" "fst m \<in> fst ` set (as @ bs)" by (metis imageE)
    from from' [OF m(1)] small [OF m(2)] have "m \<in> set ms" by simp
    then show False using dj(2) m(2) by blast
  qed
  then have "fst ` set as \<inter> fst ` set ms' = {}" "fst ` set ms' \<inter> fst ` set bs = {}" by (simp_all add: image_Un) blast+
  then show ?thesis using manifests_ok_frame(1) [OF ok(1) e] manifests_ok_frame(1) [OF ok(2) e] ok(3) dj(1)
    by (simp add: manifests_ok_append image_Un Int_Un_distrib)
qed

text \<open>A step, then a step on another list; and the other way round.\<close>

lemma step_post_then:
  assumes "step_post env c effect ws ms ws1 ms'" "step_post env c' effect' ws1 ks ws2 ks'"
  shows "step_post env c effect ws ms ws2 ms'"
proof -
  have e: "extends env ws ws1" "extends env ws1 ws2" "manifests_ok env c ms' ws1"
    using assms by (simp_all add: step_post_def)
  show ?thesis
    using assms(1) extends_trans [OF e(1,2)] manifests_ok_frame [OF e(3,2)] from_step_trans [OF e(1,2) _ from_step_refl]
    by (simp add: step_post_def)
qed

lemma step_post_after:
  assumes "manifests_ok env c ms ws" "extends env ws ws1" "step_post env c effect ws1 ms ws2 ms'"
  shows "step_post env c effect ws ms ws2 ms'"
proof -
  have e: "extends env ws1 ws2" using assms by (simp_all add: step_post_def)
  show ?thesis
    using assms(3) extends_trans [OF assms(2) e] manifests_ok_frame [OF assms(1,2)] from_step_trans [OF assms(2) e from_step_refl]
    by (simp add: step_post_def)
qed

lemma RewriteManifest_step:
  assumes "RewriteManifestForRemoval env m removed allEntries new tr D E ws = Inr (b, D', E', ws')"
    "m_content (snd m) = c" "distinct (map fst (final_list c D E))" "m \<in> set (final_list c D E)"
  shows "\<exists>r. rewrite_manifest env (snd m) removed allEntries new tr ws = Inr (r, ws') \<and>
    other_list c D' E' = other_list c D E \<and> b = (r \<noteq> None) \<and> (r = None \<longrightarrow> D' = D \<and> E' = E) \<and>
    add_mset m (mset (final_list c D' E')) = mset (final_list c D E) + mset (case r of None \<Rightarrow> [m] | Some ms \<Rightarrow> ms)"
proof -
  obtain r where r: "rewrite_manifest env (snd m) removed allEntries new tr ws = Inr (r, ws')"
    using assms(1,2) by (cases c) (auto simp: RewriteManifestForRemoval_def result_bind_Inr_iff split: option.splits)
  note f = filter_address [OF assms(3,4)]
  show ?thesis
    using assms(1,2) f r by (cases r; cases c) (auto simp: RewriteManifestForRemoval_def final_list_def other_list_def)
qed

lemma rewrite_loop_post:
  assumes "state_ok env ws" "manifests_ok env c (dn @ todo) ws" "mset (final_list c D E) = mset (dn @ todo)"
    "rewrite_loop env todo removed allEntries new tr D E ws = Inr (b, D', E', ws')"
  shows "other_list c D' E' = other_list c D E \<and> (\<not> b \<longrightarrow> D' = D \<and> E' = E \<and> ws' = ws) \<and>
    (\<exists>ms. mset (final_list c D' E') = mset (dn @ ms) \<and> manifests_ok env c (dn @ ms) ws' \<and>
       step_post env c (filter_mset (keeps removed allEntries)) ws todo ws' ms)"
  using assms
proof (induction todo arbitrary: dn D E ws b)
  case Nil
  then show ?case by (auto simp: step_post_def)
next
  case (Cons m todo)
  let ?eff = "filter_mset (keeps removed allEntries)"
  obtain b1 D1 E1 ws1 where r1: "RewriteManifestForRemoval env m removed allEntries new tr D E ws = Inr (b1, D1, E1, ws1)"
    using Cons.prems(4) by (auto simp: result_bind_Inr_iff)
  then obtain b2 where r2: "rewrite_loop env todo removed allEntries new tr D1 E1 ws1 = Inr (b2, D', E', ws')" and b: "b = (b1 \<or> b2)"
    using Cons.prems(4) by (force simp: result_bind_Inr_iff)
  have ok: "manifests_ok env c [m] ws" "manifests_ok env c (dn @ todo) ws" "manifests_ok env c (m # todo) ws" "m_content (snd m) = c"
    using Cons.prems(2) by (auto simp: manifests_ok_def)
  have dist: "distinct (map fst (final_list c D E))"
  proof -
    have "distinct (map fst (dn @ m # todo))" using Cons.prems(2) unfolding manifests_ok_def by blast
    moreover have "mset (map fst (final_list c D E)) = mset (map fst (dn @ m # todo))"
      using Cons.prems(3) by (metis mset_map)
    ultimately show ?thesis using mset_eq_imp_distinct_iff by blast
  qed
  have mem: "m \<in> set (final_list c D E)" using Cons.prems(3) by (metis in_set_conv_decomp set_mset_mset)
  obtain r where rm: "rewrite_manifest env (snd m) removed allEntries new tr ws = Inr (r, ws1)"
    and oth: "other_list c D1 E1 = other_list c D E" and b1: "b1 = (r \<noteq> None)" "r = None \<longrightarrow> D1 = D \<and> E1 = E"
    and fin: "add_mset m (mset (final_list c D1 E1)) = mset (final_list c D E) + mset (case r of None \<Rightarrow> [m] | Some ms \<Rightarrow> ms)"
    using RewriteManifest_step [OF r1 ok(4) dist mem] by blast
  define ns where "ns = (case r of None \<Rightarrow> [m] | Some ms \<Rightarrow> ms)"
  have p: "step_post env c ?eff ws [m] ws1 ns"
    unfolding ns_def by (rule rewrite_manifest_post(1) [OF Cons.prems(1) ok(1) rm])
  have ok1: "manifests_ok env c ((dn @ ns) @ todo) ws1"
    using manifests_ok_step [OF _ p, of dn todo] Cons.prems(2) by simp
  have fin1: "mset (final_list c D1 E1) = mset ((dn @ ns) @ todo)"
    using fin Cons.prems(3) by (simp add: ns_def [symmetric])
  have e: "extends env ws ws1" using p by (simp add: step_post_def)
  obtain ms where ih: "other_list c D' E' = other_list c D1 E1" "\<not> b2 \<longrightarrow> D' = D1 \<and> E' = E1 \<and> ws' = ws1"
    "mset (final_list c D' E') = mset ((dn @ ns) @ ms)" "manifests_ok env c ((dn @ ns) @ ms) ws'" "step_post env c ?eff ws1 todo ws' ms"
    using Cons.IH [OF state_ok_extends [OF Cons.prems(1) e] ok1 fin1 r2] by blast
  have "step_post env c ?eff ws (m # todo) ws' (ns @ ms)"
    using step_post_append [of ?eff env c "[m]" todo, OF _ _ p ih(5)] ok(3) by simp
  moreover have "\<not> b \<longrightarrow> D' = D \<and> E' = E \<and> ws' = ws"
    using ih(2) b b1 rewrite_manifest_post(2) [OF Cons.prems(1) ok(1) rm] by auto
  moreover have "mset (final_list c D' E') = mset (dn @ ns @ ms)" "manifests_ok env c (dn @ ns @ ms) ws'" using ih(3,4) by simp_all
  ultimately show ?case using ih(1) oth by metis
qed

lemma rewrite_loop_append:
  "rewrite_loop env (xs @ ys) removed allEntries new tr D E ws =
     result_bind (rewrite_loop env xs removed allEntries new tr D E ws) (\<lambda>(b, D, E, ws).
     result_bind (rewrite_loop env ys removed allEntries new tr D E ws) (\<lambda>(b', D, E, ws). Inr (b \<or> b', D, E, ws)))"
proof (induction xs arbitrary: D E ws)
  case Nil
  show ?case by (cases "rewrite_loop env ys removed allEntries new tr D E ws") auto
next
  case (Cons x xs)
  show ?case
  proof (cases "RewriteManifestForRemoval env x removed allEntries new tr D E ws")
    case (Inr r)
    obtain b1 D1 E1 ws1 where r: "r = (b1, D1, E1, ws1)" by (cases r) auto
    show ?thesis
    proof (cases "rewrite_loop env xs removed allEntries new tr D1 E1 ws1")
      case (Inr q)
      obtain b2 D2 E2 ws2 where "q = (b2, D2, E2, ws2)" by (cases q) auto
      then show ?thesis using Inr \<open>RewriteManifestForRemoval env x removed allEntries new tr D E ws = Inr r\<close> r Cons.IH
        by (cases "rewrite_loop env ys removed allEntries new tr D2 E2 ws2") auto
    qed (use \<open>RewriteManifestForRemoval env x removed allEntries new tr D E ws = Inr r\<close> r Cons.IH in simp)
  qed simp
qed

text \<open>The whole removal, for both kinds of manifests.\<close>

abbreviation "DATA_M \<equiv> ICEBERG_MANIFEST_FILE_CONTENT_DATA"
abbreviation "DELETES_M \<equiv> ICEBERG_MANIFEST_FILE_CONTENT_DELETES"

lemma remove_files_post:
  assumes "state_ok env ws" "manifests_ok env DATA_M D ws" "manifests_ok env DELETES_M E ws"
    "remove_files env builder tr D E ws = Inr (b, D', E', ws')"
  shows "step_post env DATA_M (filter_mset (keeps (removedEntries builder) (removeAllEntries builder))) ws D ws' D'"
    "step_post env DELETES_M (filter_mset (keeps (removedEntries builder) (removeAllEntries builder))) ws E ws' E'"
    "\<not> b \<Longrightarrow> D' = D \<and> E' = E \<and> ws' = ws"
proof -
  let ?rs = "removedEntries builder" and ?all = "removeAllEntries builder" and ?new = "newSnapshot builder"
  let ?eff = "filter_mset (keeps ?rs ?all)"
  have "step_post env DATA_M ?eff ws D ws' D' \<and> step_post env DELETES_M ?eff ws E ws' E' \<and> (\<not> b \<longrightarrow> D' = D \<and> E' = E \<and> ws' = ws)"
  proof (cases "?rs \<noteq> [] \<or> ?all")
    case False
    have "keeps [] False = (\<lambda>_. True)" by (simp add: keeps_def fun_eq_iff)
    then have "?eff = id" using False by (intro ext) simp
    then show ?thesis using False assms(2-4) by (simp add: remove_files_def step_post_def)
  next
    case True
    then have loop: "rewrite_loop env (D @ E) ?rs ?all ?new tr D E ws = Inr (b, D', E', ws')"
      using assms(4) by (simp add: remove_files_def)
    obtain b1 D1 E1 ws1 where l1: "rewrite_loop env D ?rs ?all ?new tr D E ws = Inr (b1, D1, E1, ws1)"
      using loop by (auto simp: rewrite_loop_append result_bind_Inr_iff)
    then obtain b2 where l2: "rewrite_loop env E ?rs ?all ?new tr D1 E1 ws1 = Inr (b2, D', E', ws')" "b = (b1 \<or> b2)"
      using loop by (force simp: rewrite_loop_append result_bind_Inr_iff)
    obtain ms where s1: "E1 = E" "\<not> b1 \<longrightarrow> D1 = D \<and> ws1 = ws" "mset D1 = mset ms" "step_post env DATA_M ?eff ws D ws1 ms"
      using rewrite_loop_post [of env ws DATA_M "[]" D D E, OF assms(1) _ _ l1] assms(2)
      by (auto simp: final_list_def other_list_def)
    have p1: "step_post env DATA_M ?eff ws D ws1 D1" by (rule step_post_mset [OF s1(4)]) (simp_all add: s1(3))
    then have e1: "extends env ws ws1" "manifests_ok env DATA_M D1 ws1" by (simp_all add: step_post_def)
    note f = manifests_ok_frame [OF assms(3) e1(1)]
    obtain ms' where s2: "D' = D1" "\<not> b2 \<longrightarrow> E' = E \<and> ws' = ws1" "mset E' = mset ms'" "step_post env DELETES_M ?eff ws1 E ws' ms'"
      using rewrite_loop_post [of env ws1 DELETES_M "[]" E D1 E, OF state_ok_extends [OF assms(1) e1(1)] _ _ l2(1) [unfolded s1(1)]] f(1)
      by (auto simp: final_list_def other_list_def)
    have p2: "step_post env DELETES_M ?eff ws1 E ws' E'" by (rule step_post_mset [OF s2(4)]) (simp_all add: s2(3))
    show ?thesis
      using step_post_then [OF p1 p2] step_post_after [OF assms(3) e1(1) p2] s1(2) s2(1,2) l2(2) by simp
  qed
  then show "step_post env DATA_M ?eff ws D ws' D'" "step_post env DELETES_M ?eff ws E ws' E'" "\<not> b \<Longrightarrow> D' = D \<and> E' = E \<and> ws' = ws"
    by blast+
qed

lemma rewrite_loop_total:
  assumes "state_ok env ws" "manifests_ok env c todo ws" "unpartitioned (all_files (ws_store ws) todo)"
  shows "\<exists>b D' E' ws'. rewrite_loop env todo removed allEntries new tr D E ws = Inr (b, D', E', ws')"
  using assms
proof (induction todo arbitrary: D E ws)
  case Nil
  then show ?case by (simp add: ex_bool_eq)
next
  case (Cons m todo)
  have ok: "manifests_ok env c [m] ws" "manifests_ok env c todo ws" using Cons.prems(2) manifests_ok_Cons by blast+
  have up: "unpartitioned (all_files (ws_store ws) [m])" "unpartitioned (all_files (ws_store ws) todo)"
    using Cons.prems(3) by (simp_all add: unpartitioned_def)
  obtain r ws1 where r: "rewrite_manifest env (snd m) removed allEntries new tr ws = Inr (r, ws1)"
    using rewrite_manifest_total [OF Cons.prems(1) ok(1) up(1)] by blast
  have e: "extends env ws ws1" using rewrite_manifest_post(1) [OF Cons.prems(1) ok(1) r] by (simp add: step_post_def)
  obtain b1 D1 E1 where 1: "RewriteManifestForRemoval env m removed allEntries new tr D E ws = Inr (b1, D1, E1, ws1)"
    using r that by (cases r; cases "m_content (snd m)") (fastforce simp: RewriteManifestForRemoval_def)+
  obtain b2 D2 E2 ws2 where "rewrite_loop env todo removed allEntries new tr D1 E1 ws1 = Inr (b2, D2, E2, ws2)"
    using Cons.IH [OF state_ok_extends [OF Cons.prems(1) e] manifests_ok_frame(1) [OF ok(2) e]] up(2) manifests_ok_frame(3) [OF ok(2) e]
    by metis
  then show ?case using 1 by simp
qed

lemma remove_files_total:
  assumes "state_ok env ws" "manifests_ok env DATA_M D ws" "manifests_ok env DELETES_M E ws"
    "unpartitioned (all_files (ws_store ws) D)" "unpartitioned (all_files (ws_store ws) E)"
  shows "\<exists>r. remove_files env builder tr D E ws = Inr r"
proof (cases "removedEntries builder \<noteq> [] \<or> removeAllEntries builder")
  case False
  then have "remove_files env builder tr D E ws = Inr (False, D, E, ws)" by (simp add: remove_files_def)
  then show ?thesis by blast
next
  case True
  let ?loop = "\<lambda>ms. rewrite_loop env ms (removedEntries builder) (removeAllEntries builder) (newSnapshot builder) tr"
  obtain b1 D1 E1 ws1 where l1: "?loop D D E ws = Inr (b1, D1, E1, ws1)"
    using rewrite_loop_total [OF assms(1,2,4)] by blast
  have e: "extends env ws ws1"
    using rewrite_loop_post [of env ws DATA_M "[]" D D E, OF assms(1) _ _ l1] assms(2) by (auto simp: step_post_def final_list_def)
  note f = manifests_ok_frame [OF assms(3) e]
  obtain b2 D2 E2 ws2 where l2: "?loop E D1 E1 ws1 = Inr (b2, D2, E2, ws2)"
    using rewrite_loop_total [OF state_ok_extends [OF assms(1) e] f(1)] f(3) assms(5) by metis
  show ?thesis using True l1 l2 by (simp add: remove_files_def rewrite_loop_append)
qed


section \<open>The other steps of a commit\<close>

lemma drop_deleted_post:
  assumes "state_ok env ws" "manifests_ok env DATA_M D ws" "manifests_ok env DELETES_M E ws"
    "drop_deleted env builder tr D E ws = Inr (b, D', E', ws')"
  shows "step_post env DATA_M id ws D ws' D'" "step_post env DELETES_M id ws E ws' E'"
proof -
  have "step_post env DATA_M id ws D ws' D' \<and> step_post env DELETES_M id ws E ws' E'"
  proof (cases "applyManifestCompaction builder \<or> EnableManifestMergeOnWrite env")
    case False
    then show ?thesis using assms by (simp add: drop_deleted_def step_post_def)
  next
    case True
    obtain D1 b1 ws1 where d: "RemoveDeletedManifestEntries env (baseSnapshot builder) tr D DATA_M ws = Inr (D1, b1, ws1)"
      using assms(4) True by (auto simp: drop_deleted_def result_bind_Inr_iff)
    obtain b2 where e: "RemoveDeletedManifestEntries env (baseSnapshot builder) tr E DELETES_M ws1 = Inr (E', b2, ws')" "D' = D1"
      using assms(4) True d by (auto simp: drop_deleted_def result_bind_Inr_iff)
    note p1 = RemoveDeleted_post [OF assms(1,2) d]
    have x: "extends env ws ws1" using p1 by (simp add: step_post_def)
    note p2 = RemoveDeleted_post [OF state_ok_extends [OF assms(1) x] manifests_ok_frame(1) [OF assms(3) x] e(1)]
    show ?thesis using step_post_then [OF p1 p2] step_post_after [OF assms(3) x p2] e(2) by simp
  qed
  then show "step_post env DATA_M id ws D ws' D'" "step_post env DELETES_M id ws E ws' E'" by blast+
qed

lemma drop_deleted_total:
  assumes "state_ok env ws" "manifests_ok env DATA_M D ws" "manifests_ok env DELETES_M E ws"
    "unpartitioned (all_files (ws_store ws) D)" "unpartitioned (all_files (ws_store ws) E)"
    "baseSnapshot builder = None \<longrightarrow> D = [] \<and> E = []"
  shows "\<exists>r. drop_deleted env builder tr D E ws = Inr r"
proof (cases "baseSnapshot builder")
  case None
  then have "drop_deleted env builder tr D E ws = Inr (False, [], [], ws)" using assms(6) by (simp add: drop_deleted_def)
  then show ?thesis by blast
next
  case (Some s)
  obtain D1 b1 ws1 where d: "RemoveDeletedManifestEntries env (Some s) tr D DATA_M ws = Inr (D1, b1, ws1)"
    using RemoveDeleted_total [OF assms(1,2,4)] by blast
  have x: "extends env ws ws1" using RemoveDeleted_post [OF assms(1,2) d] by (simp add: step_post_def)
  note f = manifests_ok_frame [OF assms(3) x]
  obtain E1 b2 ws2 where "RemoveDeletedManifestEntries env (Some s) tr E DELETES_M ws1 = Inr (E1, b2, ws2)"
    using RemoveDeleted_total [OF state_ok_extends [OF assms(1) x] f(1)] f(3) assms(5) by metis
  then have "drop_deleted env builder tr D E ws =
    (if applyManifestCompaction builder \<or> EnableManifestMergeOnWrite env then Inr (b1 \<or> b2, D1, E1, ws2) else Inr (False, D, E, ws))"
    using d Some by (simp add: drop_deleted_def)
  then show ?thesis by metis
qed

text \<open>Adding manifests: the list grows by the new entries.\<close>

definition add_post where
  "add_post env content added ws ms ws' ms' \<longleftrightarrow>
     extends env ws ws' \<and> manifests_ok env content ms' ws' \<and>
     live_files (ws_store ws') ms' = live_files (ws_store ws) ms + live_of added \<and>
     all_files (ws_store ws') ms' = all_files (ws_store ws) ms \<union> data_file ` set added \<and>
     from_step env ws ws' ms ms'"

lemma add_new_manifests_post:
  assumes "state_ok env ws" "manifests_ok env c ms ws" "add_new_manifests env new tr c ht ms ws = Inr (ms', ws')"
  shows "add_post env c (concat (map snd ht)) ws ms ws' ms'"
  using assms
proof (induction ht arbitrary: ms ws)
  case Nil
  then show ?case by (simp add: add_post_def)
next
  case (Cons e ht)
  obtain spec es where e: "e = (spec, es)" by (cases e)
  obtain m ws1 where m: "write_manifest env new spec tr c es es ws = Inr (m, ws1)"
    and r: "add_new_manifests env new tr c ht (ms @ [m]) ws1 = Inr (ms', ws')"
    using Cons.prems(3) by (auto simp: e result_bind_Inr_iff)
  obtain h where h: "m = (next_address ws, h)" "ws1 = pushed env es ws" "manifest_path h = manifest_uri env (manifestIndex ws)" "m_content h = c"
    using write_manifest_cases [OF Cons.prems(1) m] by blast
  note f = manifests_ok_frame [OF Cons.prems(2) extends_pushed [of env ws es]]
  have "next_address ws \<notin> fst ` set ms" using Cons.prems(2) by (auto simp: manifests_ok_def)
  then have ok: "manifests_ok env c (ms @ [m]) ws1"
    using f(1) pushed_manifest_ok [OF h(3,4)] by (simp add: h(1,2) manifests_ok_append)
  have fs: "from_step env ws ws1 ms (ms @ [m])" using h by (simp add: from_step_def)
  have s1: "state_ok env ws1" "extends env ws ws1" using Cons.prems(1) h(2) by simp_all
  have p: "add_post env c (concat (map snd ht)) ws1 (ms @ [m]) ws' ms'" by (rule Cons.IH [OF s1(1) ok r])
  then have x: "extends env ws1 ws'" "from_step env ws1 ws' (ms @ [m]) ms'" by (simp_all add: add_post_def)
  show ?case
    using p extends_trans [OF s1(2) x(1)] from_step_trans [OF s1(2) x(1) fs x(2)] f(2,3) h
    by (auto simp: add_post_def e image_Un)
qed

lemma add_new_manifests_total:
  assumes "state_ok env ws" "unpartitioned (data_file ` set (concat (map snd ht)))"
  shows "\<exists>ms' ws'. add_new_manifests env new tr c ht ms ws = Inr (ms', ws')"
  using assms
proof (induction ht arbitrary: ms ws)
  case (Cons e ht)
  obtain spec es where e: "e = (spec, es)" by (cases e)
  have up: "unpartitioned (data_file ` set es)" "unpartitioned (data_file ` set (concat (map snd ht)))"
    using Cons.prems(2) by (auto simp: e unpartitioned_def)
  obtain m where m: "write_manifest env new spec tr c es es ws = Inr (m, pushed env es ws)"
    using write_manifest_total [OF Cons.prems(1) up(1)] by blast
  show ?case using Cons.IH [OF state_ok_pushed [OF Cons.prems(1)] up(2)] m by (auto simp: e)
qed simp

lemma add_post_then:
  assumes "add_post env c added ws ms ws1 ms'" "extends env ws1 ws2"
  shows "add_post env c added ws ms ws2 ms'"
proof -
  have e: "extends env ws ws1" "manifests_ok env c ms' ws1" "from_step env ws ws1 ms ms'" using assms(1) by (simp_all add: add_post_def)
  show ?thesis
    using assms(1) extends_trans [OF e(1) assms(2)] manifests_ok_frame [OF e(2) assms(2)] from_step_trans [OF e(1) assms(2) e(3) from_step_refl]
    by (simp add: add_post_def)
qed

lemma merge_manifests_post:
  assumes "order_ok env" "state_ok env ws" "manifests_ok env DATA_M D ws" "merge_manifests env builder tr D ws = Inr (b, D', ws')"
  shows "step_post env DATA_M id ws D ws' D'"
proof -
  note step = manifest_step.step_correct [OF merge_is_step [OF assms(1)] assms(2,3)]
  have refl: "step_post env DATA_M id ws D ws D" using assms(3) by (simp add: step_post_def)
  show ?thesis
    using assms(4) step refl by (auto simp: merge_manifests_def result_bind_Inr_iff split: if_splits)
qed

lemma merge_manifests_total:
  assumes "order_ok env" "state_ok env ws" "manifests_ok env DATA_M D ws" "unpartitioned (all_files (ws_store ws) D)"
  shows "\<exists>r. merge_manifests env builder tr D ws = Inr r"
  using manifest_step.step_total [OF merge_is_step [OF assms(1)] assms(2-4), of "newSnapshot builder" tr]
  by (auto simp: merge_manifests_def)


section \<open>Composing the steps\<close>

text \<open>What a sequence of steps does to a list of manifests: the live files change by \<open>effect\<close>, all files stay
  within the old ones and \<open>fresh\<close>.\<close>

definition reaches where
  "reaches env content effect fresh ws ms ws' ms' \<longleftrightarrow>
     extends env ws ws' \<and> manifests_ok env content ms' ws' \<and>
     live_files (ws_store ws') ms' = effect (live_files (ws_store ws) ms) \<and>
     all_files (ws_store ws') ms' \<subseteq> all_files (ws_store ws) ms \<union> fresh \<and> from_step env ws ws' ms ms'"

lemma step_reaches: "step_post env c effect ws ms ws' ms' \<Longrightarrow> reaches env c effect {} ws ms ws' ms'"
  by (simp add: reaches_def step_post_def)

lemma add_reaches: "add_post env c added ws ms ws' ms' \<Longrightarrow> reaches env c (\<lambda>A. A + live_of added) (data_file ` set added) ws ms ws' ms'"
  by (simp add: reaches_def add_post_def)

lemma reaches_trans:
  assumes "reaches env c f X ws ms ws1 ms1" "reaches env c g Y ws1 ms1 ws2 ms2"
  shows "reaches env c (g \<circ> f) (X \<union> Y) ws ms ws2 ms2"
proof -
  have e: "extends env ws ws1" "extends env ws1 ws2" "from_step env ws ws1 ms ms1" "from_step env ws1 ws2 ms1 ms2"
    using assms by (simp_all add: reaches_def)
  have "all_files (ws_store ws2) ms2 \<subseteq> all_files (ws_store ws) ms \<union> (X \<union> Y)" using assms unfolding reaches_def by blast
  then show ?thesis using assms extends_trans [OF e(1,2)] from_step_trans [OF e] by (simp add: reaches_def)
qed

lemma reaches_frame:
  assumes "manifests_ok env c ms ws" "extends env ws ws'"
  shows "reaches env c id {} ws ms ws' ms"
  using assms(2) manifests_ok_frame [OF assms] by (simp add: reaches_def)

lemma reaches_simps:
  "reaches env c f X ws ms ws' ms' \<Longrightarrow> extends env ws ws'"
  "reaches env c f X ws ms ws' ms' \<Longrightarrow> manifests_ok env c ms' ws'"
  by (simp_all add: reaches_def)

lemma reaches_unpartitioned:
  "reaches env c f X ws ms ws' ms' \<Longrightarrow> unpartitioned (all_files (ws_store ws) ms) \<Longrightarrow> unpartitioned X \<Longrightarrow>
     unpartitioned (all_files (ws_store ws') ms')"
  unfolding reaches_def unpartitioned_def by blast

text \<open>The new entries and the effect of a commit on the files of a table.\<close>

definition hash_entries :: "entry_hash \<Rightarrow> IcebergManifestEntry list" where
  "hash_entries ht = concat (map snd ht)"

definition commit_effect :: "IcebergSnapshotBuilder \<Rightarrow> entry_hash \<Rightarrow> DataFile multiset \<Rightarrow> DataFile multiset" where
  "commit_effect b ht A = filter_mset (keeps (removedEntries b) (removeAllEntries b)) (A + live_of (hash_entries ht))"

lemma hash_seq_entries:
  assumes "order_ok env" "distinct (map fst ht)"
  shows "mset (hash_entries (hash_seq env ht)) = mset (hash_entries ht)"
proof -
  have "mset (hash_entries kt) = (\<Sum>e\<in>#mset kt. mset (snd e))" for kt
    by (induction kt) (simp_all add: hash_entries_def)
  then show ?thesis using hash_seq_mset [OF assms] by simp
qed

lemma live_of_mset: "mset es = mset fs \<Longrightarrow> live_of es = live_of fs"
  by (simp add: live_of_def)

lemma build_manifests_post:
  assumes ord: "order_ok env" "distinct (map fst (dataEntries b))" "distinct (map fst (positionalDeleteEntries b))"
    and ok: "state_ok env ws" "manifests_ok env DATA_M D ws" "manifests_ok env DELETES_M E ws"
    and r: "build_manifests env b tr D E ws = Inr (changed, D', E', ws')"
  shows "\<exists>X Y. reaches env DATA_M (commit_effect b (dataEntries b)) X ws D ws' D' \<and>
    reaches env DELETES_M (commit_effect b (positionalDeleteEntries b)) Y ws E ws' E' \<and>
    (\<not> changed \<longrightarrow>
       live_files (ws_store ws') D' = live_files (ws_store ws) D \<and> live_files (ws_store ws') E' = live_files (ws_store ws) E)"
proof -
  let ?eff = "filter_mset (keeps (removedEntries b) (removeAllEntries b))"
  let ?de = "hash_entries (hash_seq env (dataEntries b))" and ?pe = "hash_entries (hash_seq env (positionalDeleteEntries b))"
  define added where "added \<longleftrightarrow> dataEntries b \<noteq> [] \<or> positionalDeleteEntries b \<noteq> []"
  note r = r [unfolded build_manifests_def Let_def, folded added_def]
  obtain b1 D1 E1 ws1 where r1: "drop_deleted env b tr D E ws = Inr (b1, D1, E1, ws1)"
    using r by (auto simp: result_bind_Inr_iff)
  obtain D2 ws2 where r2: "add_new_manifests env (newSnapshot b) tr DATA_M (hash_seq env (dataEntries b)) D1 ws1 = Inr (D2, ws2)"
    using r r1 by (auto simp: result_bind_Inr_iff)
  obtain E2 ws3 where r3: "add_new_manifests env (newSnapshot b) tr DELETES_M (hash_seq env (positionalDeleteEntries b)) E1 ws2 = Inr (E2, ws3)"
    using r r1 r2 by (auto simp: result_bind_Inr_iff)
  obtain b4 D4 ws4 where r4: "remove_files env b tr D2 E2 ws3 = Inr (b4, D4, E', ws4)"
    and r5': "\<exists>b5. merge_manifests env b tr D4 ws4 = Inr (b5, D', ws') \<and> changed = (b1 \<or> added \<or> b4 \<or> b5)"
    using r r1 r2 r3 by (auto simp: result_bind_Inr_iff)
  obtain b5 where r5: "merge_manifests env b tr D4 ws4 = Inr (b5, D', ws')" "changed = (b1 \<or> added \<or> b4 \<or> b5)" using r5' by blast
  note p1 = drop_deleted_post [OF ok r1]
  note d1 = step_reaches [OF p1(1)] and e1 = step_reaches [OF p1(2)]
  note s1 = state_ok_extends [OF ok(1) reaches_simps(1) [OF d1]]
  have d2: "reaches env DATA_M (\<lambda>A. A + live_of ?de) (data_file ` set ?de) ws1 D1 ws2 D2"
    using add_reaches [OF add_new_manifests_post [OF s1 reaches_simps(2) [OF d1] r2]] by (simp add: hash_entries_def)
  note s2 = state_ok_extends [OF s1 reaches_simps(1) [OF d2]]
  note e2 = reaches_frame [OF reaches_simps(2) [OF e1] reaches_simps(1) [OF d2]]
  have e3: "reaches env DELETES_M (\<lambda>A. A + live_of ?pe) (data_file ` set ?pe) ws2 E1 ws3 E2"
    using add_reaches [OF add_new_manifests_post [OF s2 reaches_simps(2) [OF e2] r3]] by (simp add: hash_entries_def)
  note d3 = reaches_frame [OF reaches_simps(2) [OF d2] reaches_simps(1) [OF e3]]
  note s3 = state_ok_extends [OF s2 reaches_simps(1) [OF e3]]
  note p4 = remove_files_post [OF s3 reaches_simps(2) [OF d3] reaches_simps(2) [OF e3] r4]
  note d4 = step_reaches [OF p4(1)] and e4 = step_reaches [OF p4(2)]
  note s4 = state_ok_extends [OF s3 reaches_simps(1) [OF d4]]
  note d5 = step_reaches [OF merge_manifests_post [OF ord(1) s4 reaches_simps(2) [OF d4] r5(1)]]
  note e5 = reaches_frame [OF reaches_simps(2) [OF e4] reaches_simps(1) [OF d5]]
  have c1: "commit_effect b (dataEntries b) = id \<circ> (?eff \<circ> (id \<circ> ((\<lambda>A. A + live_of ?de) \<circ> id)))"
    using live_of_mset [OF hash_seq_entries [OF ord(1,2)]] by (simp add: fun_eq_iff commit_effect_def)
  have c2: "commit_effect b (positionalDeleteEntries b) = id \<circ> (?eff \<circ> ((\<lambda>A. A + live_of ?pe) \<circ> (id \<circ> id)))"
    using live_of_mset [OF hash_seq_entries [OF ord(1,3)]] by (simp add: fun_eq_iff commit_effect_def)
  note D = reaches_trans [OF reaches_trans [OF reaches_trans [OF reaches_trans [OF d1 d2] d3] d4] d5, folded c1]
  note E = reaches_trans [OF reaches_trans [OF reaches_trans [OF reaches_trans [OF e1 e2] e3] e4] e5, folded c2]
  have "live_files (ws_store ws') D' = live_files (ws_store ws) D \<and> live_files (ws_store ws') E' = live_files (ws_store ws) E"
    if "\<not> changed"
  proof -
    have "D4 = D2" "E' = E2" "ws4 = ws3" "dataEntries b = []" "positionalDeleteEntries b = []"
      using p4(3) r5(2) that by (auto simp: added_def)
    moreover have "live_of ?de = {#}" "live_of ?pe = {#}"
      using live_of_mset [OF hash_seq_entries [OF ord(1,2)]] live_of_mset [OF hash_seq_entries [OF ord(1,3)]] calculation
      by (simp_all add: hash_entries_def)
    ultimately show ?thesis using d1 d2 d3 d5 e1 e2 e3 e5 by (simp add: reaches_def)
  qed
  then show ?thesis using D E by blast
qed


lemma build_manifests_total:
  assumes ord: "order_ok env" "distinct (map fst (dataEntries b))" "distinct (map fst (positionalDeleteEntries b))"
    and ok: "state_ok env ws" "manifests_ok env DATA_M D ws" "manifests_ok env DELETES_M E ws"
    and up: "unpartitioned (all_files (ws_store ws) D)" "unpartitioned (all_files (ws_store ws) E)"
      "unpartitioned (data_file ` set (hash_entries (dataEntries b)))" "unpartitioned (data_file ` set (hash_entries (positionalDeleteEntries b)))"
    and base: "baseSnapshot b = None \<longrightarrow> D = [] \<and> E = []"
  shows "\<exists>changed D' E' ws'. build_manifests env b tr D E ws = Inr (changed, D', E', ws')"
proof -
  let ?de = "hash_entries (hash_seq env (dataEntries b))" and ?pe = "hash_entries (hash_seq env (positionalDeleteEntries b))"
  have set: "set ?de = set (hash_entries (dataEntries b))" "set ?pe = set (hash_entries (positionalDeleteEntries b))"
    using hash_seq_entries [OF ord(1,2)] hash_seq_entries [OF ord(1,3)] by (metis set_mset_mset)+
  obtain b1 D1 E1 ws1 where r1: "drop_deleted env b tr D E ws = Inr (b1, D1, E1, ws1)"
    using drop_deleted_total [OF ok up(1,2) base] by (metis prod.collapse)
  note p1 = drop_deleted_post [OF ok r1]
  note d1 = step_reaches [OF p1(1)] and e1 = step_reaches [OF p1(2)]
  note s1 = state_ok_extends [OF ok(1) reaches_simps(1) [OF d1]]
  obtain D2 ws2 where r2: "add_new_manifests env (newSnapshot b) tr DATA_M (hash_seq env (dataEntries b)) D1 ws1 = Inr (D2, ws2)"
    using add_new_manifests_total [OF s1, folded hash_entries_def] up(3) set(1) by metis
  have d2: "reaches env DATA_M (\<lambda>A. A + live_of ?de) (data_file ` set ?de) ws1 D1 ws2 D2"
    using add_reaches [OF add_new_manifests_post [OF s1 reaches_simps(2) [OF d1] r2]] by (simp add: hash_entries_def)
  note s2 = state_ok_extends [OF s1 reaches_simps(1) [OF d2]]
  note e2 = reaches_frame [OF reaches_simps(2) [OF e1] reaches_simps(1) [OF d2]]
  obtain E2 ws3 where r3: "add_new_manifests env (newSnapshot b) tr DELETES_M (hash_seq env (positionalDeleteEntries b)) E1 ws2 = Inr (E2, ws3)"
    using add_new_manifests_total [OF s2, folded hash_entries_def] up(4) set(2) by metis
  have e3: "reaches env DELETES_M (\<lambda>A. A + live_of ?pe) (data_file ` set ?pe) ws2 E1 ws3 E2"
    using add_reaches [OF add_new_manifests_post [OF s2 reaches_simps(2) [OF e2] r3]] by (simp add: hash_entries_def)
  note d3 = reaches_frame [OF reaches_simps(2) [OF d2] reaches_simps(1) [OF e3]]
  note s3 = state_ok_extends [OF s2 reaches_simps(1) [OF e3]]
  have none: "unpartitioned {}" by (simp add: unpartitioned_def)
  have u: "unpartitioned (all_files (ws_store ws3) D2)" "unpartitioned (all_files (ws_store ws3) E2)"
    using reaches_unpartitioned [OF d3 reaches_unpartitioned [OF d2 reaches_unpartitioned [OF d1 up(1) none]]]
      reaches_unpartitioned [OF e3 reaches_unpartitioned [OF e2 reaches_unpartitioned [OF e1 up(2) none]]] up(3,4) set none by simp_all
  obtain b4 D4 E4 ws4 where r4: "remove_files env b tr D2 E2 ws3 = Inr (b4, D4, E4, ws4)"
    using remove_files_total [OF s3 reaches_simps(2) [OF d3] reaches_simps(2) [OF e3] u] by (metis prod.collapse)
  note d4 = step_reaches [OF remove_files_post(1) [OF s3 reaches_simps(2) [OF d3] reaches_simps(2) [OF e3] r4]]
  note s4 = state_ok_extends [OF s3 reaches_simps(1) [OF d4]]
  obtain b5 D5 ws5 where r5: "merge_manifests env b tr D4 ws4 = Inr (b5, D5, ws5)"
    using merge_manifests_total [OF ord(1) s4 reaches_simps(2) [OF d4] reaches_unpartitioned [OF d4 u(1) none]] by (metis prod.collapse)
  show ?thesis using r1 r2 r3 r4 r5 unfolding build_manifests_def Let_def by (simp only: result_bind_simps prod.case) blast
qed


section \<open>The files of a snapshot\<close>

definition snapshot_manifests :: "object_store \<Rightarrow> IcebergSnapshot option \<Rightarrow> IcebergManifestContentType \<Rightarrow> IcebergManifest list" where
  "snapshot_manifests st s content =
     (case s of None \<Rightarrow> [] | Some s \<Rightarrow> filter (\<lambda>m. m_content m = content) (manifests_of st s))"

definition table_files :: "object_store \<Rightarrow> IcebergSnapshot option \<Rightarrow> IcebergManifestContentType \<Rightarrow> DataFile multiset" where
  "table_files st s content = live_of (concat (map (entries_of st) (snapshot_manifests st s content)))"

definition list_uri :: "manifest_env \<Rightarrow> IcebergSnapshotBuilder \<Rightarrow> string" where
  "list_uri env b = GenerateRemoteManifestListPath (snapshot_id (newSnapshot b)) (metadataLocation env) (snapshotUUID env) 1 []"

text \<open>The base snapshot can be read, no path the commit generates is in use, and the hash tables have one
  entry per partition spec.\<close>

definition readable :: "object_store \<Rightarrow> IcebergSnapshot option \<Rightarrow> bool" where
  "readable st s \<longleftrightarrow>
     (case s of None \<Rightarrow> True | Some s \<Rightarrow>
        manifest_list_files st (manifest_list s) \<noteq> None \<and>
        (\<forall>m \<in> set (manifests_of st s). manifest_files st (manifest_path m) \<noteq> None))"

definition fresh_paths :: "manifest_env \<Rightarrow> IcebergSnapshotBuilder \<Rightarrow> write_state \<Rightarrow> bool" where
  "fresh_paths env b ws \<longleftrightarrow>
     (\<forall>i. manifest_uri env i \<noteq> list_uri env b \<and> manifest_uri env i \<notin> set (PendingUploads ws) \<and>
        manifest_files (ws_store ws) (manifest_uri env i) = None) \<and>
     list_uri env b \<notin> set (PendingUploads ws) \<and> manifest_list_files (ws_store ws) (list_uri env b) = None"

definition commit_ok :: "manifest_env \<Rightarrow> IcebergSnapshotBuilder \<Rightarrow> write_state \<Rightarrow> bool" where
  "commit_ok env b ws \<longleftrightarrow> readable (ws_store ws) (baseSnapshot b) \<and> fresh_paths env b ws \<and> order_ok env \<and>
     distinct (map fst (dataEntries b)) \<and> distinct (map fst (positionalDeleteEntries b))"

lemma fetch_readable:
  assumes "readable st s"
  shows "FetchManifestsFromSnapshot st s (Some IsManifestOfFileContentAdd) = Inr (snapshot_manifests st s DATA_M)"
    "FetchManifestsFromSnapshot st s (Some IsManifestOfFileContentDeletes) = Inr (snapshot_manifests st s DELETES_M)"
proof -
  have k: "keep_if (Some IsManifestOfFileContentAdd) = (\<lambda>m. m_content m = DATA_M)"
    "keep_if (Some IsManifestOfFileContentDeletes) = (\<lambda>m. m_content m = DELETES_M)"
    by (simp_all add: fun_eq_iff keep_if_def IsManifestOfFileContentAdd_def IsManifestOfFileContentDeletes_def)
  have r: "ReadIcebergManifests st (manifest_list t) = Inr (manifests_of st t)" if "s = Some t" for t
    using assms that by (auto simp: readable_def ReadIcebergManifests_def manifests_of_def)
  show "FetchManifestsFromSnapshot st s (Some IsManifestOfFileContentAdd) = Inr (snapshot_manifests st s DATA_M)"
    "FetchManifestsFromSnapshot st s (Some IsManifestOfFileContentDeletes) = Inr (snapshot_manifests st s DELETES_M)"
    using r by (simp_all add: FetchManifestsFromSnapshot_def snapshot_manifests_def k split: option.split)
qed

lemma alloc_list_spec:
  assumes "alloc_list ms ws = (ps, ws')"
  shows "map snd ps = ms" "ws' = ws\<lparr>next_address := next_address ws + length ms\<rparr>"
    "fst ` set ps \<subseteq> {next_address ws..<next_address ws + length ms}" "distinct (map fst ps)" "length ps = length ms"
  using assms by (auto simp: alloc_list_def dest: set_zip_leftD)

lemma live_files_alloc: "live_files st ps = live_of (concat (map (entries_of st) (map snd ps)))"
  by (simp add: live_files_def all_entries_def comp_def)

lemma all_files_alloc: "all_files st ps = data_file ` set (concat (map (entries_of st) (map snd ps)))"
  by (simp add: all_files_def all_entries_def comp_def)

lemma existing_ok:
  assumes ok: "readable (ws_store ws) (baseSnapshot b)" "fresh_paths env b ws"
    and a: "alloc_list (snapshot_manifests (ws_store ws) (baseSnapshot b) c) wsa = (ps, wsb)"
    and store: "ws_store wsa = ws_store ws"
  shows "manifests_ok env c ps wsb"
proof -
  note s = alloc_list_spec [OF a]
  have mem: "snd m \<in> set (snapshot_manifests (ws_store ws) (baseSnapshot b) c)" if "m \<in> set ps" for m
    using that s(1) by (metis image_eqI list.set_map)
  have "manifest_files (ws_store ws) (manifest_path m) \<noteq> None \<and> m_content m = c \<and> (\<forall>i. manifest_path m \<noteq> manifest_uri env i)"
    if "m \<in> set (snapshot_manifests (ws_store ws) (baseSnapshot b) c)" for m
    using ok that by (auto simp: snapshot_manifests_def readable_def fresh_paths_def split: option.splits)
  moreover have "fst m < next_address wsb" if "m \<in> set ps" for m using imageI [OF that, of fst] s(2,3) by auto
  ultimately show ?thesis using mem s(2,4) store by (simp add: manifests_ok_def)
qed

text \<open>Everything before the publication, as one step from the base snapshot.\<close>

lemma finalize_cases:
  assumes ok: "commit_ok env b ws" and r: "FinalizeNewSnapshot env b sid tr ws = Inr (r, ws')"
  obtains D0 E0 ws0 changed D E ws1 X Y where
    "map snd D0 = snapshot_manifests (ws_store ws) (baseSnapshot b) DATA_M"
    "map snd E0 = snapshot_manifests (ws_store ws) (baseSnapshot b) DELETES_M"
    "fst ` set (D0 @ E0) \<subseteq> {..<next_address ws0}" "fst ` set D0 \<inter> fst ` set E0 = {}"
    "ws_store ws0 = ws_store ws" "PendingUploads ws0 = PendingUploads ws" "InProgressFiles ws0 = InProgressFiles ws" "manifestIndex ws0 = 0"
    "reaches env DATA_M (commit_effect b (dataEntries b)) X ws0 D0 ws1 D"
    "reaches env DELETES_M (commit_effect b (positionalDeleteEntries b)) Y ws0 E0 ws1 E"
    "\<not> changed \<longrightarrow> live_files (ws_store ws1) D = live_files (ws_store ws0) D0 \<and>
       live_files (ws_store ws1) E = live_files (ws_store ws0) E0"
    "(if \<not> (regenerateSchema b \<or> regeneratePartitionSpec b \<or> changed) then Inr (None, ws1)
      else publish_snapshot env b sid D0 E0 D E ws1) = Inr (r, ws')"
proof -
  let ?st = "ws_store ws" and ?base = "baseSnapshot b" and ?ws = "ws\<lparr>manifestIndex := 0\<rparr>"
  have ok': "readable ?st ?base" "fresh_paths env b ws" "order_ok env"
    "distinct (map fst (dataEntries b))" "distinct (map fst (positionalDeleteEntries b))"
    using ok by (simp_all add: commit_ok_def)
  obtain D0 wsa where a1: "alloc_list (snapshot_manifests ?st ?base DATA_M) ?ws = (D0, wsa)" by (metis surj_pair)
  obtain E0 ws0 where a2: "alloc_list (snapshot_manifests ?st ?base DELETES_M) wsa = (E0, ws0)" by (metis surj_pair)
  note s1 = alloc_list_spec [OF a1] and s2 = alloc_list_spec [OF a2]
  have m: "manifests_ok env DATA_M D0 wsa" using existing_ok [OF ok'(1,2) a1] by simp
  have E: "manifests_ok env DELETES_M E0 ws0" using existing_ok [OF ok'(1,2) a2] s1(2) by simp
  have D: "manifests_ok env DATA_M D0 ws0" using m s2(2) by (auto simp: manifests_ok_def)
  have st: "state_ok env ws0" using ok'(2) s1(2) s2(2) by (simp add: state_ok_def fresh_paths_def)
  have eq: "result_bind (build_manifests env b tr D0 E0 ws0) (\<lambda>(changed, D, E, ws1).
      if \<not> ((regenerateSchema b \<or> regeneratePartitionSpec b) \<or> changed) then Inr (None, ws1)
      else publish_snapshot env b sid D0 E0 D E ws1) = Inr (r, ws')"
    using r a1 a2 fetch_readable [OF ok'(1)] by (simp add: FinalizeNewSnapshot_def Let_def)
  obtain changed F G ws1 where bm: "build_manifests env b tr D0 E0 ws0 = Inr (changed, F, G, ws1)"
    using eq by (cases "build_manifests env b tr D0 E0 ws0") auto
  obtain X Y where p: "reaches env DATA_M (commit_effect b (dataEntries b)) X ws0 D0 ws1 F"
    "reaches env DELETES_M (commit_effect b (positionalDeleteEntries b)) Y ws0 E0 ws1 G"
    "\<not> changed \<longrightarrow> live_files (ws_store ws1) F = live_files (ws_store ws0) D0 \<and> live_files (ws_store ws1) G = live_files (ws_store ws0) E0"
    using build_manifests_post [OF ok'(3-5) st D E bm] by blast
  have "fst ` set (D0 @ E0) \<subseteq> {..<next_address ws0}" using D E by (auto simp: manifests_ok_def)
  moreover have "fst ` set D0 \<inter> fst ` set E0 = {}" using s1(2,3) s2(3) by fastforce
  ultimately show thesis
    using that [of D0 E0 ws0 X ws1 F Y G changed] s1(1,2) s2(1,2) p eq bm by simp
qed


section \<open>Publishing\<close>

lemma DeleteInProgressManifests_eq:
  "DeleteInProgressManifests ms ws =
     ws\<lparr>InProgressFiles := filter (\<lambda>(p, auto). p \<notin> (\<lambda>m. manifest_path (snd m)) ` set ms) (InProgressFiles ws)\<rparr>"
proof (induction ms arbitrary: ws)
  case Nil
  then show ?case by (simp add: DeleteInProgressManifests_def)
next
  case (Cons m ms)
  have "DeleteInProgressManifests (m # ms) ws = DeleteInProgressManifests ms (drop_in_progress_record (manifest_path (snd m)) ws)"
    by (simp add: DeleteInProgressManifests_def)
  then show ?case by (simp add: Cons.IH drop_in_progress_record_def case_prod_unfold conj_commute)
qed

definition persisted :: "manifest_ptr list \<Rightarrow> manifest_ptr list \<Rightarrow> manifest_ptr list \<Rightarrow> manifest_ptr list \<Rightarrow> manifest_ptr list" where
  "persisted D0 E0 D E = list_difference_ptr D D0 @ list_difference_ptr E E0"

lemma list_uri_fold:
  "GenerateRemoteManifestListPath (snapshot_id (newSnapshot b)) (metadataLocation env) (snapshotUUID env) (Suc 0) [] = list_uri env b"
  by (simp add: list_uri_def)

lemma publish_cases:
  assumes "publish_snapshot env b sid D0 E0 D E ws = Inr (r, ws')"
  shows "\<exists>s. r = Some s \<and> manifest_list s = list_uri env b \<and> snapshot_id s = snapshot_id (newSnapshot b) \<and>
    ws_store ws' = (ws_store ws)\<lparr>manifest_list_files := (manifest_list_files (ws_store ws))(list_uri env b \<mapsto> map snd (D @ E))\<rparr> \<and>
    manifestIndex ws' = manifestIndex ws \<and>
    InProgressFiles ws' =
      filter (\<lambda>(p, auto). p \<notin> (\<lambda>m. manifest_path (snd m)) ` set (persisted D0 E0 D E)) (InProgressFiles ws) @ [(list_uri env b, True)]"
proof -
  obtain new where n: "SetSnapshotOperation (newSnapshot b) (operation b) = Inr new"
    using assms by (auto simp: publish_snapshot_def Let_def result_bind_Inr_iff)
  have i: "snapshot_id new = snapshot_id (newSnapshot b)"
    using n by (auto simp: SetSnapshotOperation_def split: SnapshotOperation.splits)
  show ?thesis
    using assms n by (auto simp: publish_snapshot_def Let_def result_bind_Inr_iff i list_uri_fold DeleteInProgressManifests_eq
        persisted_def [symmetric] UploadIcebergManifestListToURI_def ScheduleFileCopyToS3WithCleanup_def ScheduleFileUpload_def
        split: if_splits)
qed

lemma publish_total:
  assumes "operation b \<noteq> SNAPSHOT_OPERATION_INVALID" "list_uri env b \<notin> set (PendingUploads ws)"
  shows "\<exists>r ws'. publish_snapshot env b sid D0 E0 D E ws = Inr (r, ws')"
proof -
  obtain new where n: "SetSnapshotOperation (newSnapshot b) (operation b) = Inr new"
    using assms(1) by (cases "operation b") (simp_all add: SetSnapshotOperation_def)
  have i: "snapshot_id new = snapshot_id (newSnapshot b)"
    using n by (auto simp: SetSnapshotOperation_def split: SnapshotOperation.splits)
  show ?thesis
    using n assms(2) by (simp add: publish_snapshot_def Let_def i list_uri_fold DeleteInProgressManifests_eq
        UploadIcebergManifestListToURI_def ScheduleFileCopyToS3WithCleanup_def ScheduleFileUpload_def)
qed

definition new_entries :: "IcebergSnapshotBuilder \<Rightarrow> IcebergManifestContentType \<Rightarrow> entry_hash" where
  "new_entries b content =
     (case content of ICEBERG_MANIFEST_FILE_CONTENT_DATA \<Rightarrow> dataEntries b
      | ICEBERG_MANIFEST_FILE_CONTENT_DELETES \<Rightarrow> positionalDeleteEntries b)"

lemma content_filter:
  assumes "manifests_ok env DATA_M D ws" "manifests_ok env DELETES_M E ws"
  shows "filter (\<lambda>m. m_content m = DATA_M) (map snd (D @ E)) = map snd D"
    "filter (\<lambda>m. m_content m = DELETES_M) (map snd (D @ E)) = map snd E"
  using assms by (auto simp: manifests_ok_def filter_map comp_def filter_empty_conv intro!: arg_cong [where f = "map snd"])

lemma commit_store:
  assumes "fresh_paths env b ws" "extends env ws0 ws1" "ws_store ws0 = ws_store ws"
  shows "manifest_files (ws_store ws) p \<noteq> None \<Longrightarrow> manifest_files (ws_store ws1) p = manifest_files (ws_store ws) p"
    "manifest_list_files (ws_store ws1) = manifest_list_files (ws_store ws)"
proof -
  show "manifest_list_files (ws_store ws1) = manifest_list_files (ws_store ws)" using assms(2,3) by (simp add: extends_def)
  assume "manifest_files (ws_store ws) p \<noteq> None"
  then have "p \<notin> set (new_uris env ws0 ws1)" using assms(1) by (auto simp: fresh_paths_def new_uris_def)
  then show "manifest_files (ws_store ws1) p = manifest_files (ws_store ws) p" using assms(2,3) by (simp add: extends_def)
qed

text \<open>A published snapshot reads back as the lists it was made of.\<close>

lemma published_files:
  assumes "manifests_ok env DATA_M D ws1" "manifests_ok env DELETES_M E ws1" "manifest_list s = l"
    "ws_store ws' = (ws_store ws1)\<lparr>manifest_list_files := (manifest_list_files (ws_store ws1))(l \<mapsto> map snd (D @ E))\<rparr>"
  shows "table_files (ws_store ws') (Some s) DATA_M = live_files (ws_store ws1) D"
    "table_files (ws_store ws') (Some s) DELETES_M = live_files (ws_store ws1) E"
    "readable (ws_store ws') (Some s)"
proof -
  have m: "manifests_of (ws_store ws') s = map snd (D @ E)" using assms(3,4) by (simp add: manifests_of_def)
  have e: "entries_of (ws_store ws') = entries_of (ws_store ws1)" using assms(4) by (simp add: entries_of_def fun_eq_iff)
  show "table_files (ws_store ws') (Some s) DATA_M = live_files (ws_store ws1) D"
    "table_files (ws_store ws') (Some s) DELETES_M = live_files (ws_store ws1) E"
    by (simp_all add: table_files_def snapshot_manifests_def m content_filter [OF assms(1,2)] live_files_alloc e del: map_append)
  have "manifest_files (ws_store ws1) (manifest_path m) \<noteq> None" if "m \<in> set (map snd (D @ E))" for m
    using assms(1,2) that by (auto simp: manifests_ok_def)
  then show "readable (ws_store ws') (Some s)" using m assms(3,4) by (simp add: readable_def del: map_append)
qed

lemma finalize_files:
  assumes ok: "commit_ok env b ws" and r: "FinalizeNewSnapshot env b sid tr ws = Inr (r, ws')"
  shows "(case r of None \<Rightarrow> table_files (ws_store ws) (baseSnapshot b) content | Some s \<Rightarrow> table_files (ws_store ws') (Some s) content) =
      commit_effect b (new_entries b content) (table_files (ws_store ws) (baseSnapshot b) content)"
    "r \<noteq> None \<Longrightarrow> readable (ws_store ws') r"
proof -
  from finalize_cases [OF ok r] obtain D0 E0 ws0 changed D E ws1 X Y where
    m0: "map snd D0 = snapshot_manifests (ws_store ws) (baseSnapshot b) DATA_M"
      "map snd E0 = snapshot_manifests (ws_store ws) (baseSnapshot b) DELETES_M"
    and st: "ws_store ws0 = ws_store ws"
    and p: "reaches env DATA_M (commit_effect b (dataEntries b)) X ws0 D0 ws1 D"
      "reaches env DELETES_M (commit_effect b (positionalDeleteEntries b)) Y ws0 E0 ws1 E"
    and same: "\<not> changed \<longrightarrow> live_files (ws_store ws1) D = live_files (ws_store ws0) D0 \<and>
       live_files (ws_store ws1) E = live_files (ws_store ws0) E0"
    and fin: "(if \<not> (regenerateSchema b \<or> regeneratePartitionSpec b \<or> changed) then Inr (None, ws1)
      else publish_snapshot env b sid D0 E0 D E ws1) = Inr (r, ws')"
    by metis
  have base: "live_files (ws_store ws0) D0 = table_files (ws_store ws) (baseSnapshot b) DATA_M"
    "live_files (ws_store ws0) E0 = table_files (ws_store ws) (baseSnapshot b) DELETES_M"
    by (simp_all add: live_files_alloc m0 st table_files_def)
  have live: "live_files (ws_store ws1) D = commit_effect b (new_entries b DATA_M) (table_files (ws_store ws) (baseSnapshot b) DATA_M)"
    "live_files (ws_store ws1) E = commit_effect b (new_entries b DELETES_M) (table_files (ws_store ws) (baseSnapshot b) DELETES_M)"
    using p base by (simp_all add: reaches_def new_entries_def)
  note ok1 = reaches_simps(2) [OF p(1)] reaches_simps(2) [OF p(2)]
  have "table_files (ws_store ws') r DATA_M = live_files (ws_store ws1) D \<and>
    table_files (ws_store ws') r DELETES_M = live_files (ws_store ws1) E \<and> readable (ws_store ws') r" if "r \<noteq> None"
  proof -
    have "publish_snapshot env b sid D0 E0 D E ws1 = Inr (r, ws')" using fin that by (auto split: if_splits)
    from publish_cases [OF this] obtain s where s: "r = Some s" "manifest_list s = list_uri env b"
      "ws_store ws' = (ws_store ws1)\<lparr>manifest_list_files := (manifest_list_files (ws_store ws1))(list_uri env b \<mapsto> map snd (D @ E))\<rparr>"
      by blast
    show ?thesis unfolding s(1) using published_files [OF ok1 s(2,3)] by blast
  qed
  note some = this
  then show "r \<noteq> None \<Longrightarrow> readable (ws_store ws') r" by blast
  show "(case r of None \<Rightarrow> table_files (ws_store ws) (baseSnapshot b) content | Some s \<Rightarrow> table_files (ws_store ws') (Some s) content) =
      commit_effect b (new_entries b content) (table_files (ws_store ws) (baseSnapshot b) content)"
  proof (cases r)
    case None
    then have "\<not> changed" using fin publish_cases [of env b sid D0 E0 D E ws1 r ws'] by (auto split: if_splits)
    then show ?thesis using None same live base by (cases content) auto
  next
    case (Some s)
    then show ?thesis using some live by (cases content) simp_all
  qed
qed


lemma finalize_store:
  assumes ok: "commit_ok env b ws" and r: "FinalizeNewSnapshot env b sid tr ws = Inr (r, ws')"
  shows "manifest_files (ws_store ws) p \<noteq> None \<Longrightarrow> manifest_files (ws_store ws') p = manifest_files (ws_store ws) p"
    "manifest_list_files (ws_store ws) p \<noteq> None \<Longrightarrow> manifest_list_files (ws_store ws') p = manifest_list_files (ws_store ws) p"
proof -
  from finalize_cases [OF ok r] obtain D0 E0 ws0 changed D E ws1 X where st: "ws_store ws0 = ws_store ws"
    and p: "reaches env DATA_M (commit_effect b (dataEntries b)) X ws0 D0 ws1 D"
    and fin: "(if \<not> (regenerateSchema b \<or> regeneratePartitionSpec b \<or> changed) then Inr (None, ws1)
      else publish_snapshot env b sid D0 E0 D E ws1) = Inr (r, ws')"
    by metis
  have f: "fresh_paths env b ws" using ok by (simp add: commit_ok_def)
  have s: "manifest_files (ws_store ws') = manifest_files (ws_store ws1)"
    "manifest_list_files (ws_store ws') = manifest_list_files (ws_store ws1) \<or>
     (\<exists>ms. manifest_list_files (ws_store ws') = (manifest_list_files (ws_store ws1))(list_uri env b \<mapsto> ms))"
    using fin publish_cases [of env b sid D0 E0 D E ws1 r ws'] by (auto split: if_splits)
  note c = commit_store [OF f reaches_simps(1) [OF p] st]
  show "manifest_files (ws_store ws) p \<noteq> None \<Longrightarrow> manifest_files (ws_store ws') p = manifest_files (ws_store ws) p"
    using s(1) c(1) by simp
  show "manifest_list_files (ws_store ws) p \<noteq> None \<Longrightarrow> manifest_list_files (ws_store ws') p = manifest_list_files (ws_store ws) p"
    using s(2) c(2) f by (auto simp: fresh_paths_def)
qed

lemma finalize_keeps_snapshots:
  assumes "commit_ok env b ws" "FinalizeNewSnapshot env b sid tr ws = Inr (r, ws')" "readable (ws_store ws) s"
  shows "readable (ws_store ws') s \<and> table_files (ws_store ws') s content = table_files (ws_store ws) s content"
proof (cases s)
  case None
  then show ?thesis by (simp add: readable_def table_files_def snapshot_manifests_def)
next
  case (Some t)
  note keep = finalize_store [OF assms(1,2)]
  have l: "manifest_list_files (ws_store ws) (manifest_list t) \<noteq> None"
    and f: "\<And>m. m \<in> set (manifests_of (ws_store ws) t) \<Longrightarrow> manifest_files (ws_store ws) (manifest_path m) \<noteq> None"
    using assms(3) Some by (simp_all add: readable_def)
  have m: "manifests_of (ws_store ws') t = manifests_of (ws_store ws) t" using keep(2) [OF l] by (simp add: manifests_of_def)
  have e: "entries_of (ws_store ws') m = entries_of (ws_store ws) m" if "m \<in> set (manifests_of (ws_store ws) t)" for m
    using keep(1) [OF f [OF that]] by (simp add: entries_of_def)
  have "map (entries_of (ws_store ws')) (filter (\<lambda>m. m_content m = content) (manifests_of (ws_store ws) t)) =
    map (entries_of (ws_store ws)) (filter (\<lambda>m. m_content m = content) (manifests_of (ws_store ws) t))"
    using e by simp
  then have "table_files (ws_store ws') s content = table_files (ws_store ws) s content"
    by (simp only: table_files_def snapshot_manifests_def Some m option.case)
  moreover have "readable (ws_store ws') s" using keep l f by (simp add: readable_def Some m)
  ultimately show ?thesis by blast
qed

definition unpartitioned_table :: "IcebergSnapshotBuilder \<Rightarrow> write_state \<Rightarrow> bool" where
  "unpartitioned_table b ws \<longleftrightarrow>
     (\<forall>content. unpartitioned (data_file ` set (concat (map (entries_of (ws_store ws)) (snapshot_manifests (ws_store ws) (baseSnapshot b) content)))) \<and>
        unpartitioned (data_file ` set (hash_entries (new_entries b content))))"

lemma finalize_total:
  assumes ok: "commit_ok env b ws" and up: "unpartitioned_table b ws" and op: "operation b \<noteq> SNAPSHOT_OPERATION_INVALID"
  shows "\<exists>r ws'. FinalizeNewSnapshot env b sid tr ws = Inr (r, ws')"
proof -
  let ?st = "ws_store ws" and ?base = "baseSnapshot b" and ?ws = "ws\<lparr>manifestIndex := 0\<rparr>"
  have ok': "readable ?st ?base" "fresh_paths env b ws" "order_ok env"
    "distinct (map fst (dataEntries b))" "distinct (map fst (positionalDeleteEntries b))"
    using ok by (simp_all add: commit_ok_def)
  obtain D0 wsa where a1: "alloc_list (snapshot_manifests ?st ?base DATA_M) ?ws = (D0, wsa)" by (metis surj_pair)
  obtain E0 ws0 where a2: "alloc_list (snapshot_manifests ?st ?base DELETES_M) wsa = (E0, ws0)" by (metis surj_pair)
  note s1 = alloc_list_spec [OF a1] and s2 = alloc_list_spec [OF a2]
  have m: "manifests_ok env DATA_M D0 wsa" using existing_ok [OF ok'(1,2) a1] by simp
  have E: "manifests_ok env DELETES_M E0 ws0" using existing_ok [OF ok'(1,2) a2] s1(2) by simp
  have D: "manifests_ok env DATA_M D0 ws0" using m s2(2) by (auto simp: manifests_ok_def)
  have st: "state_ok env ws0" "ws_store ws0 = ?st" using ok'(2) s1(2) s2(2) by (simp_all add: state_ok_def fresh_paths_def)
  have u: "unpartitioned (all_files (ws_store ws0) D0)" "unpartitioned (all_files (ws_store ws0) E0)"
    using up unfolding all_files_alloc s1(1) s2(1) st(2) unpartitioned_table_def by blast+
  have u': "unpartitioned (data_file ` set (hash_entries (dataEntries b)))" "unpartitioned (data_file ` set (hash_entries (positionalDeleteEntries b)))"
  proof -
    have "unpartitioned (data_file ` set (hash_entries (new_entries b DATA_M)))" "unpartitioned (data_file ` set (hash_entries (new_entries b DELETES_M)))"
      using up unfolding unpartitioned_table_def by blast+
    then show "unpartitioned (data_file ` set (hash_entries (dataEntries b)))" "unpartitioned (data_file ` set (hash_entries (positionalDeleteEntries b)))"
      by (simp_all add: new_entries_def)
  qed
  have base: "?base = None \<longrightarrow> D0 = [] \<and> E0 = []" using s1(1) s2(1) by (auto simp: snapshot_manifests_def)
  obtain changed D' E' ws1 where bm: "build_manifests env b tr D0 E0 ws0 = Inr (changed, D', E', ws1)"
    using build_manifests_total [OF ok'(3-5) st(1) D E u u' base] by blast
  have "list_uri env b \<notin> set (PendingUploads ws1)"
  proof -
    have "extends env ws0 ws1" using build_manifests_post [OF ok'(3-5) st(1) D E bm] reaches_simps(1) by blast
    then have "PendingUploads ws1 = PendingUploads ws0 @ new_uris env ws0 ws1" by (simp add: extends_def)
    then show ?thesis using ok'(2) s1(2) s2(2) by (auto simp: fresh_paths_def new_uris_def)
  qed
  then obtain r ws' where "publish_snapshot env b sid D0 E0 D' E' ws1 = Inr (r, ws')"
    using publish_total [OF op] by blast
  then show ?thesis using a1 a2 fetch_readable [OF ok'(1)] bm by (auto simp: FinalizeNewSnapshot_def Let_def)
qed

text \<open>Which manifests written by the commit are still recorded as in progress afterwards.\<close>

lemma list_difference_step:
  assumes "from_step env ws0 ws1 D0 D" "fst ` set D0 \<subseteq> {..<next_address ws0}"
    "\<forall>m \<in> set D0. \<forall>i. manifest_path (snd m) \<noteq> manifest_uri env i" "manifest_uri env i \<in> (\<lambda>m. manifest_path (snd m)) ` set D"
  shows "manifest_uri env i \<in> (\<lambda>m. manifest_path (snd m)) ` set (list_difference_ptr D D0)"
proof -
  obtain m where m: "m \<in> set D" "manifest_path (snd m) = manifest_uri env i" using assms(4) by (metis imageE)
  have "m \<notin> set D0" using assms(3) m(2) by blast
  then have "next_address ws0 \<le> fst m" using assms(1) m(1) by (auto simp: from_step_def)
  then have "fst m \<notin> fst ` set D0" using assms(2) by force
  then show ?thesis using m by (force simp: list_difference_ptr_def)
qed

lemma finalize_in_progress:
  assumes ok: "commit_ok env b ws" and r: "FinalizeNewSnapshot env b sid tr ws = Inr (Some s, ws')" and i: "i < manifestIndex ws'"
  shows "(manifest_uri env i, False) \<in> set (InProgressFiles ws') \<longleftrightarrow>
    manifest_uri env i \<notin> manifest_path ` set (manifests_of (ws_store ws') s)"
proof -
  from finalize_cases [OF ok r] obtain D0 E0 ws0 changed D E ws1 X Y where
    m0: "map snd D0 = snapshot_manifests (ws_store ws) (baseSnapshot b) DATA_M"
      "map snd E0 = snapshot_manifests (ws_store ws) (baseSnapshot b) DELETES_M"
    and adr: "fst ` set (D0 @ E0) \<subseteq> {..<next_address ws0}"
    and st: "ws_store ws0 = ws_store ws" "manifestIndex ws0 = 0"
    and p: "reaches env DATA_M (commit_effect b (dataEntries b)) X ws0 D0 ws1 D"
      "reaches env DELETES_M (commit_effect b (positionalDeleteEntries b)) Y ws0 E0 ws1 E"
    and fin: "(if \<not> (regenerateSchema b \<or> regeneratePartitionSpec b \<or> changed) then Inr (None, ws1)
      else publish_snapshot env b sid D0 E0 D E ws1) = Inr (Some s, ws')"
    by metis
  have pub: "publish_snapshot env b sid D0 E0 D E ws1 = Inr (Some s, ws')" using fin by (auto split: if_splits)
  have f: "fresh_paths env b ws" "readable (ws_store ws) (baseSnapshot b)" using ok by (simp_all add: commit_ok_def)
  let ?P = "\<lambda>ms. (\<lambda>m. manifest_path (snd m)) ` set ms"
  have ml: "manifests_of (ws_store ws') s = map snd (D @ E)"
    and idx: "manifestIndex ws' = manifestIndex ws1"
    and ip: "InProgressFiles ws' = filter (\<lambda>(p, auto). p \<notin> ?P (persisted D0 E0 D E)) (InProgressFiles ws1) @ [(list_uri env b, True)]"
    using publish_cases [OF pub] by (auto simp: manifests_of_def)
  have old: "\<forall>m \<in> set ms0. \<forall>i. manifest_path (snd m) \<noteq> manifest_uri env i"
    if "map snd ms0 = snapshot_manifests (ws_store ws) (baseSnapshot b) c" for ms0 c
  proof (intro ballI allI)
    fix m i assume "m \<in> set ms0"
    then have "snd m \<in> set (snapshot_manifests (ws_store ws) (baseSnapshot b) c)" using that by (metis image_eqI list.set_map)
    then have "manifest_files (ws_store ws) (manifest_path (snd m)) \<noteq> None"
      using f(2) by (auto simp: snapshot_manifests_def readable_def split: option.splits)
    then show "manifest_path (snd m) \<noteq> manifest_uri env i" using f(1) by (auto simp: fresh_paths_def)
  qed
  have ext: "extends env ws0 ws1" "from_step env ws0 ws1 D0 D" "from_step env ws0 ws1 E0 E" using p by (simp_all add: reaches_def)
  have ini: "(manifest_uri env i, False) \<in> set (InProgressFiles ws1)"
    using ext(1) i idx st(2) by (auto simp: extends_def new_uris_def)
  have sub: "?P (persisted D0 E0 D E) \<subseteq> ?P (D @ E)" by (auto simp: persisted_def list_difference_ptr_def)
  have "manifest_uri env i \<in> ?P (D @ E) \<Longrightarrow> manifest_uri env i \<in> ?P (persisted D0 E0 D E)"
    using list_difference_step [OF ext(2) _ old [OF m0(1)], of i] list_difference_step [OF ext(3) _ old [OF m0(2)], of i] adr
    by (auto simp: persisted_def)
  then have "(manifest_uri env i, False) \<in> set (InProgressFiles ws') \<longleftrightarrow> manifest_uri env i \<notin> ?P (D @ E)"
    using ini sub by (auto simp: ip)
  then show ?thesis by (simp add: ml image_image image_Un del: map_append)
qed


section \<open>A sample commit\<close>

text \<open>On top of the second snapshot of the sample store, add the file \<open>d9\<close> and remove the file \<open>d2\<close>.\<close>

definition sample_builder :: IcebergSnapshotBuilder where
  "sample_builder =
     \<lparr>baseSnapshot = Some (sample_snapshot 2 ''l2''), newSnapshot = sample_snapshot 3 [],
      dataEntries = [(0, [sample_entry ICEBERG_MANIFEST_ENTRY_STATUS_ADDED ''d9''])], positionalDeleteEntries = [],
      removedEntries = [sample_entry ICEBERG_MANIFEST_ENTRY_STATUS_DELETED ''d2''], removeAllEntries = False,
      applyManifestCompaction = False, regenerateSchema = False, regeneratePartitionSpec = False,
      b_partitionSpecs = [], b_defaultSpecId = 0, createTable = False, expireOldSnapshots = False,
      b_schema = None, b_schemaId = 0, operation = SNAPSHOT_OPERATION_OVERWRITE\<rparr>"

lemma sample_list_uri: "list_uri sample_env sample_builder = ''s3://b/metadata/snap-3-1-u.avro''"
  by code_simp

lemma sample_uri: "manifest_uri sample_env i \<noteq> ''s3://b/metadata/snap-3-1-u.avro''"
  by (simp add: manifest_uri_def GenerateRemoteManifestPath_def sample_env_def)

lemma sample_commit_ok: "commit_ok sample_env sample_builder sample_state"
proof -
  have "readable (ws_store sample_state) (baseSnapshot sample_builder)" by code_simp
  moreover have "fresh_paths sample_env sample_builder sample_state"
    using manifest_uri_long by (simp add: fresh_paths_def sample_list_uri sample_uri sample_state_def sample_store_def)
  ultimately show ?thesis using sample_ok(4) by (simp add: commit_ok_def) (simp add: sample_builder_def)
qed

lemma sample_unpartitioned: "unpartitioned_table sample_builder sample_state"
proof -
  have "unpartitioned (data_file ` set (concat (map (entries_of (ws_store sample_state))
      (snapshot_manifests (ws_store sample_state) (baseSnapshot sample_builder) content)))) \<and>
    unpartitioned (data_file ` set (hash_entries (new_entries sample_builder content)))" for content
    by (cases content; simp only:; code_simp)
  then show ?thesis by (simp add: unpartitioned_table_def)
qed

lemma sample_run:
  obtains s ws' where "FinalizeNewSnapshot sample_env sample_builder 0 [] sample_state = Inr (Some s, ws')" "manifestIndex ws' = 3"
    "map manifest_path (manifests_of (ws_store ws') s) = [manifest_uri sample_env 2]"
proof -
  have "case FinalizeNewSnapshot sample_env sample_builder 0 [] sample_state of
     Inr (Some s, ws') \<Rightarrow> manifestIndex ws' = 3 \<and> map manifest_path (manifests_of (ws_store ws') s) = [manifest_uri sample_env 2]
   | _ \<Rightarrow> False"
    by code_simp
  then show thesis using that by (auto split: sum.splits option.splits)
qed


section \<open>Properties\<close>

text \<open>C1: a commit does to the table what its operations say.  Whenever \<^verbatim>\<open>FinalizeNewSnapshot\<close> returns, the data files
  (and the position delete files) that the new snapshot reaches through its manifest list in the object store are those
  of the base snapshot plus the added files, minus the files whose path was removed, as multisets: dropping deleted
  entries, rewriting manifests and merging them lose and add nothing.  When no snapshot is created the
  operations do not change the files.\<close>

theorem FinalizeNewSnapshot_files:
  assumes "commit_ok env builder ws" "FinalizeNewSnapshot env builder schemaId transforms ws = Inr (r, ws')"
  shows "(case r of None \<Rightarrow> table_files (ws_store ws) (baseSnapshot builder) content
                  | Some s \<Rightarrow> table_files (ws_store ws') (Some s) content) =
    commit_effect builder (new_entries builder content) (table_files (ws_store ws) (baseSnapshot builder) content)"
  by (rule finalize_files(1) [OF assms])

theorem FinalizeNewSnapshot_files_witness:
  "\<exists>s ws'. FinalizeNewSnapshot sample_env sample_builder 0 [] sample_state = Inr (Some s, ws') \<and>
     table_files (ws_store sample_state) (baseSnapshot sample_builder) DATA_M = {#sample_file ''d2''#} \<and>
     table_files (ws_store ws') (Some s) DATA_M = {#sample_file ''d9''#}"
proof -
  obtain s ws' where r: "FinalizeNewSnapshot sample_env sample_builder 0 [] sample_state = Inr (Some s, ws')" by (rule sample_run)
  have "table_files (ws_store sample_state) (baseSnapshot sample_builder) DATA_M = {#sample_file ''d2''#}"
    "commit_effect sample_builder (new_entries sample_builder DATA_M) {#sample_file ''d2''#} = {#sample_file ''d9''#}"
    by (code_simp, simp add: commit_effect_def new_entries_def hash_entries_def sample_builder_def keeps_def sample_entry_def
        live_of_def IsManifestEntryStatusScannable_def sample_file_def)
  then show ?thesis using r FinalizeNewSnapshot_files [OF sample_commit_ok r, of DATA_M] by auto
qed

text \<open>C3: a commit does not disturb older snapshots.  Every snapshot that could be read before still can be read
  afterwards and reaches the same files, whatever manifests the commit rewrites or merges.\<close>

theorem FinalizeNewSnapshot_keeps_snapshots:
  assumes "commit_ok env builder ws" "FinalizeNewSnapshot env builder schemaId transforms ws = Inr (r, ws')"
    "readable (ws_store ws) s"
  shows "readable (ws_store ws') s \<and> table_files (ws_store ws') s content = table_files (ws_store ws) s content"
  by (rule finalize_keeps_snapshots [OF assms])

theorem FinalizeNewSnapshot_keeps_snapshots_witness:
  "\<exists>s ws'. FinalizeNewSnapshot sample_env sample_builder 0 [] sample_state = Inr (Some s, ws') \<and>
     table_files (ws_store ws') (Some (sample_snapshot 1 ''l1'')) DATA_M = {#sample_file ''d1'', sample_file ''d2''#}"
proof -
  obtain s ws' where r: "FinalizeNewSnapshot sample_env sample_builder 0 [] sample_state = Inr (Some s, ws')" by (rule sample_run)
  have "readable (ws_store sample_state) (Some (sample_snapshot 1 ''l1''))"
    "table_files (ws_store sample_state) (Some (sample_snapshot 1 ''l1'')) DATA_M = {#sample_file ''d1'', sample_file ''d2''#}"
    by code_simp+
  then show ?thesis using r FinalizeNewSnapshot_keeps_snapshots [OF sample_commit_ok r, of "Some (sample_snapshot 1 ''l1'')" DATA_M] by auto
qed



text \<open>C2: after a commit the records of files in progress are exact.  A manifest written by the commit is still
  recorded as in progress, and so will be cleaned up, if and only if the published snapshot does not use it:
  no manifest of the snapshot can be removed as an orphan and no transient manifest leaks.\<close>

theorem FinalizeNewSnapshot_in_progress:
  assumes "commit_ok env builder ws" "FinalizeNewSnapshot env builder schemaId transforms ws = Inr (Some s, ws')"
    "i < manifestIndex ws'"
  shows "(manifest_uri env i, False) \<in> set (InProgressFiles ws') \<longleftrightarrow>
    manifest_uri env i \<notin> manifest_path ` set (manifests_of (ws_store ws') s)"
  by (rule finalize_in_progress [OF assms])

theorem FinalizeNewSnapshot_in_progress_witness:
  "\<exists>s ws'. FinalizeNewSnapshot sample_env sample_builder 0 [] sample_state = Inr (Some s, ws') \<and>
     (manifest_uri sample_env 1, False) \<in> set (InProgressFiles ws') \<and> (manifest_uri sample_env 2, False) \<notin> set (InProgressFiles ws')"
proof -
  obtain s ws' where r: "FinalizeNewSnapshot sample_env sample_builder 0 [] sample_state = Inr (Some s, ws')" "manifestIndex ws' = 3"
    "map manifest_path (manifests_of (ws_store ws') s) = [manifest_uri sample_env 2]" by (rule sample_run)
  have m: "manifest_path ` set (manifests_of (ws_store ws') s) = {manifest_uri sample_env 2}"
    using arg_cong [OF r(3), of set] by simp
  note p = FinalizeNewSnapshot_in_progress [OF sample_commit_ok r(1), unfolded m]
  show ?thesis using r(1) p [of 1] p [of 2] r(2) by auto
qed

end
