(* ===== verification/Deletion_Queue.thy ===== *)
theory Deletion_Queue
  imports Prelude "HOL-Library.Sublist"
begin

text \<open>
  \<^verbatim>\<open>pg_lake_engine/src/cleanup/deletion_queue.c\<close>: the queue of files that no snapshot refers to any more,
  which \<^verbatim>\<open>VACUUM\<close> removes once they have been orphaned for the retention period.

  The table \<^verbatim>\<open>deletion_queue\<close> is a list of rows in the order in which a scan returns them.  What DuckDB removes is
  an argument: whether the removal of a path succeeds, and which files a failed one has removed already.
\<close>

section \<open>The table\<close>

definition InvalidOid :: int where
  "InvalidOid = 0"

record queue_row =
  q_path :: string
  q_table_name :: int
  q_orphaned_at :: "int option"
  q_retry_count :: int
  q_is_prefix :: bool

record DeletionQueueEntry =
  dq_path :: string
  dq_orphanedAt :: int
  dq_retryCount :: int
  dq_isPrefix :: bool

record queue_state =
  deletion_queue :: "queue_row list"
  stored_files :: "string list"

text \<open>The settings, the clock in microseconds, the relations that exist, and the answers of the object store.\<close>

record queue_env =
  OrphanedFileRetentionPeriod :: int
  VacuumFileRemoveMaxRetries :: int
  transaction_time :: int
  in_pg_class :: "int \<Rightarrow> bool"
  removal_succeeds :: "string \<Rightarrow> bool"
  removed_anyway :: "string \<Rightarrow> bool"


section \<open>Operations\<close>

definition RemoveDeletionQueuePathsFromCatalog :: "string list \<Rightarrow> queue_row list \<Rightarrow> queue_row list" where
  "RemoveDeletionQueuePathsFromCatalog filePaths = filter (\<lambda>r. q_path r \<notin> set filePaths)"

definition IncrementDeletionQueueRetryCount :: "string list \<Rightarrow> queue_row list \<Rightarrow> queue_row list" where
  "IncrementDeletionQueueRetryCount failedRemovalPaths =
     map (\<lambda>r. if q_path r \<in> set failedRemovalPaths then r\<lparr>q_retry_count := q_retry_count r + 1\<rparr> else r)"

definition PER_LOOP_FILE_CLEANUP_LIMIT :: nat where
  "PER_LOOP_FILE_CLEANUP_LIMIT = 50"

definition expired :: "queue_env \<Rightarrow> queue_row \<Rightarrow> bool" where
  "expired env r \<longleftrightarrow> (case q_orphaned_at r of None \<Rightarrow> True
     | Some t \<Rightarrow> t + OrphanedFileRetentionPeriod env * 1000000 \<le> transaction_time env)"

definition eligible :: "queue_env \<Rightarrow> int \<Rightarrow> queue_row \<Rightarrow> bool" where
  "eligible env relationId r \<longleftrightarrow> expired env r \<and>
     (if relationId \<noteq> InvalidOid then q_table_name r = relationId else \<not> in_pg_class env (q_table_name r)) \<and>
     q_retry_count r \<le> VacuumFileRemoveMaxRetries env"

definition queue_entry :: "queue_row \<Rightarrow> DeletionQueueEntry" where
  "queue_entry r = \<lparr>dq_path = q_path r, dq_orphanedAt = (case q_orphaned_at r of None \<Rightarrow> 0 | Some t \<Rightarrow> t),
     dq_retryCount = q_retry_count r, dq_isPrefix = q_is_prefix r\<rparr>"

definition GetDeletionQueueRecords :: "queue_env \<Rightarrow> int \<Rightarrow> bool \<Rightarrow> queue_row list \<Rightarrow> DeletionQueueEntry list" where
  "GetDeletionQueueRecords env relationId isFull queue =
     (let del = filter (eligible env relationId) queue
      in map queue_entry (if isFull then del else take PER_LOOP_FILE_CLEANUP_LIMIT del))"

text \<open>The files under a prefix, and the file of that name.\<close>

definition queue_covers :: "string \<Rightarrow> bool \<Rightarrow> string \<Rightarrow> bool" where
  "queue_covers path isPrefix file \<longleftrightarrow> (if isPrefix then prefix (path @ ''/'') file else file = path)"

definition delete_remote :: "queue_env \<Rightarrow> DeletionQueueEntry \<Rightarrow> string list \<Rightarrow> bool \<times> string list" where
  "delete_remote env entry files =
     (removal_succeeds env (dq_path entry),
      filter (\<lambda>f. \<not> (queue_covers (dq_path entry) (dq_isPrefix entry) f \<and>
                     (removal_succeeds env (dq_path entry) \<or> removed_anyway env f))) files)"

fun remove_records ::
  "queue_env \<Rightarrow> DeletionQueueEntry list \<Rightarrow> string list \<Rightarrow> string list \<Rightarrow> string list \<Rightarrow> string list \<times> string list \<times> string list" where
  "remove_records env [] deleted failed files = (deleted, failed, files)"
| "remove_records env (entry # entries) deleted failed files =
     (case delete_remote env entry files of (success, files) \<Rightarrow>
        if success then remove_records env entries (deleted @ [dq_path entry]) failed files
        else remove_records env entries deleted (failed @ [dq_path entry]) files)"

definition RemoveDeletionQueueRecords ::
  "queue_env \<Rightarrow> DeletionQueueEntry list \<Rightarrow> queue_state \<Rightarrow> bool \<times> queue_state" where
  "RemoveDeletionQueueRecords env deletionQueueRecords st =
     (case remove_records env deletionQueueRecords [] [] (stored_files st) of (deletedFilePathList, failedFilePathList, files) \<Rightarrow>
      let queue = deletion_queue st;
          queue = (if 0 < length deletedFilePathList then RemoveDeletionQueuePathsFromCatalog deletedFilePathList queue else queue);
          queue = (if 0 < length failedFilePathList then IncrementDeletionQueueRetryCount failedFilePathList queue else queue)
      in (0 < length deletedFilePathList, st\<lparr>deletion_queue := queue, stored_files := files\<rparr>))"

definition flush_deletion_queue :: "queue_env \<Rightarrow> int \<Rightarrow> queue_state \<Rightarrow> string list \<times> queue_state" where
  "flush_deletion_queue env relationId st =
     (let deletionQueueRecords = GetDeletionQueueRecords env relationId True (deletion_queue st)
      in case RemoveDeletionQueueRecords env deletionQueueRecords st of (_, st) \<Rightarrow>
        (map dq_path deletionQueueRecords, st))"

text \<open>The primary key refuses a path that is queued already.\<close>

definition InsertDeletionQueueRecordExtended ::
  "string \<Rightarrow> int \<Rightarrow> int \<Rightarrow> bool \<Rightarrow> queue_row list \<Rightarrow> queue_row list result" where
  "InsertDeletionQueueRecordExtended path relationId orphanedAt isPrefix queue =
     (if path \<in> set (map q_path queue) then Inl (DuplicateObject path)
      else Inr (queue @ [\<lparr>q_path = path, q_table_name = relationId,
        q_orphaned_at = (if orphanedAt = 0 then None else Some orphanedAt), q_retry_count = 0, q_is_prefix = isPrefix\<rparr>]))"

definition InsertDeletionQueueRecord :: "string \<Rightarrow> int \<Rightarrow> int \<Rightarrow> queue_row list \<Rightarrow> queue_row list result" where
  "InsertDeletionQueueRecord path relationId orphanedAt queue =
     InsertDeletionQueueRecordExtended path relationId orphanedAt False queue"

definition InsertPrefixDeletionRecord :: "string \<Rightarrow> int \<Rightarrow> queue_row list \<Rightarrow> queue_row list result" where
  "InsertPrefixDeletionRecord path orphanedAt queue =
     InsertDeletionQueueRecordExtended path InvalidOid orphanedAt True queue"


section \<open>What a cleanup does to the queue and to the files\<close>

definition removed_by :: "queue_env \<Rightarrow> DeletionQueueEntry list \<Rightarrow> string \<Rightarrow> bool" where
  "removed_by env entries f \<longleftrightarrow> (\<exists>e \<in> set entries. queue_covers (dq_path e) (dq_isPrefix e) f \<and>
     (removal_succeeds env (dq_path e) \<or> removed_anyway env f))"

lemma remove_records_eq:
  "remove_records env es deleted failed files =
     (deleted @ map dq_path (filter (\<lambda>e. removal_succeeds env (dq_path e)) es),
      failed @ map dq_path (filter (\<lambda>e. \<not> removal_succeeds env (dq_path e)) es),
      filter (\<lambda>f. \<not> removed_by env es f) files)"
proof (induction es arbitrary: deleted failed files)
  case (Cons e es)
  then show ?case by (auto simp: delete_remote_def filter_filter removed_by_def intro!: filter_cong)
qed (simp add: removed_by_def)

text \<open>A queued path is tried with the row it is queued by; a failure is counted.\<close>

definition attempted :: "DeletionQueueEntry list \<Rightarrow> queue_row \<Rightarrow> bool" where
  "attempted entries r \<longleftrightarrow> q_path r \<in> set (map dq_path entries)"

definition after_attempt :: "queue_env \<Rightarrow> DeletionQueueEntry list \<Rightarrow> queue_row list \<Rightarrow> queue_row list" where
  "after_attempt env entries queue =
     map (\<lambda>r. if attempted entries r then r\<lparr>q_retry_count := q_retry_count r + 1\<rparr> else r)
       (filter (\<lambda>r. \<not> (attempted entries r \<and> removal_succeeds env (q_path r))) queue)"

lemma RemoveDeletionQueueRecords_eq:
  "RemoveDeletionQueueRecords env entries st =
     (list_ex (\<lambda>e. removal_succeeds env (dq_path e)) entries,
      st\<lparr>deletion_queue := after_attempt env entries (deletion_queue st),
         stored_files := filter (\<lambda>f. \<not> removed_by env entries f) (stored_files st)\<rparr>)"
proof -
  let ?d = "map dq_path (filter (\<lambda>e. removal_succeeds env (dq_path e)) entries)"
  let ?f = "map dq_path (filter (\<lambda>e. \<not> removal_succeeds env (dq_path e)) entries)"
  have del: "q_path r \<in> set ?d \<longleftrightarrow> attempted entries r \<and> removal_succeeds env (q_path r)" for r
    by (auto simp: attempted_def)
  have fail: "q_path r \<in> set ?f \<longleftrightarrow> attempted entries r \<and> \<not> removal_succeeds env (q_path r)" for r
    by (auto simp: attempted_def)
  have d0: "(if 0 < length xs then RemoveDeletionQueuePathsFromCatalog xs q else q) = RemoveDeletionQueuePathsFromCatalog xs q" for xs q
    by (simp add: RemoveDeletionQueuePathsFromCatalog_def)
  have f0: "(if 0 < length xs then IncrementDeletionQueueRetryCount xs q else q) = IncrementDeletionQueueRetryCount xs q" for xs q
    by (simp add: IncrementDeletionQueueRetryCount_def)
  have inc: "IncrementDeletionQueueRetryCount ?f (RemoveDeletionQueuePathsFromCatalog ?d q) = after_attempt env entries q" for q
    unfolding IncrementDeletionQueueRetryCount_def RemoveDeletionQueuePathsFromCatalog_def after_attempt_def del fail
    by (intro map_cong) auto
  have ex: "0 < length ?d \<longleftrightarrow> list_ex (\<lambda>e. removal_succeeds env (dq_path e)) entries"
    by (auto simp: list_ex_iff filter_empty_conv)
  show ?thesis
    by (simp only: RemoveDeletionQueueRecords_def remove_records_eq Let_def prod.case append_Nil d0 f0 inc) (simp only: ex)
qed

lemma records_path:
  assumes "distinct (map q_path queue)" "r \<in> set queue"
  shows "attempted (GetDeletionQueueRecords env relationId True queue) r \<longleftrightarrow> eligible env relationId r"
proof -
  have "attempted (GetDeletionQueueRecords env relationId True queue) r \<longleftrightarrow>
    (\<exists>r' \<in> set queue. eligible env relationId r' \<and> q_path r' = q_path r)"
    by (auto simp: attempted_def GetDeletionQueueRecords_def queue_entry_def intro: rev_image_eqI)
  moreover have "r' = r" if "r' \<in> set queue" "q_path r' = q_path r" for r'
    using assms that by (auto simp: distinct_map dest: inj_onD)
  ultimately show ?thesis using assms(2) by metis
qed

lemma removed_by_records:
  assumes "removed_by env (GetDeletionQueueRecords env' relationId isFull queue) f"
  obtains r where "r \<in> set queue" "eligible env' relationId r" "queue_covers (q_path r) (q_is_prefix r) f"
proof -
  obtain e where e: "e \<in> set (GetDeletionQueueRecords env' relationId isFull queue)" "queue_covers (dq_path e) (dq_isPrefix e) f"
    using assms by (auto simp: removed_by_def)
  then obtain r where "r \<in> set (filter (eligible env' relationId) queue)" "e = queue_entry r"
    by (auto simp: GetDeletionQueueRecords_def Let_def dest: in_set_takeD split: if_splits)
  then show thesis using that [of r] e(2) by (simp add: queue_entry_def)
qed

lemma flush_queue:
  assumes "distinct (map q_path (deletion_queue st))"
  shows "deletion_queue (snd (flush_deletion_queue env relationId st)) =
    map (\<lambda>r. if eligible env relationId r then r\<lparr>q_retry_count := q_retry_count r + 1\<rparr> else r)
      (filter (\<lambda>r. \<not> (eligible env relationId r \<and> removal_succeeds env (q_path r))) (deletion_queue st))"
  using records_path [OF assms]
  by (simp add: flush_deletion_queue_def RemoveDeletionQueueRecords_eq after_attempt_def Let_def cong: filter_cong map_cong)

text \<open>A path that cannot be removed: the number of attempts so far after a number of flushes.\<close>

lemma flush_keeps_paths:
  assumes "distinct (map q_path (deletion_queue st))"
  shows "distinct (map q_path (deletion_queue (snd (flush_deletion_queue env relationId st))))"
proof -
  have "map q_path (deletion_queue (snd (flush_deletion_queue env relationId st))) =
    map q_path (filter (\<lambda>r. \<not> (eligible env relationId r \<and> removal_succeeds env (q_path r))) (deletion_queue st))"
    by (simp add: flush_queue [OF assms] comp_def if_distrib cong: if_cong)
  then show ?thesis using assms by (simp add: distinct_map_filter)
qed

lemma flush_retries:
  assumes "distinct (map q_path (deletion_queue st))" "r \<in> set (deletion_queue st)" "q_retry_count r = 0"
    "eligible env relationId r" "\<not> removal_succeeds env (q_path r)" "0 \<le> VacuumFileRemoveMaxRetries env"
  shows "r\<lparr>q_retry_count := min (int n) (VacuumFileRemoveMaxRetries env + 1)\<rparr> \<in>
      set (deletion_queue (((\<lambda>st. snd (flush_deletion_queue env relationId st)) ^^ n) st)) \<and>
    distinct (map q_path (deletion_queue (((\<lambda>st. snd (flush_deletion_queue env relationId st)) ^^ n) st)))"
proof (induction n)
  case 0
  have "r\<lparr>q_retry_count := 0\<rparr> = r" using assms(3) by simp
  then show ?case using assms(1,2,6) by simp
next
  case (Suc n)
  let ?st = "((\<lambda>st. snd (flush_deletion_queue env relationId st)) ^^ n) st"
  let ?r = "r\<lparr>q_retry_count := min (int n) (VacuumFileRemoveMaxRetries env + 1)\<rparr>"
  have el: "eligible env relationId ?r \<longleftrightarrow> int n \<le> VacuumFileRemoveMaxRetries env"
    using assms(4) by (auto simp: eligible_def expired_def)
  have "(if eligible env relationId ?r then ?r\<lparr>q_retry_count := q_retry_count ?r + 1\<rparr> else ?r) =
    r\<lparr>q_retry_count := min (int (Suc n)) (VacuumFileRemoveMaxRetries env + 1)\<rparr>"
    unfolding el by (auto simp: min_def)
  moreover have "?r \<in> set (filter (\<lambda>r. \<not> (eligible env relationId r \<and> removal_succeeds env (q_path r))) (deletion_queue ?st))"
    using Suc.IH assms(5) by simp
  ultimately have "r\<lparr>q_retry_count := min (int (Suc n)) (VacuumFileRemoveMaxRetries env + 1)\<rparr> \<in>
    set (deletion_queue (snd (flush_deletion_queue env relationId ?st)))"
    unfolding flush_queue [OF Suc.IH [THEN conjunct2]] set_map by (intro image_eqI [where x = ?r]) (simp_all only: refl)
  then show ?case using flush_keeps_paths [OF Suc.IH [THEN conjunct2]] by simp
qed



section \<open>Properties\<close>


definition failing_row :: queue_row where
  "failing_row = \<lparr>q_path = ''a'', q_table_name = 7, q_orphaned_at = None, q_retry_count = 0, q_is_prefix = False\<rparr>"

definition failing_env :: queue_env where
  "failing_env =
     \<lparr>OrphanedFileRetentionPeriod = 864000, VacuumFileRemoveMaxRetries = 2, transaction_time = 0,
      in_pg_class = (\<lambda>_. True), removal_succeeds = (\<lambda>_. False), removed_anyway = (\<lambda>_. False)\<rparr>"


end
