(* ===== verification/In_Progress_Files.thy ===== *)
theory In_Progress_Files
  imports Prelude "HOL-Library.Sublist"
begin

text \<open>
  \<^verbatim>\<open>pg_lake_engine/src/cleanup/in_progress_files.c\<close>: the files that transactions in progress write to object
  storage, and the cleanup of the files of aborted transactions while other transactions run.

  The table \<^verbatim>\<open>in_progress_files\<close> is a list of rows.  A row carries the session that inserted it and the session that
  deleted it while their transactions are open, so that every session sees its own changes only.  An
  operation that would wait for another session has the value \<open>None\<close>.  Sessions interleave: the last
  sections have one step per statement of the cleanup loop.
\<close>

section \<open>The state\<close>

type_synonym session = nat

record in_progress_row =
  r_path :: string
  r_operation_id :: int
  r_is_prefix :: bool
  r_inserter :: "session option"
  r_deleter :: "session option"

text \<open>An entry read from the table.\<close>

record InProgressEntry =
  e_path :: string
  e_operationId :: int
  e_isPrefix :: bool

text \<open>Where a session is in the loop of \<^verbatim>\<open>RemoveInProgressFiles\<close>: the entries still to do and the paths
  removed so far; at the head entry with its lock taken; with its record seen.\<close>

datatype cleanup =
    Idle
  | Next "InProgressEntry list" "string list"
  | Locked InProgressEntry "InProgressEntry list" "string list"
  | Checked InProgressEntry "InProgressEntry list" "string list"

text \<open>The table, the sequence of operation ids, the advisory locks on operation ids, the variable
  \<^verbatim>\<open>TransactionOperationId\<close> of every session, the files in object storage and the cleanups under way.\<close>

record ip_state =
  ip_rows :: "in_progress_row list"
  operationid_seq :: int
  operation_locks :: "int \<Rightarrow> session option"
  TransactionOperationId :: "session \<Rightarrow> int"
  remote_files :: "string list"
  cleanups :: "session \<Rightarrow> cleanup"

definition visible :: "session \<Rightarrow> in_progress_row \<Rightarrow> bool" where
  "visible s r \<longleftrightarrow> (r_inserter r = None \<or> r_inserter r = Some s) \<and> r_deleter r \<noteq> Some s"


section \<open>Operation ids\<close>

definition GetNextTransactionOperationId :: "ip_state \<Rightarrow> int \<times> ip_state" where
  "GetNextTransactionOperationId st =
     (operationid_seq st + 1, st\<lparr>operationid_seq := operationid_seq st + 1\<rparr>)"

definition GetTransactionOperationId :: "session \<Rightarrow> ip_state \<Rightarrow> int \<times> ip_state" where
  "GetTransactionOperationId s st =
     (if TransactionOperationId st s \<noteq> 0 then (TransactionOperationId st s, st)
      else case GetNextTransactionOperationId st of (operationId, st) \<Rightarrow>
        (operationId, st\<lparr>TransactionOperationId := (TransactionOperationId st)(s := operationId)\<rparr>))"

definition LockTransactionOperationId :: "int \<Rightarrow> session \<Rightarrow> ip_state \<Rightarrow> ip_state option" where
  "LockTransactionOperationId operationId s st =
     (case operation_locks st operationId of
        None \<Rightarrow> Some (st\<lparr>operation_locks := (operation_locks st)(operationId := Some s)\<rparr>)
      | Some t \<Rightarrow> if t = s then Some st else None)"

text \<open>A lock the session already holds is granted again.\<close>

definition TryLockTransactionOperationId :: "int \<Rightarrow> session \<Rightarrow> ip_state \<Rightarrow> bool \<times> ip_state" where
  "TryLockTransactionOperationId operationId s st =
     (case operation_locks st operationId of
        None \<Rightarrow> (True, st\<lparr>operation_locks := (operation_locks st)(operationId := Some s)\<rparr>)
      | Some t \<Rightarrow> (t = s, st))"

datatype XactEvent =
    XACT_EVENT_COMMIT | XACT_EVENT_PARALLEL_COMMIT | XACT_EVENT_ABORT | XACT_EVENT_PARALLEL_ABORT
  | XACT_EVENT_PREPARE | XACT_EVENT_PRE_COMMIT | XACT_EVENT_PARALLEL_PRE_COMMIT | XACT_EVENT_PRE_PREPARE

definition InProgressFileTransactionCallback :: "XactEvent \<Rightarrow> session \<Rightarrow> ip_state \<Rightarrow> ip_state" where
  "InProgressFileTransactionCallback event s st =
     (if event = XACT_EVENT_ABORT \<or> event = XACT_EVENT_PARALLEL_ABORT \<or> event = XACT_EVENT_COMMIT \<or>
         event = XACT_EVENT_PARALLEL_COMMIT \<or> event = XACT_EVENT_PREPARE
      then st\<lparr>TransactionOperationId := (TransactionOperationId st)(s := 0)\<rparr> else st)"


section \<open>Records\<close>

definition DeleteInProgressFileRecords :: "session \<Rightarrow> string list \<Rightarrow> ip_state \<Rightarrow> ip_state option" where
  "DeleteInProgressFileRecords s paths st =
     (if paths = [] then Some st
      else if list_ex (\<lambda>r. visible s r \<and> r_path r \<in> set paths \<and> r_deleter r \<noteq> None) (ip_rows st) then None
      else Some (st\<lparr>ip_rows := map (\<lambda>r. if visible s r \<and> r_path r \<in> set paths then r\<lparr>r_deleter := Some s\<rparr> else r) (ip_rows st)\<rparr>))"

definition DeleteInProgressFileRecord :: "session \<Rightarrow> string \<Rightarrow> ip_state \<Rightarrow> ip_state option" where
  "DeleteInProgressFileRecord s path st = DeleteInProgressFileRecords s [path] st"

definition FileInProgressRecordExists :: "session \<Rightarrow> string \<Rightarrow> ip_state \<Rightarrow> bool" where
  "FileInProgressRecordExists s path st \<longleftrightarrow> list_ex (\<lambda>r. visible s r \<and> r_path r = path) (ip_rows st)"

text \<open>Whether the table can be seen by other connections, and the new value of the cache.\<close>

definition InProgressTableVisibleToExternalTx :: "bool \<Rightarrow> bool \<Rightarrow> bool \<times> bool" where
  "InProgressTableVisibleToExternalTx createdInCurrentXact InProgressTableVisibilityCached =
     (if InProgressTableVisibilityCached then (True, True)
      else if createdInCurrentXact then (False, False) else (True, True))"

definition InvalidateInProgressTableVisibilityCache :: bool where
  "InvalidateInProgressTableVisibilityCache = False"

text \<open>The row is inserted by another connection and so committed at once.  The primary key makes it wait for
  open changes of the same path and fail on a duplicate.\<close>

definition insert_attached :: "string \<Rightarrow> int \<Rightarrow> bool \<Rightarrow> ip_state \<Rightarrow> ip_state result option" where
  "insert_attached path operationId isPrefix st =
     (let same = filter (\<lambda>r. r_path r = path) (ip_rows st) in
      if list_ex (\<lambda>r. r_inserter r \<noteq> None \<or> r_deleter r \<noteq> None) same then None
      else if same \<noteq> [] then Some (Inl (InternalError ''failed to insert in progress file record''))
      else Some (Inr (st\<lparr>ip_rows := ip_rows st @
        [\<lparr>r_path = path, r_operation_id = operationId, r_is_prefix = isPrefix, r_inserter = None, r_deleter = None\<rparr>]\<rparr>)))"

definition InsertInProgressFileRecordExtended ::
  "session \<Rightarrow> bool \<Rightarrow> bool \<Rightarrow> string \<Rightarrow> bool \<Rightarrow> bool \<Rightarrow> ip_state \<Rightarrow> ip_state result option" where
  "InsertInProgressFileRecordExtended s XactReadOnly tableVisible path isPrefix autoDeleteRecord st =
     (if XactReadOnly then Some (Inr st)
      else if \<not> tableVisible then Some (Inr st)
      else case GetTransactionOperationId s st of (operationId, st) \<Rightarrow>
        (case LockTransactionOperationId operationId s st of
           None \<Rightarrow> None
         | Some st \<Rightarrow>
             (case insert_attached path operationId isPrefix st of
                None \<Rightarrow> None
              | Some (Inl e) \<Rightarrow> Some (Inl e)
              | Some (Inr st) \<Rightarrow>
                  if autoDeleteRecord then map_option Inr (DeleteInProgressFileRecord s path st)
                  else Some (Inr st))))"

definition InsertInProgressFileRecord :: "session \<Rightarrow> bool \<Rightarrow> bool \<Rightarrow> string \<Rightarrow> ip_state \<Rightarrow> ip_state result option" where
  "InsertInProgressFileRecord s XactReadOnly tableVisible path st =
     (let isPrefix = False; autoDeleteRecord = True
      in InsertInProgressFileRecordExtended s XactReadOnly tableVisible path isPrefix autoDeleteRecord st)"

definition ReplaceInProgressPrefixPathWithFullPaths ::
  "session \<Rightarrow> string \<Rightarrow> string list \<Rightarrow> ip_state \<Rightarrow> ip_state result option" where
  "ReplaceInProgressPrefixPathWithFullPaths s prefixPath fullPaths st =
     (let matches = \<lambda>r. visible s r \<and> r_path r = prefixPath \<and> r_is_prefix r;
          del_prefix = map r_operation_id (filter matches (ip_rows st))
      in if list_ex (\<lambda>r. matches r \<and> r_deleter r \<noteq> None) (ip_rows st) then None
         else
           let rows = map (\<lambda>r. if matches r then r\<lparr>r_deleter := Some s\<rparr> else r) (ip_rows st);
               inserted = concat (map (\<lambda>operationId. map (\<lambda>p.
                 \<lparr>r_path = p, r_operation_id = operationId, r_is_prefix = False, r_inserter = Some s, r_deleter = None\<rparr>)
                 fullPaths) del_prefix)
           in if list_ex (\<lambda>r. r_path r \<in> set (map r_path inserted)) (ip_rows st) \<or> \<not> distinct (map r_path inserted)
              then Some (Inl (InternalError ''duplicate key value''))
              else Some (Inr (st\<lparr>ip_rows := rows @ inserted\<rparr>)))"


section \<open>Cleaning up\<close>

definition PER_LOOP_IN_PROGRESS_FILE_CLEANUP_LIMIT :: nat where
  "PER_LOOP_IN_PROGRESS_FILE_CLEANUP_LIMIT = 50"

text \<open>The operator \<^verbatim>\<open>ILIKE\<close> is a parameter.\<close>

definition GetInProgressFileRecords ::
  "(string \<Rightarrow> string \<Rightarrow> bool) \<Rightarrow> session \<Rightarrow> string \<Rightarrow> bool \<Rightarrow> ip_state \<Rightarrow> bool \<times> InProgressEntry list" where
  "GetInProgressFileRecords ilike s loc isFull st =
     (let found = map (\<lambda>r. \<lparr>e_path = r_path r, e_operationId = r_operation_id r, e_isPrefix = r_is_prefix r\<rparr>)
            (filter (\<lambda>r. visible s r \<and> ilike (r_path r) (loc @ ''%'')) (ip_rows st));
          fileRecords = (if isFull then found else take PER_LOOP_IN_PROGRESS_FILE_CLEANUP_LIMIT found)
      in (\<not> isFull \<and> PER_LOOP_IN_PROGRESS_FILE_CLEANUP_LIMIT \<le> length fileRecords, fileRecords))"

text \<open>The files \<^verbatim>\<open>DeleteRemoteFile\<close> and \<^verbatim>\<open>DeleteRemotePrefix\<close> (the glob \<^verbatim>\<open>path/**\<close>) remove.  Which removals
  succeed is the parameter \<open>removes\<close>; the loop does not look at the result.\<close>

definition covers :: "InProgressEntry \<Rightarrow> string \<Rightarrow> bool" where
  "covers entry file \<longleftrightarrow> (if e_isPrefix entry then prefix (e_path entry @ ''/'') file else file = e_path entry)"

definition remove_remote :: "(string \<Rightarrow> bool) \<Rightarrow> InProgressEntry \<Rightarrow> ip_state \<Rightarrow> ip_state" where
  "remove_remote removes entry st =
     st\<lparr>remote_files := filter (\<lambda>f. \<not> (covers entry f \<and> removes f)) (remote_files st)\<rparr>"

fun remove_entries ::
  "(string \<Rightarrow> bool) \<Rightarrow> session \<Rightarrow> InProgressEntry list \<Rightarrow> string list \<Rightarrow> ip_state \<Rightarrow> string list \<times> ip_state" where
  "remove_entries removes s [] deletedPaths st = (deletedPaths, st)"
| "remove_entries removes s (entry # entries) deletedPaths st =
     (case TryLockTransactionOperationId (e_operationId entry) s st of (locked, st) \<Rightarrow>
        if \<not> locked then remove_entries removes s entries deletedPaths st
        else if \<not> FileInProgressRecordExists s (e_path entry) st then remove_entries removes s entries deletedPaths st
        else remove_entries removes s entries (deletedPaths @ [e_path entry]) (remove_remote removes entry st))"

definition RemoveInProgressFiles ::
  "(string \<Rightarrow> string \<Rightarrow> bool) \<Rightarrow> (string \<Rightarrow> bool) \<Rightarrow> session \<Rightarrow> string \<Rightarrow> bool \<Rightarrow> ip_state
     \<Rightarrow> (bool \<times> string list \<times> ip_state) option" where
  "RemoveInProgressFiles ilike removes s loc isFull st =
     (case GetInProgressFileRecords ilike s loc isFull st of (hasRemainingFiles, entries) \<Rightarrow>
      case remove_entries removes s entries [] st of (deletedPaths, st) \<Rightarrow>
      map_option (\<lambda>st. (hasRemainingFiles, deletedPaths, st)) (DeleteInProgressFileRecords s deletedPaths st))"

definition flush_in_progress_queue ::
  "(string \<Rightarrow> string \<Rightarrow> bool) \<Rightarrow> (string \<Rightarrow> bool) \<Rightarrow> session \<Rightarrow> ip_state \<Rightarrow> (string list \<times> ip_state) option" where
  "flush_in_progress_queue ilike removes s st =
     map_option (\<lambda>(hasRemainingFiles, removedFiles, st). (removedFiles, st)) (RemoveInProgressFiles ilike removes s [] True st)"


section \<open>The end of a transaction\<close>

text \<open>PostgreSQL makes the changes of the session permanent, or undoes them, and releases its locks.\<close>

definition release_locks :: "session \<Rightarrow> ip_state \<Rightarrow> ip_state" where
  "release_locks s st =
     st\<lparr>operation_locks := (\<lambda>operationId. if operation_locks st operationId = Some s then None else operation_locks st operationId)\<rparr>"

definition commit_transaction :: "session \<Rightarrow> ip_state \<Rightarrow> ip_state" where
  "commit_transaction s st =
     release_locks s (InProgressFileTransactionCallback XACT_EVENT_COMMIT s
       (st\<lparr>ip_rows := map (\<lambda>r. if r_inserter r = Some s then r\<lparr>r_inserter := None\<rparr> else r)
                       (filter (\<lambda>r. r_deleter r \<noteq> Some s) (ip_rows st))\<rparr>))"

definition abort_transaction :: "session \<Rightarrow> ip_state \<Rightarrow> ip_state" where
  "abort_transaction s st =
     release_locks s (InProgressFileTransactionCallback XACT_EVENT_ABORT s
       (st\<lparr>ip_rows := map (\<lambda>r. if r_deleter r = Some s then r\<lparr>r_deleter := None\<rparr> else r)
                       (filter (\<lambda>r. r_inserter r \<noteq> Some s) (ip_rows st))\<rparr>))"


section \<open>Concurrent transactions and cleanups\<close>

text \<open>The table together with what the sessions did: \<open>roots\<close> are the paths registered so far with their kind
  and operation id, \<open>written\<close> the files an open transaction wrote, \<open>kept\<close> the records it deleted in order to keep
  their files, and \<open>live\<close> the files kept by committed transactions.\<close>

record ip_system =
  cur :: ip_state
  roots :: "(string \<times> bool \<times> int) set"
  written :: "session \<Rightarrow> string set"
  kept :: "session \<Rightarrow> (string \<times> bool) set"
  live :: "string set"

text \<open>A path owns itself and everything below it.  Generated paths contain a UUID, so a new path neither owns nor is
  owned by one in use.\<close>

definition owns :: "string \<Rightarrow> string \<Rightarrow> bool" where
  "owns q p \<longleftrightarrow> prefix (q @ ''/'') (p @ ''/'')"

definition fresh_path :: "(string \<times> bool \<times> int) set \<Rightarrow> string \<Rightarrow> bool" where
  "fresh_path R p \<longleftrightarrow> (\<forall>(q, b, op) \<in> R. \<not> owns q p \<and> \<not> owns p q)"

definition covers_key :: "string \<times> bool \<Rightarrow> string \<Rightarrow> bool" where
  "covers_key k p \<longleftrightarrow> (if snd k then prefix (fst k @ ''/'') p else p = fst k)"

text \<open>One step of one session.  Transactions insert records, write files, replace a prefix by the
  files below it, drop the records of the files they keep, and end.  A cleanup reads the records and handles the entries
  one statement at a time; it runs in a transaction that has written no files, as \<^verbatim>\<open>VACUUM\<close> does.\<close>

inductive ip_step :: "ip_system \<Rightarrow> ip_system \<Rightarrow> bool" where
  insert_step:
    "cleanups (cur S) s = Idle \<Longrightarrow> fresh_path (roots S) path \<Longrightarrow>
     InsertInProgressFileRecordExtended s False True path isPrefix auto (cur S) = Some (Inr st) \<Longrightarrow>
     ip_step S (S\<lparr>cur := st, roots := insert (path, isPrefix, TransactionOperationId st s) (roots S),
       kept := (if auto then (kept S)(s := insert (path, isPrefix) (kept S s)) else kept S)\<rparr>)"
| write_step:
    "cleanups (cur S) s = Idle \<Longrightarrow> TransactionOperationId (cur S) s \<noteq> 0 \<Longrightarrow>
     (q, b, TransactionOperationId (cur S) s) \<in> roots S \<Longrightarrow> owns q p \<Longrightarrow>
     ip_step S (S\<lparr>cur := (cur S)\<lparr>remote_files := remote_files (cur S) @ [p]\<rparr>, written := (written S)(s := insert p (written S s))\<rparr>)"
| replace_step:
    "cleanups (cur S) s = Idle \<Longrightarrow> TransactionOperationId (cur S) s \<noteq> 0 \<Longrightarrow>
     (q, True, TransactionOperationId (cur S) s) \<in> roots S \<Longrightarrow> \<forall>p \<in> set paths. owns q p \<and> p \<noteq> q \<Longrightarrow>
     ReplaceInProgressPrefixPathWithFullPaths s q paths (cur S) = Some (Inr st) \<Longrightarrow>
     ip_step S (S\<lparr>cur := st\<rparr>)"
| keep_step:
    "cleanups (cur S) s = Idle \<Longrightarrow> TransactionOperationId (cur S) s \<noteq> 0 \<Longrightarrow>
     \<forall>p \<in> set paths. \<exists>r \<in> set (ip_rows (cur S)). visible s r \<and> r_path r = p \<and> \<not> r_is_prefix r \<and>
       r_operation_id r = TransactionOperationId (cur S) s \<Longrightarrow>
     DeleteInProgressFileRecords s paths (cur S) = Some st \<Longrightarrow>
     ip_step S (S\<lparr>cur := st, kept := (kept S)(s := (\<lambda>p. (p, False)) ` set paths \<union> kept S s)\<rparr>)"
| commit_step:
    "cleanups (cur S) s = Idle \<Longrightarrow>
     ip_step S (S\<lparr>cur := commit_transaction s (cur S), written := (written S)(s := {}), kept := (kept S)(s := {}),
       live := live S \<union> {p \<in> written S s. \<exists>k \<in> kept S s. covers_key k p}\<rparr>)"
| abort_step:
    "ip_step S (S\<lparr>cur := (abort_transaction s (cur S))\<lparr>cleanups := (cleanups (cur S))(s := Idle)\<rparr>,
       written := (written S)(s := {}), kept := (kept S)(s := {})\<rparr>)"
| clean_start:
    "cleanups (cur S) s = Idle \<Longrightarrow> TransactionOperationId (cur S) s = 0 \<Longrightarrow>
     GetInProgressFileRecords ilike s loc isFull (cur S) = (remaining, entries) \<Longrightarrow>
     ip_step S (S\<lparr>cur := (cur S)\<lparr>cleanups := (cleanups (cur S))(s := Next entries [])\<rparr>\<rparr>)"
| clean_lock:
    "cleanups (cur S) s = Next (e # es) removed \<Longrightarrow>
     TryLockTransactionOperationId (e_operationId e) s (cur S) = (locked, st) \<Longrightarrow>
     ip_step S (S\<lparr>cur := st\<lparr>cleanups := (cleanups st)(s := (if locked then Locked e es removed else Next es removed))\<rparr>\<rparr>)"
| clean_check:
    "cleanups (cur S) s = Locked e es removed \<Longrightarrow>
     ip_step S (S\<lparr>cur := (cur S)\<lparr>cleanups := (cleanups (cur S))(s :=
       (if FileInProgressRecordExists s (e_path e) (cur S) then Checked e es removed else Next es removed))\<rparr>\<rparr>)"
| clean_remove:
    "cleanups (cur S) s = Checked e es removed \<Longrightarrow>
     ip_step S (S\<lparr>cur := (remove_remote removes e (cur S))\<lparr>cleanups := (cleanups (cur S))(s := Next es (removed @ [e_path e]))\<rparr>\<rparr>)"
| clean_finish:
    "cleanups (cur S) s = Next [] removed \<Longrightarrow> DeleteInProgressFileRecords s removed (cur S) = Some st \<Longrightarrow>
     ip_step S (S\<lparr>cur := st\<lparr>cleanups := (cleanups st)(s := Idle)\<rparr>\<rparr>)"

definition ip_initial :: "string list \<Rightarrow> ip_system" where
  "ip_initial files =
     \<lparr>cur = \<lparr>ip_rows = [], operationid_seq = 0, operation_locks = (\<lambda>_. None), TransactionOperationId = (\<lambda>_. 0),
             remote_files = files, cleanups = (\<lambda>_. Idle)\<rparr>,
      roots = {}, written = (\<lambda>_. {}), kept = (\<lambda>_. {}), live = {}\<rparr>"

abbreviation ip_reachable :: "string list \<Rightarrow> ip_system \<Rightarrow> bool" where
  "ip_reachable files S \<equiv> ip_step\<^sup>*\<^sup>* (ip_initial files) S"


section \<open>Ownership of paths\<close>

lemma owns_refl [simp]: "owns p p"
  by (simp add: owns_def)

lemma owns_trans: "owns a b \<Longrightarrow> owns b c \<Longrightarrow> owns a c"
  unfolding owns_def by (rule prefix_order.trans)

lemma owns_linear: "owns a p \<Longrightarrow> owns b p \<Longrightarrow> owns a b \<or> owns b a"
  unfolding owns_def by (rule prefix_same_cases) auto

lemma prefix_owns: "prefix (q @ ''/'') p \<Longrightarrow> owns q p"
  by (simp add: owns_def)

lemma covers_key_owns: "covers_key k p \<Longrightarrow> owns (fst k) p"
  by (auto simp: covers_key_def prefix_owns split: if_splits)

lemma owns_strict: "owns q p \<Longrightarrow> p \<noteq> q \<Longrightarrow> prefix (q @ ''/'') p"
  unfolding owns_def by (metis append_same_eq prefix_snoc)

definition row_key :: "in_progress_row \<Rightarrow> string \<times> bool" where
  "row_key r = (r_path r, r_is_prefix r)"

definition entry_key :: "InProgressEntry \<Rightarrow> string \<times> bool" where
  "entry_key e = (e_path e, e_isPrefix e)"

lemma covers_entry: "covers e p \<longleftrightarrow> covers_key (entry_key e) p"
  by (simp add: covers_def covers_key_def entry_key_def)

text \<open>The key of a record is that of a root, or of a file below a prefix root.\<close>

definition under :: "(string \<times> bool \<times> int) set \<Rightarrow> int \<Rightarrow> string \<Rightarrow> bool" where
  "under R op p \<longleftrightarrow> (\<exists>q b. (q, b, op) \<in> R \<and> owns q p)"

definition registered :: "(string \<times> bool \<times> int) set \<Rightarrow> int \<Rightarrow> string \<times> bool \<Rightarrow> bool" where
  "registered R op k \<longleftrightarrow>
     (fst k, snd k, op) \<in> R \<or> (\<not> snd k \<and> (\<exists>q. (q, True, op) \<in> R \<and> owns q (fst k) \<and> q \<noteq> fst k))"

definition roots_ok :: "(string \<times> bool \<times> int) set \<Rightarrow> bool" where
  "roots_ok R \<longleftrightarrow> (\<forall>x \<in> R. \<forall>y \<in> R. owns (fst x) (fst y) \<longrightarrow> x = y)"

lemma registered_under: "registered R op k \<Longrightarrow> under R op (fst k)"
  unfolding registered_def under_def by (metis owns_refl)

lemma under_mono: "under R op p \<Longrightarrow> R \<subseteq> R' \<Longrightarrow> under R' op p"
  by (auto simp: under_def)

lemma registered_mono: "registered R op k \<Longrightarrow> R \<subseteq> R' \<Longrightarrow> registered R' op k"
  by (auto simp: registered_def)

lemma under_owns: "under R op p \<Longrightarrow> owns p p' \<Longrightarrow> under R op p'"
  unfolding under_def using owns_trans by blast

lemma roots_unique:
  assumes "roots_ok R" "(q, b, op) \<in> R" "(q', b', op') \<in> R" "owns q p" "owns q' p"
  shows "q = q' \<and> b = b' \<and> op = op'"
proof -
  have "(q, b, op) = (q', b', op')" using owns_linear [OF assms(4,5)] assms(1-3) unfolding roots_ok_def by (metis fst_conv)
  then show ?thesis by simp
qed

lemma under_unique: "roots_ok R \<Longrightarrow> under R op p \<Longrightarrow> under R op' p \<Longrightarrow> op = op'"
  unfolding under_def using roots_unique by blast

lemma registered_unique:
  assumes "roots_ok R" "registered R op (p, b)" "registered R op' (p, b')"
  shows "b = b'"
proof -
  have "\<exists>q c. (q, c, op) \<in> R \<and> owns q p \<and> (b = (c \<and> q = p))"
    using assms(2) unfolding registered_def by (cases b) fastforce+
  moreover have "\<exists>q c. (q, c, op') \<in> R \<and> owns q p \<and> (b' = (c \<and> q = p))"
    using assms(3) unfolding registered_def by (cases b') fastforce+
  ultimately show ?thesis using roots_unique [OF assms(1)] by metis
qed

lemma fresh_not_under: "fresh_path R p \<Longrightarrow> under R op p' \<Longrightarrow> \<not> owns p p' \<and> \<not> owns p' p"
proof -
  assume f: "fresh_path R p" and "under R op p'"
  then obtain q b where q: "(q, b, op) \<in> R" "owns q p'" by (auto simp: under_def)
  then have n: "\<not> owns q p" "\<not> owns p q" using f by (auto simp: fresh_path_def)
  then show ?thesis using owns_linear [OF q(2)] owns_trans q(2) by blast
qed


section \<open>The invariant\<close>

definition ops_ok :: "ip_state \<Rightarrow> (string \<times> bool \<times> int) set \<Rightarrow> bool" where
  "ops_ok st R \<longleftrightarrow> roots_ok R \<and> 0 \<le> operationid_seq st \<and>
     (\<forall>s. TransactionOperationId st s \<noteq> 0 \<longrightarrow> operation_locks st (TransactionOperationId st s) = Some s)"

text \<open>Open changes of a row are protected by the lock on its operation; a row below a prefix row exists only while
  an open transaction replaces the prefix.\<close>

definition rows_ok :: "in_progress_row list \<Rightarrow> (int \<Rightarrow> session option) \<Rightarrow> (string \<times> bool \<times> int) set \<Rightarrow> bool" where
  "rows_ok rows locks R \<longleftrightarrow> distinct (map r_path rows) \<and>
     (\<forall>r \<in> set rows. registered R (r_operation_id r) (row_key r) \<and>
        (\<forall>t. r_inserter r = Some t \<or> r_deleter r = Some t \<longrightarrow> locks (r_operation_id r) = Some t)) \<and>
     (\<forall>r \<in> set rows. \<forall>r' \<in> set rows. r_is_prefix r' \<and> owns (r_path r') (r_path r) \<and> r_path r' \<noteq> r_path r \<longrightarrow>
        (\<exists>t. r_deleter r' = Some t \<and> r_inserter r = Some t))"

definition next_ok :: "ip_state \<Rightarrow> (string \<times> bool \<times> int) set \<Rightarrow> session \<Rightarrow> InProgressEntry list \<Rightarrow> string list \<Rightarrow> bool" where
  "next_ok st R v es removed \<longleftrightarrow>
     TransactionOperationId st v = 0 \<and> (\<forall>e \<in> set es. registered R (e_operationId e) (entry_key e)) \<and>
     (\<forall>p \<in> set removed. \<exists>op. under R op p \<and> operation_locks st op = Some v)"

fun clean_ok :: "ip_state \<Rightarrow> (string \<times> bool \<times> int) set \<Rightarrow> session \<Rightarrow> cleanup \<Rightarrow> bool" where
  "clean_ok st R v Idle = True"
| "clean_ok st R v (Next es removed) = next_ok st R v es removed"
| "clean_ok st R v (Locked e es removed) =
     (next_ok st R v (e # es) removed \<and> operation_locks st (e_operationId e) = Some v)"
| "clean_ok st R v (Checked e es removed) =
     (next_ok st R v (e # es) removed \<and> operation_locks st (e_operationId e) = Some v \<and> e_path e \<in> r_path ` set (ip_rows st))"

definition kept_ok :: "ip_system \<Rightarrow> bool" where
  "kept_ok S \<longleftrightarrow> (\<forall>s. \<forall>k \<in> kept S s. TransactionOperationId (cur S) s \<noteq> 0 \<and>
     under (roots S) (TransactionOperationId (cur S) s) (fst k) \<and>
     (\<forall>r \<in> set (ip_rows (cur S)). \<forall>p. covers_key k p \<and> covers_key (row_key r) p \<longrightarrow> r_deleter r = Some s))"

definition written_ok :: "ip_system \<Rightarrow> bool" where
  "written_ok S \<longleftrightarrow> (\<forall>s. \<forall>p \<in> written S s. TransactionOperationId (cur S) s \<noteq> 0 \<and>
     under (roots S) (TransactionOperationId (cur S) s) p \<and> p \<in> set (remote_files (cur S)))"

definition live_ok :: "ip_system \<Rightarrow> bool" where
  "live_ok S \<longleftrightarrow> (\<forall>p \<in> live S. p \<in> set (remote_files (cur S)) \<and> (\<exists>op. under (roots S) op p) \<and>
     (\<forall>r \<in> set (ip_rows (cur S)). \<not> covers_key (row_key r) p))"

definition ip_inv :: "ip_system \<Rightarrow> bool" where
  "ip_inv S \<longleftrightarrow> ops_ok (cur S) (roots S) \<and> rows_ok (ip_rows (cur S)) (operation_locks (cur S)) (roots S) \<and>
     (\<forall>v. clean_ok (cur S) (roots S) v (cleanups (cur S) v)) \<and> kept_ok S \<and> written_ok S \<and> live_ok S"

lemma ip_inv_initial: "ip_inv (ip_initial files)"
  by (simp add: ip_inv_def ip_initial_def ops_ok_def rows_ok_def roots_ok_def kept_ok_def written_ok_def live_ok_def)

lemma clean_ok_cong:
  assumes "TransactionOperationId st' v = TransactionOperationId st v" "R \<subseteq> R'"
    "\<And>op. operation_locks st op = Some v \<Longrightarrow> operation_locks st' op = Some v"
    "\<And>p. p \<in> r_path ` set (ip_rows st) \<Longrightarrow> (\<exists>op. under R op p \<and> operation_locks st op = Some v) \<Longrightarrow> p \<in> r_path ` set (ip_rows st')"
    "clean_ok st R v c"
  shows "clean_ok st' R' v c"
proof -
  have n: "next_ok st' R' v es removed" if "next_ok st R v es removed" for es removed
    using that assms(1-3) registered_mono under_mono unfolding next_ok_def by metis
  show ?thesis
  proof (cases c)
    case (Checked e es removed)
    have l: "next_ok st R v (e # es) removed" "operation_locks st (e_operationId e) = Some v" "e_path e \<in> r_path ` set (ip_rows st)"
      using assms(5) Checked by simp_all
    have "registered R (e_operationId e) (entry_key e)" using l(1) by (simp add: next_ok_def)
    then have "under R (e_operationId e) (e_path e)" using registered_under by (fastforce simp: entry_key_def)
    then show ?thesis using n [OF l(1)] l(2) assms(3) assms(4) [OF l(3)] Checked by auto
  qed (use assms(3,5) n in auto)
qed

text \<open>Marking rows as deleted by a session that holds their locks.\<close>

definition mark_deleted :: "session \<Rightarrow> (in_progress_row \<Rightarrow> bool) \<Rightarrow> in_progress_row \<Rightarrow> in_progress_row" where
  "mark_deleted s P r = (if P r then r\<lparr>r_deleter := Some s\<rparr> else r)"

lemma mark_deleted_simps [simp]:
  "r_path (mark_deleted s P r) = r_path r" "r_is_prefix (mark_deleted s P r) = r_is_prefix r"
  "r_operation_id (mark_deleted s P r) = r_operation_id r" "r_inserter (mark_deleted s P r) = r_inserter r"
  "row_key (mark_deleted s P r) = row_key r"
  "r_deleter (mark_deleted s P r) = (if P r then Some s else r_deleter r)"
  by (simp_all add: mark_deleted_def row_key_def)

lemma rows_ok_mark:
  assumes "rows_ok rows locks R" "\<And>r. r \<in> set rows \<Longrightarrow> P r \<Longrightarrow> r_deleter r = None \<and> locks (r_operation_id r) = Some s"
  shows "rows_ok (map (mark_deleted s P) rows) locks R"
proof -
  have d: "distinct (map r_path (map (mark_deleted s P) rows))" using assms(1) by (simp add: rows_ok_def comp_def)
  have 1: "registered R (r_operation_id r) (row_key r) \<and> (\<forall>t. r_inserter r = Some t \<or> r_deleter r = Some t \<longrightarrow> locks (r_operation_id r) = Some t)"
    if "r \<in> set (map (mark_deleted s P) rows)" for r
    using that assms unfolding rows_ok_def by (auto split: if_splits)
  have 2: "\<exists>t. r_deleter r' = Some t \<and> r_inserter r = Some t"
    if h: "r \<in> set (map (mark_deleted s P) rows)" "r' \<in> set (map (mark_deleted s P) rows)"
      "r_is_prefix r' \<and> owns (r_path r') (r_path r) \<and> r_path r' \<noteq> r_path r" for r r'
  proof -
    obtain a a' where a: "a \<in> set rows" "r = mark_deleted s P a" "a' \<in> set rows" "r' = mark_deleted s P a'" using h(1,2) by auto
    then obtain t where "r_deleter a' = Some t \<and> r_inserter a = Some t" using assms(1) h(3) unfolding rows_ok_def by force
    then show ?thesis using assms(2) [OF a(3)] a by auto
  qed
  show ?thesis using d 1 2 unfolding rows_ok_def by blast
qed

lemma inv_mark:
  assumes inv: "ip_inv S"
    and P: "\<And>r. r \<in> set (ip_rows (cur S)) \<Longrightarrow> P r \<Longrightarrow> r_deleter r = None \<and> operation_locks (cur S) (r_operation_id r) = Some s"
  shows "ip_inv (S\<lparr>cur := (cur S)\<lparr>ip_rows := map (mark_deleted s P) (ip_rows (cur S))\<rparr>\<rparr>)"
proof -
  have "clean_ok ((cur S)\<lparr>ip_rows := map (mark_deleted s P) (ip_rows (cur S))\<rparr>) (roots S) v (cleanups (cur S) v)" for v
    by (rule clean_ok_cong [of _ v "cur S" "roots S"]) (use inv in \<open>auto simp: ip_inv_def image_image\<close>)
  moreover have "kept_ok (S\<lparr>cur := (cur S)\<lparr>ip_rows := map (mark_deleted s P) (ip_rows (cur S))\<rparr>\<rparr>)"
    using inv P unfolding ip_inv_def kept_ok_def by fastforce
  moreover have "rows_ok (map (mark_deleted s P) (ip_rows (cur S))) (operation_locks (cur S)) (roots S)"
    using inv P by (intro rows_ok_mark) (simp_all add: ip_inv_def)
  ultimately show ?thesis using inv by (simp add: ip_inv_def ops_ok_def written_ok_def live_ok_def)
qed

lemma Delete_cases:
  assumes "DeleteInProgressFileRecords s paths st = Some st'"
  defines "P \<equiv> \<lambda>r. visible s r \<and> r_path r \<in> set paths"
  shows "st' = st\<lparr>ip_rows := map (mark_deleted s P) (ip_rows st)\<rparr>" "\<And>r. r \<in> set (ip_rows st) \<Longrightarrow> P r \<Longrightarrow> r_deleter r = None"
proof -
  have e: "map (mark_deleted s P) (ip_rows st) = ip_rows st" if "paths = []"
    using that by (simp add: P_def mark_deleted_def map_idI)
  show "st' = st\<lparr>ip_rows := map (mark_deleted s P) (ip_rows st)\<rparr>" "\<And>r. r \<in> set (ip_rows st) \<Longrightarrow> P r \<Longrightarrow> r_deleter r = None"
    using assms(1) e by (auto simp: DeleteInProgressFileRecords_def P_def mark_deleted_def [abs_def] list_ex_iff split: if_splits)
qed

lemma registered_row_op:
  assumes "ip_inv S" "r \<in> set (ip_rows (cur S))" "under (roots S) op (r_path r)"
  shows "r_operation_id r = op"
proof -
  have "registered (roots S) (r_operation_id r) (row_key r)" "roots_ok (roots S)" using assms by (simp_all add: ip_inv_def rows_ok_def ops_ok_def)
  then show ?thesis using registered_under [of "roots S" "r_operation_id r" "row_key r"] under_unique assms(3) by (simp add: row_key_def)
qed

lemma same_path_row:
  assumes "ip_inv S" "r \<in> set (ip_rows (cur S))" "r' \<in> set (ip_rows (cur S))" "r_path r = r_path r'"
  shows "r = r'"
  using assms by (auto simp: ip_inv_def rows_ok_def distinct_map inj_on_def)

lemma clean_step_inv:
  assumes "ip_inv S" "clean_ok (cur S) (roots S) s c"
  shows "ip_inv (S\<lparr>cur := (cur S)\<lparr>cleanups := (cleanups (cur S))(s := c)\<rparr>\<rparr>)"
proof -
  have cong: "clean_ok ((cur S)\<lparr>cleanups := f\<rparr>) (roots S) v d = clean_ok (cur S) (roots S) v d" for v d f
    by (cases d) (simp_all add: next_ok_def)
  show ?thesis using assms by (simp add: ip_inv_def cong kept_ok_def written_ok_def live_ok_def ops_ok_def)
qed

lemma clean_finish_inv:
  assumes inv: "ip_inv S" and c: "cleanups (cur S) s = Next [] removed" and d: "DeleteInProgressFileRecords s removed (cur S) = Some st"
  shows "ip_inv (S\<lparr>cur := st\<lparr>cleanups := (cleanups st)(s := Idle)\<rparr>\<rparr>)"
proof -
  let ?P = "\<lambda>r. visible s r \<and> r_path r \<in> set removed"
  note st = Delete_cases [OF d]
  have n: "next_ok (cur S) (roots S) s [] removed" using inv c unfolding ip_inv_def by (metis clean_ok.simps(2))
  have "operation_locks (cur S) (r_operation_id r) = Some s" if r: "r \<in> set (ip_rows (cur S))" "?P r" for r
  proof -
    obtain op where "under (roots S) op (r_path r)" "operation_locks (cur S) op = Some s" using n r(2) by (auto simp: next_ok_def)
    then show ?thesis using registered_row_op [OF inv r(1)] by blast
  qed
  then have "ip_inv (S\<lparr>cur := st\<rparr>)" using inv_mark [OF inv, of ?P s] st by simp
  from clean_step_inv [OF this, of s Idle] show ?thesis by simp
qed

lemma clean_lock_inv:
  assumes inv: "ip_inv S" and c: "cleanups (cur S) s = Next (e # es) removed"
    and l: "TryLockTransactionOperationId (e_operationId e) s (cur S) = (locked, st)"
  shows "ip_inv (S\<lparr>cur := st\<lparr>cleanups := (cleanups st)(s := (if locked then Locked e es removed else Next es removed))\<rparr>\<rparr>)"
proof -
  have n: "next_ok (cur S) (roots S) s (e # es) removed" using inv c unfolding ip_inv_def by (metis clean_ok.simps(2))
  obtain locks where st: "st = (cur S)\<lparr>operation_locks := locks\<rparr>" "\<And>op t. operation_locks (cur S) op = Some t \<Longrightarrow> locks op = Some t"
    "locked \<Longrightarrow> locks (e_operationId e) = Some s"
  proof (cases "operation_locks (cur S) (e_operationId e)")
    case None
    show ?thesis
      by (rule that [of "(operation_locks (cur S))(e_operationId e := Some s)"])
        (use l None in \<open>auto simp: TryLockTransactionOperationId_def\<close>)
  next
    case (Some t)
    then show ?thesis using l that [of "operation_locks (cur S)"] by (simp add: TryLockTransactionOperationId_def)
  qed
  have "clean_ok st (roots S) v (cleanups (cur S) v)" for v
    by (rule clean_ok_cong [of _ v "cur S" "roots S"]) (use inv st in \<open>auto simp: ip_inv_def\<close>)
  then have i: "ip_inv (S\<lparr>cur := st\<rparr>)"
    using inv st(1,2) by (simp add: ip_inv_def ops_ok_def rows_ok_def kept_ok_def written_ok_def live_ok_def)
  have "next_ok st (roots S) s (e # es) removed" using n st(1,2) unfolding next_ok_def by fastforce
  then have "clean_ok st (roots S) s (if locked then Locked e es removed else Next es removed)"
    using st(1,3) by (simp add: next_ok_def)
  then show ?thesis using clean_step_inv [OF i, of s] by simp
qed

lemma clean_start_inv:
  assumes inv: "ip_inv S" and op: "TransactionOperationId (cur S) s = 0"
    and g: "GetInProgressFileRecords ilike s loc isFull (cur S) = (remaining, entries)"
  shows "ip_inv (S\<lparr>cur := (cur S)\<lparr>cleanups := (cleanups (cur S))(s := Next entries [])\<rparr>\<rparr>)"
proof -
  have "set entries \<subseteq> (\<lambda>r. \<lparr>e_path = r_path r, e_operationId = r_operation_id r, e_isPrefix = r_is_prefix r\<rparr>) ` set (ip_rows (cur S))"
    using g by (auto simp: GetInProgressFileRecords_def Let_def split: if_splits dest!: in_set_takeD)
  then have "\<forall>e \<in> set entries. registered (roots S) (e_operationId e) (entry_key e)"
    using inv by (force simp: ip_inv_def rows_ok_def row_key_def entry_key_def)
  then show ?thesis using clean_step_inv [OF inv, of s "Next entries []"] op by (simp add: next_ok_def)
qed

lemma clean_check_inv:
  assumes inv: "ip_inv S" and c: "cleanups (cur S) s = Locked e es removed"
  shows "ip_inv (S\<lparr>cur := (cur S)\<lparr>cleanups := (cleanups (cur S))(s :=
    (if FileInProgressRecordExists s (e_path e) (cur S) then Checked e es removed else Next es removed))\<rparr>\<rparr>)"
proof -
  have "clean_ok (cur S) (roots S) s (Locked e es removed)" using inv c unfolding ip_inv_def by metis
  then show ?thesis
    by (intro clean_step_inv [OF inv]) (auto simp: next_ok_def FileInProgressRecordExists_def list_ex_iff intro: rev_image_eqI)
qed

lemma clean_remove_inv:
  assumes inv: "ip_inv S" and c: "cleanups (cur S) s = Checked e es removed"
  shows "ip_inv (S\<lparr>cur := (remove_remote removes e (cur S))\<lparr>cleanups := (cleanups (cur S))(s := Next es (removed @ [e_path e]))\<rparr>\<rparr>)"
proof -
  have ok: "next_ok (cur S) (roots S) s (e # es) removed" "operation_locks (cur S) (e_operationId e) = Some s"
    "e_path e \<in> r_path ` set (ip_rows (cur S))" using inv c unfolding ip_inv_def by (metis clean_ok.simps(4))+
  have R: "roots_ok (roots S)" and reg: "registered (roots S) (e_operationId e) (entry_key e)" and op: "TransactionOperationId (cur S) s = 0"
    using inv ok(1) by (simp_all add: ip_inv_def ops_ok_def next_ok_def)
  then have u: "under (roots S) (e_operationId e) (e_path e)" using registered_under by (fastforce simp: entry_key_def)
  have w: "\<not> covers e p" if p: "p \<in> written S t" for p t
  proof
    assume "covers e p"
    then have "under (roots S) (e_operationId e) p" using under_owns [OF u] covers_key_owns by (fastforce simp: covers_entry entry_key_def)
    moreover have t: "TransactionOperationId (cur S) t \<noteq> 0" "under (roots S) (TransactionOperationId (cur S) t) p"
      using inv p by (auto simp: ip_inv_def written_ok_def)
    ultimately have "e_operationId e = TransactionOperationId (cur S) t" using under_unique [OF R] by blast
    then have "t = s" using inv ok(2) t(1) by (auto simp: ip_inv_def ops_ok_def)
    then show False using t(1) op by simp
  qed
  have l: "\<not> covers e p" if p: "p \<in> live S" for p
  proof
    assume "covers e p"
    obtain r where r: "r \<in> set (ip_rows (cur S))" "r_path r = e_path e" using ok(3) by (metis imageE)
    then have "registered (roots S) (r_operation_id r) (e_path e, r_is_prefix r)" using inv by (auto simp: ip_inv_def rows_ok_def row_key_def)
    then have "row_key r = entry_key e" using registered_unique [OF R _ reg [unfolded entry_key_def]] r(2) by (simp add: row_key_def entry_key_def)
    then have "covers_key (row_key r) p" using \<open>covers e p\<close> by (simp add: covers_entry)
    then show False using inv p r(1) by (auto simp: ip_inv_def live_ok_def)
  qed
  have "clean_ok (remove_remote removes e (cur S)) (roots S) v (cleanups (cur S) v)" for v
    by (rule clean_ok_cong [of _ v "cur S" "roots S"]) (use inv in \<open>auto simp: ip_inv_def remove_remote_def\<close>)
  then have i: "ip_inv (S\<lparr>cur := remove_remote removes e (cur S)\<rparr>)"
    using inv w l by (simp add: ip_inv_def remove_remote_def ops_ok_def rows_ok_def kept_ok_def written_ok_def live_ok_def)
  have "next_ok (remove_remote removes e (cur S)) (roots S) s es (removed @ [e_path e])"
    using ok(1,2) u unfolding next_ok_def remove_remote_def by auto
  then show ?thesis using clean_step_inv [OF i, of s "Next es (removed @ [e_path e])"] by (simp add: remove_remote_def)
qed


section \<open>Transactions keep the invariant\<close>

lemma get_and_lock:
  assumes g: "GetTransactionOperationId s st = (op, st0)" and l: "LockTransactionOperationId op s st0 = Some st1" and ok: "ops_ok st R"
  shows "ip_rows st1 = ip_rows st" "remote_files st1 = remote_files st" "cleanups st1 = cleanups st" "TransactionOperationId st1 s = op"
    "op \<noteq> 0" "operation_locks st1 op = Some s" "\<And>o' t. operation_locks st o' = Some t \<Longrightarrow> operation_locks st1 o' = Some t"
    "\<And>t. t \<noteq> s \<or> TransactionOperationId st s \<noteq> 0 \<Longrightarrow> TransactionOperationId st1 t = TransactionOperationId st t"
    "0 \<le> operationid_seq st1"
proof -
  have 0: "ip_rows st0 = ip_rows st" "remote_files st0 = remote_files st" "cleanups st0 = cleanups st" "TransactionOperationId st0 s = op"
    "op \<noteq> 0" "operation_locks st0 = operation_locks st" "0 \<le> operationid_seq st0"
    "\<And>t. t \<noteq> s \<or> TransactionOperationId st s \<noteq> 0 \<Longrightarrow> TransactionOperationId st0 t = TransactionOperationId st t"
    using g ok by (auto simp: GetTransactionOperationId_def GetNextTransactionOperationId_def ops_ok_def split: if_splits)
  obtain locks where 1: "st1 = st0\<lparr>operation_locks := locks\<rparr>" "locks op = Some s" "\<And>o' t. operation_locks st0 o' = Some t \<Longrightarrow> locks o' = Some t"
    using l by (cases "operation_locks st0 op") (force simp: LockTransactionOperationId_def split: if_splits)+
  show "ip_rows st1 = ip_rows st" "remote_files st1 = remote_files st" "cleanups st1 = cleanups st" "TransactionOperationId st1 s = op"
    "op \<noteq> 0" "operation_locks st1 op = Some s" "\<And>o' t. operation_locks st o' = Some t \<Longrightarrow> operation_locks st1 o' = Some t"
    "\<And>t. t \<noteq> s \<or> TransactionOperationId st s \<noteq> 0 \<Longrightarrow> TransactionOperationId st1 t = TransactionOperationId st t"
    "0 \<le> operationid_seq st1" using 0 1 by simp_all
qed

text \<open>Registering a fresh path.\<close>

lemma insert_row_inv:
  fixes isPrefix :: bool
  assumes inv: "ip_inv S" and idle: "cleanups (cur S) s = Idle" and fresh: "fresh_path (roots S) path"
    and g: "GetTransactionOperationId s (cur S) = (op, st0)" and l: "LockTransactionOperationId op s st0 = Some st1"
    and new: "path \<notin> r_path ` set (ip_rows st1)"
  defines "r0 \<equiv> \<lparr>r_path = path, r_operation_id = op, r_is_prefix = isPrefix, r_inserter = None, r_deleter = None\<rparr>"
  shows "ip_inv (S\<lparr>cur := st1\<lparr>ip_rows := ip_rows st1 @ [r0]\<rparr>, roots := insert (path, isPrefix, op) (roots S)\<rparr>)"
proof -
  let ?R = "insert (path, isPrefix, op) (roots S)" and ?st = "st1\<lparr>ip_rows := ip_rows st1 @ [r0]\<rparr>"
  let ?S = "S\<lparr>cur := ?st, roots := ?R\<rparr>"
  have ops: "ops_ok (cur S) (roots S)" and rows: "rows_ok (ip_rows (cur S)) (operation_locks (cur S)) (roots S)"
    using inv by (simp_all add: ip_inv_def)
  note st = get_and_lock [OF g l ops]
  have sub: "roots S \<subseteq> ?R" by blast
  have "ops_ok ?st ?R"
  proof -
    have "roots_ok ?R" using ops fresh by (auto simp: ops_ok_def roots_ok_def fresh_path_def)
    moreover have "operation_locks st1 (TransactionOperationId st1 t) = Some t" if "TransactionOperationId st1 t \<noteq> 0" for t
      using that st ops unfolding ops_ok_def by (cases "t = s") metis+
    ultimately show ?thesis using st(9) by (simp add: ops_ok_def)
  qed
  moreover have "rows_ok (ip_rows st1 @ [r0]) (operation_locks st1) ?R"
  proof -
    have apart: "\<not> owns path (r_path r) \<and> \<not> owns (r_path r) path" if "r \<in> set (ip_rows (cur S))" for r
      using fresh_not_under [OF fresh, of "r_operation_id r"] registered_under [of "roots S" "r_operation_id r" "row_key r"] rows that
      by (auto simp: rows_ok_def row_key_def)
    have "registered ?R op (path, isPrefix)" by (simp add: registered_def)
    then show ?thesis
      using rows new st(1,7) apart registered_mono [OF _ sub] by (auto simp: rows_ok_def r0_def row_key_def)
  qed
  moreover have "clean_ok ?st ?R v (cleanups st1 v)" for v
  proof (cases "v = s")
    case True
    then show ?thesis using idle st(3) by simp
  next
    case False
    have "clean_ok (cur S) (roots S) v (cleanups st1 v)" using inv st(3) by (simp add: ip_inv_def)
    then show ?thesis by (rule clean_ok_cong [OF _ sub, rotated -1]) (use False st(1,7,8) in auto)
  qed
  moreover have "kept_ok ?S"
  proof -
    have "TransactionOperationId st1 t = TransactionOperationId (cur S) t" if "k \<in> kept S t" for k t
      using inv that st(8) by (cases "t = s") (auto simp: ip_inv_def kept_ok_def)
    moreover have "\<not> (covers_key k p \<and> covers_key (row_key r0) p)" if "k \<in> kept S t" for k t p
    proof
      assume c: "covers_key k p \<and> covers_key (row_key r0) p"
      have "under (roots S) (TransactionOperationId (cur S) t) (fst k)" using inv that by (simp add: ip_inv_def kept_ok_def)
      moreover have "owns (fst k) p" "owns path p" using c covers_key_owns by (fastforce simp: row_key_def r0_def)+
      ultimately show False using fresh_not_under [OF fresh] owns_linear by blast
    qed
    ultimately show ?thesis using inv st(1) under_mono [OF _ sub] unfolding ip_inv_def kept_ok_def by auto
  qed
  moreover have "written_ok ?S"
  proof -
    have "TransactionOperationId st1 t = TransactionOperationId (cur S) t" if "p \<in> written S t" for p t
      using inv that st(8) by (cases "t = s") (auto simp: ip_inv_def written_ok_def)
    then show ?thesis using inv st(2) under_mono [OF _ sub] unfolding ip_inv_def written_ok_def by auto
  qed
  moreover have "live_ok ?S"
  proof -
    have n: "\<not> covers_key (row_key r0) p" if p: "p \<in> live S" for p
    proof
      assume "covers_key (row_key r0) p"
      then have "owns path p" using covers_key_owns by (fastforce simp: row_key_def r0_def)
      moreover obtain o' where "under (roots S) o' p" using inv p by (auto simp: ip_inv_def live_ok_def)
      ultimately show False using fresh_not_under [OF fresh] by blast
    qed
    have "live_ok S" using inv by (simp add: ip_inv_def)
    then show ?thesis using n st(1,2) under_mono [OF _ sub] by (simp add: live_ok_def) blast
  qed
  ultimately show ?thesis by (simp add: ip_inv_def)
qed

lemma insert_step_inv:
  assumes inv: "ip_inv S" and idle: "cleanups (cur S) s = Idle" and fresh: "fresh_path (roots S) path"
    and r: "InsertInProgressFileRecordExtended s False True path isPrefix auto (cur S) = Some (Inr st)"
  shows "ip_inv (S\<lparr>cur := st, roots := insert (path, isPrefix, TransactionOperationId st s) (roots S),
    kept := (if auto then (kept S)(s := insert (path, isPrefix) (kept S s)) else kept S)\<rparr>)"
proof -
  obtain op st0 where g: "GetTransactionOperationId s (cur S) = (op, st0)" by (metis surj_pair)
  obtain st1 where l: "LockTransactionOperationId op s st0 = Some st1"
    using r g by (auto simp: InsertInProgressFileRecordExtended_def split: option.splits)
  define r0 where "r0 = \<lparr>r_path = path, r_operation_id = op, r_is_prefix = isPrefix, r_inserter = None, r_deleter = None\<rparr>"
  define st2 where "st2 = st1\<lparr>ip_rows := ip_rows st1 @ [r0]\<rparr>"
  have new: "path \<notin> r_path ` set (ip_rows st1)" and a: "insert_attached path op isPrefix st1 = Some (Inr st2)"
    and d: "(if auto then map_option Inr (DeleteInProgressFileRecord s path st2) else Some (Inr st2)) = Some (Inr st)"
    using r g l by (auto simp: InsertInProgressFileRecordExtended_def insert_attached_def Let_def filter_empty_conv st2_def r0_def
        split: option.splits sum.splits if_splits)
  have ops: "ops_ok (cur S) (roots S)" using inv by (simp add: ip_inv_def)
  note st1 = get_and_lock [OF g l ops]
  define S2 where "S2 = S\<lparr>cur := st2, roots := insert (path, isPrefix, op) (roots S)\<rparr>"
  have i2: "ip_inv S2" unfolding S2_def st2_def r0_def by (rule insert_row_inv [OF inv idle fresh g l new])
  show ?thesis
  proof (cases auto)
    case False
    then have "st = st2" using d by simp
    moreover have "TransactionOperationId st2 s = op" using st1(4) by (simp add: st2_def)
    ultimately show ?thesis using i2 False by (simp add: S2_def)
  next
    case True
    then have "DeleteInProgressFileRecords s [path] st2 = Some st" using d by (simp add: DeleteInProgressFileRecord_def)
    note dc = Delete_cases [OF this]
    let ?P = "\<lambda>r. visible s r \<and> r_path r \<in> set [path]"
    have only: "r = r0" if "r \<in> set (ip_rows st2)" "r_path r = path" for r using that new by (auto simp: st2_def)
    have "operation_locks st2 (r_operation_id r) = Some s" if "r \<in> set (ip_rows st2)" "?P r" for r
      using only [OF that(1)] that(2) st1(6) by (simp add: st2_def r0_def)
    then have i3: "ip_inv (S2\<lparr>cur := st\<rparr>)" using inv_mark [OF i2, of ?P s] dc by (simp add: S2_def)
    have op: "TransactionOperationId st s = op" using dc(1) st1(4) by (simp add: st2_def)
    have del: "r_deleter r = Some s" if r: "r \<in> set (ip_rows st)" "covers_key (path, isPrefix) p" "covers_key (row_key r) p" for r p
    proof -
      obtain b where b: "b \<in> set (ip_rows st2)" "r = mark_deleted s ?P b" using r(1) dc(1) by auto
      have "b = r0"
      proof (rule ccontr)
        assume "b \<noteq> r0"
        then have "b \<in> set (ip_rows (cur S))" using b(1) st1(1) by (auto simp: st2_def)
        then have "under (roots S) (r_operation_id b) (r_path b)"
          using inv registered_under [of "roots S" "r_operation_id b" "row_key b"] by (auto simp: ip_inv_def rows_ok_def row_key_def)
        moreover have "owns path p" "owns (r_path b) p" using covers_key_owns [OF r(2)] covers_key_owns [OF r(3)] b(2) by (simp_all add: row_key_def)
        ultimately show False using fresh_not_under [OF fresh] owns_linear by blast
      qed
      then show ?thesis using b(2) by (simp add: visible_def r0_def)
    qed
    have "under (insert (path, isPrefix, op) (roots S)) op path" by (auto simp: under_def)
    then show ?thesis using i3 del True op st1(5) unfolding S2_def
      by (auto simp: ip_inv_def kept_ok_def written_ok_def live_ok_def)
  qed
qed

lemma write_step_inv:
  assumes "ip_inv S" "TransactionOperationId (cur S) s \<noteq> 0" "(q, b, TransactionOperationId (cur S) s) \<in> roots S" "owns q p"
  shows "ip_inv (S\<lparr>cur := (cur S)\<lparr>remote_files := remote_files (cur S) @ [p]\<rparr>, written := (written S)(s := insert p (written S s))\<rparr>)"
proof -
  have "clean_ok ((cur S)\<lparr>remote_files := remote_files (cur S) @ [p]\<rparr>) (roots S) v (cleanups (cur S) v)" for v
    by (rule clean_ok_cong [of _ v "cur S" "roots S"]) (use assms(1) in \<open>auto simp: ip_inv_def\<close>)
  moreover have "under (roots S) (TransactionOperationId (cur S) s) p" using assms(3,4) by (auto simp: under_def)
  ultimately show ?thesis
    using assms(1,2) by (simp add: ip_inv_def ops_ok_def kept_ok_def written_ok_def live_ok_def)
qed


lemma replace_cases:
  assumes "ReplaceInProgressPrefixPathWithFullPaths s q paths st = Some (Inr st')"
  defines "P \<equiv> \<lambda>r. visible s r \<and> r_path r = q \<and> r_is_prefix r"
  shows "\<exists>inserted. st' = st\<lparr>ip_rows := map (mark_deleted s P) (ip_rows st) @ inserted\<rparr> \<and>
    (\<forall>r \<in> set (ip_rows st). P r \<longrightarrow> r_deleter r = None) \<and> distinct (map r_path inserted) \<and>
    r_path ` set inserted \<inter> r_path ` set (ip_rows st) = {} \<and>
    (\<forall>n \<in> set inserted. r_path n \<in> set paths \<and> \<not> r_is_prefix n \<and> r_inserter n = Some s \<and> r_deleter n = None \<and>
       (\<exists>r \<in> set (ip_rows st). P r \<and> r_operation_id n = r_operation_id r))"
proof -
  define inserted where "inserted = concat (map (\<lambda>operationId. map (\<lambda>p.
     \<lparr>r_path = p, r_operation_id = operationId, r_is_prefix = False, r_inserter = Some s, r_deleter = None\<rparr>) paths)
       (map r_operation_id (filter P (ip_rows st))))"
  have c: "\<not> list_ex (\<lambda>r. P r \<and> r_deleter r \<noteq> None) (ip_rows st)"
    "\<not> list_ex (\<lambda>r. r_path r \<in> set (map r_path inserted)) (ip_rows st)" "distinct (map r_path inserted)"
    "st' = st\<lparr>ip_rows := map (\<lambda>r. if P r then r\<lparr>r_deleter := Some s\<rparr> else r) (ip_rows st) @ inserted\<rparr>"
    using assms(1) unfolding ReplaceInProgressPrefixPathWithFullPaths_def Let_def P_def [symmetric] inserted_def [symmetric]
    by (auto split: if_splits)
  have "r_path n \<in> set paths \<and> \<not> r_is_prefix n \<and> r_inserter n = Some s \<and> r_deleter n = None \<and>
    (\<exists>r \<in> set (ip_rows st). P r \<and> r_operation_id n = r_operation_id r)" if "n \<in> set inserted" for n
    using that by (auto simp: inserted_def)
  moreover have "r_path ` set inserted \<inter> r_path ` set (ip_rows st) = {}"
  proof (rule equals0I)
    fix x
    assume "x \<in> r_path ` set inserted \<inter> r_path ` set (ip_rows st)"
    then obtain r where r: "r \<in> set (ip_rows st)" "x = r_path r" "x \<in> r_path ` set inserted" by blast
    then show False using c(2) unfolding list_ex_iff set_map by metis
  qed
  moreover have "map (\<lambda>r. if P r then r\<lparr>r_deleter := Some s\<rparr> else r) (ip_rows st) = map (mark_deleted s P) (ip_rows st)"
    by (simp add: mark_deleted_def)
  ultimately show ?thesis using c by (intro exI [of _ inserted]) (simp add: list_ex_iff)
qed

lemma replace_step_inv:
  assumes inv: "ip_inv S" and op: "TransactionOperationId (cur S) s \<noteq> 0" and root: "(q, True, TransactionOperationId (cur S) s) \<in> roots S"
    and paths: "\<forall>p \<in> set paths. owns q p \<and> p \<noteq> q"
    and r: "ReplaceInProgressPrefixPathWithFullPaths s q paths (cur S) = Some (Inr st)"
  shows "ip_inv (S\<lparr>cur := st\<rparr>)"
proof -
  let ?P = "\<lambda>r. visible s r \<and> r_path r = q \<and> r_is_prefix r" and ?op = "TransactionOperationId (cur S) s"
  obtain inserted where i: "st = (cur S)\<lparr>ip_rows := map (mark_deleted s ?P) (ip_rows (cur S)) @ inserted\<rparr> \<and>
    (\<forall>r \<in> set (ip_rows (cur S)). ?P r \<longrightarrow> r_deleter r = None) \<and> distinct (map r_path inserted) \<and>
    r_path ` set inserted \<inter> r_path ` set (ip_rows (cur S)) = {} \<and>
    (\<forall>n \<in> set inserted. r_path n \<in> set paths \<and> \<not> r_is_prefix n \<and> r_inserter n = Some s \<and> r_deleter n = None \<and>
       (\<exists>r \<in> set (ip_rows (cur S)). ?P r \<and> r_operation_id n = r_operation_id r))"
    using replace_cases [OF r] by (rule exE)
  note st = conjunct1 [OF i] and dist = i [THEN conjunct2, THEN conjunct2, THEN conjunct1] i [THEN conjunct2, THEN conjunct2, THEN conjunct2, THEN conjunct1]
  note none = i [THEN conjunct2, THEN conjunct1, rule_format] and ins = i [THEN conjunct2, THEN conjunct2, THEN conjunct2, THEN conjunct2, rule_format]
  have u: "under (roots S) ?op q" using root by (auto simp: under_def)
  have own: "r_operation_id r = ?op" if "r \<in> set (ip_rows (cur S))" "r_path r = q" for r
    using registered_row_op [OF inv that(1)] u that(2) by simp
  have lock: "operation_locks (cur S) ?op = Some s" using inv op by (simp add: ip_inv_def ops_ok_def)
  define S1 where "S1 = S\<lparr>cur := (cur S)\<lparr>ip_rows := map (mark_deleted s ?P) (ip_rows (cur S))\<rparr>\<rparr>"
  have i1: "ip_inv S1" unfolding S1_def by (rule inv_mark [OF inv]) (use none own lock in auto)
  let ?rows = "map (mark_deleted s ?P) (ip_rows (cur S))"
  have r1: "rows_ok ?rows (operation_locks (cur S)) (roots S)" and R: "roots_ok (roots S)"
    using i1 by (simp_all add: S1_def ip_inv_def ops_ok_def)
  have new: "r_operation_id n = ?op \<and> owns q (r_path n) \<and> q \<noteq> r_path n \<and> (\<exists>r \<in> set (ip_rows (cur S)). ?P r)" if "n \<in> set inserted" for n
    using ins [OF that] own paths by (metis (no_types, lifting))
  have covered: "\<exists>r \<in> set (ip_rows (cur S)). ?P r \<and> covers_key (row_key r) (r_path n)" if "n \<in> set inserted" for n
    using new [OF that] owns_strict [of q "r_path n"] by (auto simp: covers_key_def row_key_def)
  have "rows_ok (?rows @ inserted) (operation_locks (cur S)) (roots S)"
  proof -
    have d: "distinct (map r_path (?rows @ inserted))"
      using r1 dist by (auto simp: rows_ok_def comp_def)
    have a: "registered (roots S) (r_operation_id n) (row_key n) \<and>
      (\<forall>t. r_inserter n = Some t \<or> r_deleter n = Some t \<longrightarrow> operation_locks (cur S) (r_operation_id n) = Some t)" if "n \<in> set inserted" for n
      using new [OF that] ins [OF that] root lock by (auto simp: registered_def row_key_def)
    have b: "\<exists>t. r_deleter r' = Some t \<and> r_inserter n = Some t"
      if n: "n \<in> set inserted" and r': "r' \<in> set ?rows" "r_is_prefix r'" "owns (r_path r') (r_path n)" for n r'
    proof -
      have reg: "(r_path r', True, r_operation_id r') \<in> roots S"
        using r1 r'(1,2) by (auto simp: rows_ok_def registered_def row_key_def)
      then have "r_path r' = q" using roots_unique [OF R reg root r'(3)] new [OF n] by blast
      moreover obtain b where b: "b \<in> set (ip_rows (cur S))" "r' = mark_deleted s ?P b" using r'(1) by auto
      moreover obtain c where "c \<in> set (ip_rows (cur S))" "?P c" using new [OF n] by blast
      ultimately have "?P b" using same_path_row [OF inv b(1), of c] by auto
      then show ?thesis using b(2) ins [OF n] by simp
    qed
    define rows where "rows = ?rows"
    have c: "\<exists>t. r_deleter r' = Some t \<and> r_inserter r = Some t"
      if h: "r \<in> set (rows @ inserted)" "r' \<in> set (rows @ inserted)" "r_is_prefix r' \<and> owns (r_path r') (r_path r) \<and> r_path r' \<noteq> r_path r" for r r'
    proof -
      have "r' \<notin> set inserted" using h(3) ins by blast
      then have r': "r' \<in> set rows" using h(2) by simp
      consider "r \<in> set inserted" | "r \<in> set rows" using h(1) by auto
      then show ?thesis
      proof cases
        case 1
        then show ?thesis using b r' h(3) unfolding rows_def by blast
      next
        case 2
        then show ?thesis using r1 r' h(3) unfolding rows_def rows_ok_def by blast
      qed
    qed
    have e: "registered (roots S) (r_operation_id r) (row_key r) \<and>
      (\<forall>t. r_inserter r = Some t \<or> r_deleter r = Some t \<longrightarrow> operation_locks (cur S) (r_operation_id r) = Some t)"
      if h: "r \<in> set (rows @ inserted)" for r
    proof -
      consider "r \<in> set inserted" | "r \<in> set rows" using h by auto
      then show ?thesis using a r1 unfolding rows_def rows_ok_def by cases blast+
    qed
    show ?thesis unfolding rows_ok_def rows_def [symmetric] using d [folded rows_def] c e by blast
  qed
  moreover have "clean_ok st (roots S) v (cleanups (cur S) v)" for v
  proof -
    have "clean_ok (cur S) (roots S) v (cleanups (cur S) v)" using inv by (simp add: ip_inv_def)
    then show ?thesis by (rule clean_ok_cong [OF _ subset_refl, rotated -1]) (auto simp: st image_Un image_image)
  qed
  moreover have "kept_ok (S\<lparr>cur := st\<rparr>)"
  proof -
    have "\<not> (covers_key k p \<and> covers_key (row_key n) p)" if k: "k \<in> kept S t" and n: "n \<in> set inserted" for k t n p
    proof
      assume c: "covers_key k p \<and> covers_key (row_key n) p"
      then have p: "p = r_path n" using ins [OF n] by (simp add: covers_key_def row_key_def)
      obtain r where r: "r \<in> set (ip_rows (cur S))" "?P r" "covers_key (row_key r) p" using covered [OF n] p by blast
      then have "r_deleter r = Some t" using inv k c unfolding ip_inv_def kept_ok_def by blast
      then show False using none [OF r(1,2)] by simp
    qed
    moreover have "kept_ok S1" using i1 by (simp add: ip_inv_def)
    ultimately show ?thesis unfolding kept_ok_def S1_def st by (simp del: set_map) blast
  qed
  moreover have "live_ok (S\<lparr>cur := st\<rparr>)"
  proof -
    have "\<not> covers_key (row_key n) p" if p: "p \<in> live S" and n: "n \<in> set inserted" for n p
      using covered [OF n] ins [OF n] inv p by (auto simp: covers_key_def row_key_def ip_inv_def live_ok_def)
    moreover have "live_ok S1" using i1 by (simp add: ip_inv_def)
    ultimately show ?thesis unfolding live_ok_def S1_def st by (simp del: set_map) blast
  qed
  ultimately show ?thesis using inv by (simp add: ip_inv_def ops_ok_def written_ok_def st)
qed

lemma keep_step_inv:
  assumes inv: "ip_inv S" and op: "TransactionOperationId (cur S) s \<noteq> 0"
    and paths: "\<forall>p \<in> set paths. \<exists>r \<in> set (ip_rows (cur S)). visible s r \<and> r_path r = p \<and> \<not> r_is_prefix r \<and>
       r_operation_id r = TransactionOperationId (cur S) s"
    and d: "DeleteInProgressFileRecords s paths (cur S) = Some st"
  shows "ip_inv (S\<lparr>cur := st, kept := (kept S)(s := (\<lambda>p. (p, False)) ` set paths \<union> kept S s)\<rparr>)"
proof -
  let ?P = "\<lambda>r. visible s r \<and> r_path r \<in> set paths" and ?op = "TransactionOperationId (cur S) s"
  note dc = Delete_cases [OF d]
  have lock: "operation_locks (cur S) ?op = Some s" using inv op by (simp add: ip_inv_def ops_ok_def)
  have own: "r_operation_id r = ?op" if "r \<in> set (ip_rows (cur S))" "r_path r \<in> set paths" for r
    using paths that same_path_row [OF inv] by metis
  have i1: "ip_inv (S\<lparr>cur := st\<rparr>)" unfolding dc(1) by (rule inv_mark [OF inv]) (use dc(2) own lock in auto)
  have "under (roots S) ?op p \<and> (\<forall>r \<in> set (ip_rows st). covers_key (row_key r) p \<longrightarrow> r_deleter r = Some s)" if p: "p \<in> set paths" for p
  proof -
    obtain k where k: "k \<in> set (ip_rows (cur S))" "visible s k" "r_path k = p" "\<not> r_is_prefix k" "r_operation_id k = ?op"
      using paths p by blast
    have "under (roots S) ?op p"
      using inv k registered_under [of "roots S" ?op "row_key k"] by (auto simp: ip_inv_def rows_ok_def row_key_def)
    moreover have "r_deleter r = Some s" if r: "r \<in> set (ip_rows st)" "covers_key (row_key r) p" for r
    proof -
      obtain b where b: "b \<in> set (ip_rows (cur S))" "r = mark_deleted s ?P b" using r(1) dc(1) by auto
      show ?thesis
      proof (cases "r_is_prefix b")
        case False
        then have "r_path b = p" using r(2) by (simp add: b(2) covers_key_def row_key_def)
        then have "b = k" using same_path_row [OF inv b(1) k(1)] k(3) by simp
        then show ?thesis using b(2) k p by simp
      next
        case True
        then have "prefix (r_path b @ ''/'') p" using r(2) b(2) by (simp add: covers_key_def row_key_def)
        then have "owns (r_path b) (r_path k)" "r_path b \<noteq> r_path k" using prefix_owns k(3) by (auto dest: prefix_length_le)
        then obtain t where "r_deleter b = Some t" "r_inserter k = Some t" using inv b(1) k(1) True unfolding ip_inv_def rows_ok_def by blast
        moreover from this have "t = s" using k(2) by (auto simp: visible_def)
        ultimately show ?thesis using b(2) by simp
      qed
    qed
    ultimately show ?thesis by blast
  qed
  note new = this
  have T: "TransactionOperationId st = TransactionOperationId (cur S)" using dc(1) by simp
  have "kept_ok (S\<lparr>cur := st\<rparr>)" using i1 by (simp add: ip_inv_def)
  then have "kept_ok (S\<lparr>cur := st, kept := (kept S)(s := (\<lambda>p. (p, False)) ` set paths \<union> kept S s)\<rparr>)"
    using new op T unfolding kept_ok_def by (auto simp: covers_key_def [of "(_, False)"])
  then show ?thesis using i1 by (simp add: ip_inv_def written_ok_def live_ok_def)
qed


text \<open>The end of a transaction, for a common view of commit and abort: \<open>gone\<close> are the rows removed, and \<open>settle\<close>
  what happens to the others.\<close>

lemma end_rows_inv:
  assumes inv: "ip_inv S"
    and gone: "\<And>r. gone r \<Longrightarrow> r_inserter r = Some s \<or> r_deleter r = Some s"
    and settle: "\<And>r. row_key (settle r) = row_key r" "\<And>r. r_operation_id (settle r) = r_operation_id r"
      "\<And>r t. t \<noteq> s \<Longrightarrow> r_inserter (settle r) = Some t \<longleftrightarrow> r_inserter r = Some t"
      "\<And>r t. t \<noteq> s \<Longrightarrow> r_deleter (settle r) = Some t \<longleftrightarrow> r_deleter r = Some t"
      "\<And>r. \<not> gone r \<Longrightarrow> r_inserter (settle r) \<noteq> Some s \<and> r_deleter (settle r) \<noteq> Some s"
    and nest: "\<And>r r'. r_deleter r' = Some s \<Longrightarrow> r_inserter r = Some s \<Longrightarrow> gone r \<or> gone r'"
    and st: "ip_rows st = map settle (filter (\<lambda>r. \<not> gone r) (ip_rows (cur S)))" "remote_files st = remote_files (cur S)"
      "operation_locks st = (\<lambda>op. if operation_locks (cur S) op = Some s then None else operation_locks (cur S) op)"
      "TransactionOperationId st = (TransactionOperationId (cur S))(s := 0)" "operationid_seq st = operationid_seq (cur S)"
      "cleanups st = (cleanups (cur S))(s := Idle)"
    and live: "L \<subseteq> live S \<union> {p \<in> written S s. \<forall>r \<in> set (ip_rows (cur S)). covers_key (row_key r) p \<longrightarrow> gone r}"
  shows "ip_inv (S\<lparr>cur := st, written := (written S)(s := {}), kept := (kept S)(s := {}), live := L\<rparr>)"
proof -
  let ?S = "S\<lparr>cur := st, written := (written S)(s := {}), kept := (kept S)(s := {}), live := L\<rparr>"
  have ops: "ops_ok (cur S) (roots S)" and rows: "rows_ok (ip_rows (cur S)) (operation_locks (cur S)) (roots S)"
    using inv by (simp_all add: ip_inv_def)
  have keys: "r_path (settle r) = r_path r" "r_is_prefix (settle r) = r_is_prefix r" for r
    using settle(1) [of r] by (simp_all add: row_key_def)
  have locks: "operation_locks st op = Some t" if "operation_locks (cur S) op = Some t" "t \<noteq> s" for op t using that st(3) by simp
  have "ops_ok st (roots S)" using ops locks by (auto simp: ops_ok_def st(4,5))
  moreover have "rows_ok (ip_rows st) (operation_locks st) (roots S)"
  proof -
    have d: "distinct (map r_path (ip_rows st))"
      using rows by (simp add: st(1) keys comp_def rows_ok_def distinct_map_filter)
    have a: "registered (roots S) (r_operation_id r) (row_key r) \<and>
      (\<forall>t. r_inserter r = Some t \<or> r_deleter r = Some t \<longrightarrow> operation_locks st (r_operation_id r) = Some t)" if r: "r \<in> set (ip_rows st)" for r
    proof -
      obtain b where b: "b \<in> set (ip_rows (cur S))" "\<not> gone b" "r = settle b" using r st(1) by auto
      have reg: "registered (roots S) (r_operation_id b) (row_key b)"
        and lk: "\<And>t. r_inserter b = Some t \<or> r_deleter b = Some t \<Longrightarrow> operation_locks (cur S) (r_operation_id b) = Some t"
        using rows b(1) by (auto simp: rows_ok_def)
      have "operation_locks st (r_operation_id r) = Some t" if t: "r_inserter r = Some t \<or> r_deleter r = Some t" for t
      proof -
        have "t \<noteq> s" using t settle(5) [OF b(2)] b(3) by auto
        then have "r_inserter b = Some t \<or> r_deleter b = Some t" using t settle(3,4) b(3) by blast
        then show ?thesis using lk locks \<open>t \<noteq> s\<close> b(3) settle(2) by simp
      qed
      then show ?thesis using reg b(3) settle(1,2) by simp
    qed
    have c: "\<exists>t. r_deleter r' = Some t \<and> r_inserter r = Some t"
      if h: "r \<in> set (ip_rows st)" "r' \<in> set (ip_rows st)" "r_is_prefix r' \<and> owns (r_path r') (r_path r) \<and> r_path r' \<noteq> r_path r" for r r'
    proof -
      obtain b b' where b: "b \<in> set (ip_rows (cur S))" "\<not> gone b" "r = settle b" "b' \<in> set (ip_rows (cur S))" "\<not> gone b'" "r' = settle b'"
        using h(1,2) st(1) by auto
      have "r_is_prefix b' \<and> owns (r_path b') (r_path b) \<and> r_path b' \<noteq> r_path b" using h(3) b(3,6) keys by simp
      then obtain t where t: "r_deleter b' = Some t" "r_inserter b = Some t" using rows b(1,4) unfolding rows_ok_def by blast
      then have "t \<noteq> s" using nest b(2,5) by blast
      then show ?thesis using t settle(3,4) b(3,6) by blast
    qed
    show ?thesis unfolding rows_ok_def using d a c by blast
  qed
  moreover have "clean_ok st (roots S) v (cleanups st v)" for v
  proof (cases "v = s")
    case True
    then show ?thesis by (simp add: st(6))
  next
    case False
    have "clean_ok (cur S) (roots S) v (cleanups (cur S) v)" using inv by (simp add: ip_inv_def)
    moreover have "p \<in> r_path ` set (ip_rows st)"
      if h: "p \<in> r_path ` set (ip_rows (cur S))" "\<exists>op. under (roots S) op p \<and> operation_locks (cur S) op = Some v" for p
    proof -
      obtain r where r: "r \<in> set (ip_rows (cur S))" "r_path r = p" using h(1) by blast
      have "operation_locks (cur S) (r_operation_id r) = Some v" using h(2) registered_row_op [OF inv r(1)] r(2) by blast
      then have "\<not> gone r" using gone [of r] rows r(1) False unfolding rows_ok_def by (metis option.inject)
      then have "settle r \<in> set (ip_rows st)" using r(1) st(1) by simp
      then show ?thesis using keys(1) r(2) by (metis image_eqI)
    qed
    ultimately have "clean_ok st (roots S) v (cleanups (cur S) v)"
      by (intro clean_ok_cong [OF _ subset_refl, of st v "cur S"]) (use False locks in \<open>simp_all add: st(4)\<close>)
    then show ?thesis using False by (simp add: st(6))
  qed
  moreover have "kept_ok ?S"
  proof -
    have "TransactionOperationId (cur S) t \<noteq> 0 \<and> under (roots S) (TransactionOperationId (cur S) t) (fst k) \<and>
      (\<forall>r \<in> set (ip_rows st). \<forall>p. covers_key k p \<and> covers_key (row_key r) p \<longrightarrow> r_deleter r = Some t)" if k: "k \<in> kept S t" "t \<noteq> s" for k t
    proof -
      have old: "TransactionOperationId (cur S) t \<noteq> 0" "under (roots S) (TransactionOperationId (cur S) t) (fst k)"
        "\<And>r p. r \<in> set (ip_rows (cur S)) \<Longrightarrow> covers_key k p \<and> covers_key (row_key r) p \<Longrightarrow> r_deleter r = Some t"
        using inv k(1) unfolding ip_inv_def kept_ok_def by blast+
      then show ?thesis using settle(1,4) k(2) by (auto simp: st(1))
    qed
    then show ?thesis by (simp add: kept_ok_def st(4))
  qed
  moreover have "written_ok ?S" using inv by (auto simp: ip_inv_def written_ok_def st(2,4))
  moreover have "live_ok ?S"
  proof -
    have "p \<in> set (remote_files (cur S)) \<and> (\<exists>op. under (roots S) op p) \<and> (\<forall>r \<in> set (ip_rows (cur S)). covers_key (row_key r) p \<longrightarrow> gone r)"
      if p: "p \<in> L" for p
    proof (cases "p \<in> live S")
      case True
      then show ?thesis using inv unfolding ip_inv_def live_ok_def by blast
    next
      case False
      then show ?thesis using live p inv unfolding ip_inv_def written_ok_def by blast
    qed
    then show ?thesis using settle(1) by (auto simp: live_ok_def st(1,2))
  qed
  ultimately show ?thesis by (simp add: ip_inv_def)
qed

lemma commit_step_inv:
  assumes inv: "ip_inv S" and idle: "cleanups (cur S) s = Idle"
  shows "ip_inv (S\<lparr>cur := commit_transaction s (cur S), written := (written S)(s := {}), kept := (kept S)(s := {}),
     live := live S \<union> {p \<in> written S s. \<exists>k \<in> kept S s. covers_key k p}\<rparr>)"
proof (rule end_rows_inv [OF inv, where gone = "\<lambda>r. r_deleter r = Some s" and settle = "\<lambda>r. if r_inserter r = Some s then r\<lparr>r_inserter := None\<rparr> else r"])
  show "live S \<union> {p \<in> written S s. \<exists>k\<in>kept S s. covers_key k p}
    \<subseteq> live S \<union> {p \<in> written S s. \<forall>r\<in>set (ip_rows (cur S)). covers_key (row_key r) p \<longrightarrow> r_deleter r = Some s}"
    using inv unfolding ip_inv_def kept_ok_def by blast
qed (use idle in \<open>auto simp: commit_transaction_def release_locks_def InProgressFileTransactionCallback_def row_key_def fun_upd_idem\<close>)

lemma abort_step_inv:
  assumes inv: "ip_inv S"
  shows "ip_inv (S\<lparr>cur := (abort_transaction s (cur S))\<lparr>cleanups := (cleanups (cur S))(s := Idle)\<rparr>,
     written := (written S)(s := {}), kept := (kept S)(s := {})\<rparr>)"
proof -
  have "ip_inv (S\<lparr>cur := (abort_transaction s (cur S))\<lparr>cleanups := (cleanups (cur S))(s := Idle)\<rparr>,
     written := (written S)(s := {}), kept := (kept S)(s := {}), live := live S\<rparr>)"
    by (rule end_rows_inv [OF inv, where gone = "\<lambda>r. r_inserter r = Some s" and settle = "\<lambda>r. if r_deleter r = Some s then r\<lparr>r_deleter := None\<rparr> else r"])
       (auto simp: abort_transaction_def release_locks_def InProgressFileTransactionCallback_def row_key_def)
  then show ?thesis by simp
qed

lemma ip_step_inv: "ip_step S S' \<Longrightarrow> ip_inv S \<Longrightarrow> ip_inv S'"
proof (induction rule: ip_step.induct)
  case insert_step then show ?case by (intro insert_step_inv)
next
  case write_step then show ?case by (intro write_step_inv)
next
  case replace_step then show ?case by (intro replace_step_inv)
next
  case keep_step then show ?case by (intro keep_step_inv)
next
  case commit_step then show ?case by (intro commit_step_inv)
next
  case abort_step then show ?case by (intro abort_step_inv)
next
  case clean_start then show ?case by (intro clean_start_inv)
next
  case clean_lock then show ?case by (intro clean_lock_inv)
next
  case clean_check then show ?case by (intro clean_check_inv)
next
  case clean_remove then show ?case by (intro clean_remove_inv)
next
  case clean_finish then show ?case by (intro clean_finish_inv)
qed

lemma ip_reachable_inv: "ip_reachable files S \<Longrightarrow> ip_inv S"
  by (induction rule: rtranclp_induct) (auto intro: ip_inv_initial ip_step_inv)


section \<open>The cleanup loop as steps\<close>

definition cleaning :: "ip_system \<Rightarrow> session \<Rightarrow> ip_state \<Rightarrow> cleanup \<Rightarrow> ip_system" where
  "cleaning S s st c = S\<lparr>cur := st\<lparr>cleanups := (cleanups st)(s := c)\<rparr>\<rparr>"

lemma remove_entries_steps:
  assumes "remove_entries removes s es removed st = (deleted, st')"
  shows "ip_step\<^sup>*\<^sup>* (cleaning S s st (Next es removed)) (cleaning S s st' (Next [] deleted))"
  using assms
proof (induction es arbitrary: removed st)
  case Nil
  then show ?case by simp
next
  case (Cons e es)
  let ?at = "cleaning S s"
  obtain locked st1 where l: "TryLockTransactionOperationId (e_operationId e) s st = (locked, st1)" by (metis surj_pair)
  have c1: "cleanups st1 = cleanups st"
    using l by (auto simp: TryLockTransactionOperationId_def split: option.splits)
  have "TryLockTransactionOperationId (e_operationId e) s (st\<lparr>cleanups := f\<rparr>) = (locked, st1\<lparr>cleanups := f\<rparr>)" for f
    using l by (auto simp: TryLockTransactionOperationId_def split: option.splits)
  then have s1: "ip_step (?at st (Next (e # es) removed)) (?at st1 (if locked then Locked e es removed else Next es removed))"
    using clean_lock [of "?at st (Next (e # es) removed)" s e es removed locked "st1\<lparr>cleanups := (cleanups st)(s := Next (e # es) removed)\<rparr>"] c1
    by (simp add: cleaning_def)
  show ?case
  proof (cases locked)
    case False
    then have "remove_entries removes s es removed st1 = (deleted, st')" using Cons.prems l by simp
    from Cons.IH [OF this] s1 False show ?thesis by (simp add: converse_rtranclp_into_rtranclp)
  next
    case True
    have ex: "FileInProgressRecordExists s p (st1\<lparr>cleanups := f\<rparr>) = FileInProgressRecordExists s p st1" for p f
      by (simp add: FileInProgressRecordExists_def)
    have s2: "ip_step (?at st1 (Locked e es removed)) (?at st1 (if FileInProgressRecordExists s (e_path e) st1 then Checked e es removed else Next es removed))"
      using clean_check [of "?at st1 (Locked e es removed)" s e es removed] by (simp add: ex cleaning_def)
    show ?thesis
    proof (cases "FileInProgressRecordExists s (e_path e) st1")
      case no: False
      then have "remove_entries removes s es removed st1 = (deleted, st')" using Cons.prems l True by simp
      from Cons.IH [OF this] s1 s2 True no show ?thesis by (simp add: converse_rtranclp_into_rtranclp)
    next
      case yes: True
      let ?st2 = "remove_remote removes e st1"
      have s3: "ip_step (?at st1 (Checked e es removed)) (?at ?st2 (Next es (removed @ [e_path e])))"
        using clean_remove [of "?at st1 (Checked e es removed)" s e es removed removes] by (simp add: remove_remote_def cleaning_def)
      have "remove_entries removes s es (removed @ [e_path e]) ?st2 = (deleted, st')" using Cons.prems l True yes by simp
      note ih = Cons.IH [OF this]
      have "ip_step\<^sup>*\<^sup>* (?at st1 (Checked e es removed)) (?at st' (Next [] deleted))"
        using s3 ih by (rule converse_rtranclp_into_rtranclp)
      then have "ip_step\<^sup>*\<^sup>* (?at st1 (Locked e es removed)) (?at st' (Next [] deleted))"
        using s2 yes by (simp add: converse_rtranclp_into_rtranclp)
      then show ?thesis using s1 True by (simp add: converse_rtranclp_into_rtranclp)
    qed
  qed
qed

lemma remove_entries_frame:
  "remove_entries removes s es removed st = (deleted, st') \<Longrightarrow> cleanups st' = cleanups st"
proof (induction es arbitrary: removed st)
  case (Cons e es)
  obtain locked st1 where l: "TryLockTransactionOperationId (e_operationId e) s st = (locked, st1)" by (metis surj_pair)
  have c1: "cleanups st1 = cleanups st"
    using l by (auto simp: TryLockTransactionOperationId_def split: option.splits)
  then show ?case
    using Cons.IH [of removed st1] Cons.IH [of "removed @ [e_path e]" "remove_remote removes e st1"] Cons.prems l
    by (auto simp: remove_remote_def split: if_splits)
qed simp

lemma cleanup_steps:
  assumes idle: "cleanups (cur S) s = Idle" and op: "TransactionOperationId (cur S) s = 0"
    and r: "RemoveInProgressFiles ilike removes s loc isFull (cur S) = Some (remaining, deleted, st)"
  shows "ip_step\<^sup>*\<^sup>* S (S\<lparr>cur := st\<rparr>)"
proof -
  let ?at = "cleaning S s"
  obtain rem es where g: "GetInProgressFileRecords ilike s loc isFull (cur S) = (rem, es)" by (metis surj_pair)
  obtain del st1 where e: "remove_entries removes s es [] (cur S) = (del, st1)" by (metis surj_pair)
  have d: "del = deleted" "DeleteInProgressFileRecords s deleted st1 = Some st"
    using r g e by (auto simp: RemoveInProgressFiles_def)
  have c1: "cleanups st1 = cleanups (cur S)" by (rule remove_entries_frame [OF e])
  have c: "cleanups st = cleanups (cur S)" using Delete_cases(1) [OF d(2)] c1 by simp
  have "ip_step S (?at (cur S) (Next es []))" unfolding cleaning_def by (rule clean_start [OF idle op g])
  moreover have "ip_step\<^sup>*\<^sup>* (?at (cur S) (Next es [])) (?at st1 (Next [] deleted))"
    using remove_entries_steps [OF e] d(1) by simp
  moreover have "ip_step (?at st1 (Next [] deleted)) (S\<lparr>cur := st\<rparr>)"
  proof -
    have "DeleteInProgressFileRecords s deleted (st1\<lparr>cleanups := f\<rparr>) = Some (st\<lparr>cleanups := f\<rparr>)" for f
      using d(2) by (auto simp: DeleteInProgressFileRecords_def split: if_splits)
    moreover have "(cleanups st)(s := Idle) = cleanups st" using idle c by auto
    ultimately show ?thesis
      using clean_finish [of "?at st1 (Next [] deleted)" s deleted "st\<lparr>cleanups := (cleanups st1)(s := Next [] deleted)\<rparr>"]
      by (simp add: cleaning_def c1 flip: c)
  qed
  ultimately show ?thesis by (meson converse_rtranclp_into_rtranclp rtranclp.rtrancl_into_rtrancl)
qed


section \<open>A cleanup without open transactions\<close>

definition settled :: "session \<Rightarrow> ip_state \<Rightarrow> bool" where
  "settled s st \<longleftrightarrow> (\<forall>r \<in> set (ip_rows st). r_inserter r = None \<and> r_deleter r = None \<and>
     operation_locks st (r_operation_id r) \<in> {None, Some s})"

definition row_entry :: "in_progress_row \<Rightarrow> InProgressEntry" where
  "row_entry r = \<lparr>e_path = r_path r, e_operationId = r_operation_id r, e_isPrefix = r_is_prefix r\<rparr>"

lemma remove_entries_settled:
  assumes "settled s st" "set rs \<subseteq> set (ip_rows st)"
  shows "\<exists>st'. remove_entries removes s (map row_entry rs) removed st = (removed @ map r_path rs, st') \<and> settled s st' \<and>
    ip_rows st' = ip_rows st \<and>
    remote_files st' = filter (\<lambda>f. \<not> (\<exists>r \<in> set rs. covers_key (row_key r) f \<and> removes f)) (remote_files st)"
  using assms
proof (induction rs arbitrary: removed st)
  case Nil
  then show ?case by simp
next
  case (Cons r rs)
  have r: "r \<in> set (ip_rows st)" using Cons.prems(2) by simp
  obtain locks where l: "TryLockTransactionOperationId (r_operation_id r) s st = (True, st\<lparr>operation_locks := locks\<rparr>)"
    "\<And>op. locks op = operation_locks st op \<or> locks op = Some s"
  proof (cases "operation_locks st (r_operation_id r)")
    case None
    then show ?thesis
      using that [of "(operation_locks st)(r_operation_id r := Some s)"] by (simp add: TryLockTransactionOperationId_def)
  next
    case (Some t)
    then have "t = s" using Cons.prems(1) r by (auto simp: settled_def)
    then show ?thesis using that [of "operation_locks st"] Some by (simp add: TryLockTransactionOperationId_def)
  qed
  let ?st1 = "remove_remote removes (row_entry r) (st\<lparr>operation_locks := locks\<rparr>)"
  have "FileInProgressRecordExists s (r_path r) (st\<lparr>operation_locks := locks\<rparr>)"
    using Cons.prems(1) r by (auto simp: FileInProgressRecordExists_def list_ex_iff visible_def settled_def)
  then have eq: "remove_entries removes s (map row_entry (r # rs)) removed st =
    remove_entries removes s (map row_entry rs) (removed @ [r_path r]) ?st1"
    using l(1) by (simp add: row_entry_def)
  have "locks op \<in> {None, Some s}" if "operation_locks st op \<in> {None, Some s}" for op using l(2) [of op] that by auto
  then have "settled s ?st1" using Cons.prems(1) by (simp add: settled_def remove_remote_def)
  moreover have "set rs \<subseteq> set (ip_rows ?st1)" using Cons.prems(2) by (simp add: remove_remote_def)
  ultimately have "\<exists>st'. remove_entries removes s (map row_entry rs) (removed @ [r_path r]) ?st1 = ((removed @ [r_path r]) @ map r_path rs, st') \<and>
    settled s st' \<and> ip_rows st' = ip_rows ?st1 \<and>
    remote_files st' = filter (\<lambda>f. \<not> (\<exists>r \<in> set rs. covers_key (row_key r) f \<and> removes f)) (remote_files ?st1)"
    by (rule Cons.IH)
  then obtain st' where st': "remove_entries removes s (map row_entry rs) (removed @ [r_path r]) ?st1 = ((removed @ [r_path r]) @ map r_path rs, st')"
    "settled s st'" "ip_rows st' = ip_rows ?st1"
    "remote_files st' = filter (\<lambda>f. \<not> (\<exists>r \<in> set rs. covers_key (row_key r) f \<and> removes f)) (remote_files ?st1)"
    by (elim exE conjE)
  have "remote_files ?st1 = filter (\<lambda>f. \<not> (covers_key (row_key r) f \<and> removes f)) (remote_files st)"
    by (simp add: remove_remote_def covers_entry entry_key_def row_entry_def row_key_def)
  then have "remote_files st' = filter (\<lambda>f. \<not> (\<exists>r \<in> set (r # rs). covers_key (row_key r) f \<and> removes f)) (remote_files st)"
    unfolding st'(4) by (simp add: filter_filter) (rule filter_cong, simp_all, blast)
  moreover have "ip_rows st' = ip_rows st" using st'(3) by (simp add: remove_remote_def)
  ultimately show ?case using eq st'(1,2) by (intro exI [of _ st']) simp
qed

lemma flush_settled:
  assumes "settled s st" "\<And>p. ilike p ''%''"
  shows "\<exists>st'. flush_in_progress_queue ilike removes s st = Some (map r_path (ip_rows st), st') \<and>
    ip_rows (commit_transaction s st') = [] \<and>
    remote_files st' = filter (\<lambda>f. \<not> (\<exists>r \<in> set (ip_rows st). covers_key (row_key r) f \<and> removes f)) (remote_files st)"
proof -
  let ?paths = "map r_path (ip_rows st)"
  have v: "visible s r" if "r \<in> set (ip_rows st)" for r using assms(1) that by (auto simp: settled_def visible_def)
  have g: "GetInProgressFileRecords ilike s [] True st = (False, map row_entry (ip_rows st))"
    using v assms(2) by (simp add: GetInProgressFileRecords_def row_entry_def [abs_def] cong: filter_cong)
  obtain st1 where st1: "remove_entries removes s (map row_entry (ip_rows st)) [] st = (?paths, st1)" "settled s st1" "ip_rows st1 = ip_rows st"
    "remote_files st1 = filter (\<lambda>f. \<not> (\<exists>r \<in> set (ip_rows st). covers_key (row_key r) f \<and> removes f)) (remote_files st)"
    using remove_entries_settled [OF assms(1) subset_refl, of removes "[]"] by auto
  obtain st' where st': "DeleteInProgressFileRecords s ?paths st1 = Some st'"
    "ip_rows st' = map (\<lambda>r. r\<lparr>r_deleter := Some s\<rparr>) (ip_rows st)" "remote_files st' = remote_files st1"
  proof (cases "ip_rows st = []")
    case True
    then show ?thesis using that [of st1] st1(3) by (simp add: DeleteInProgressFileRecords_def)
  next
    case False
    have "\<not> list_ex (\<lambda>r. visible s r \<and> r_path r \<in> set ?paths \<and> r_deleter r \<noteq> None) (ip_rows st1)"
      using st1(2) by (auto simp: list_ex_iff settled_def)
    then have "DeleteInProgressFileRecords s ?paths st1 = Some (st1\<lparr>ip_rows := map (\<lambda>r. r\<lparr>r_deleter := Some s\<rparr>) (ip_rows st)\<rparr>)"
      using False v by (simp add: DeleteInProgressFileRecords_def st1(3))
    then show ?thesis using that by simp
  qed
  have "flush_in_progress_queue ilike removes s st = Some (?paths, st')"
    using g st1(1) st'(1) by (simp add: flush_in_progress_queue_def RemoveInProgressFiles_def)
  moreover have "ip_rows (commit_transaction s st') = []"
    using st'(2) by (simp add: commit_transaction_def release_locks_def InProgressFileTransactionCallback_def)
  ultimately show ?thesis using st1(4) st'(3) by simp
qed


section \<open>Properties\<close>

text \<open>The run of the witnesses: session 1 keeps and commits file \<open>a\<close>, session 2 has written \<open>b\<close> under an open
  transaction when session 3 starts a cleanup.\<close>

definition sample_row :: "string \<Rightarrow> int \<Rightarrow> in_progress_row" where
  "sample_row path operationId =
     \<lparr>r_path = path, r_operation_id = operationId, r_is_prefix = False, r_inserter = None, r_deleter = None\<rparr>"

definition sample_committed :: ip_system where
  "sample_committed =
     \<lparr>cur = \<lparr>ip_rows = [], operationid_seq = 1, operation_locks = (\<lambda>_. None), TransactionOperationId = (\<lambda>_. 0),
             remote_files = [''a''], cleanups = (\<lambda>_. Idle)\<rparr>,
      roots = {(''a'', False, 1)}, written = (\<lambda>_. {}), kept = (\<lambda>_. {}), live = {''a''}\<rparr>"

definition sample_open :: ip_system where
  "sample_open =
     \<lparr>cur = \<lparr>ip_rows = [sample_row ''b'' 2], operationid_seq = 2, operation_locks = [2 \<mapsto> 2],
             TransactionOperationId = (\<lambda>_. 0)(2 := 2), remote_files = [''a'', ''b''], cleanups = (\<lambda>_. Idle)\<rparr>,
      roots = {(''b'', False, 2), (''a'', False, 1)}, written = (\<lambda>_. {})(2 := {''b''}), kept = (\<lambda>_. {}), live = {''a''}\<rparr>"

lemmas insert_defs = InsertInProgressFileRecordExtended_def GetTransactionOperationId_def GetNextTransactionOperationId_def
  LockTransactionOperationId_def insert_attached_def DeleteInProgressFileRecord_def DeleteInProgressFileRecords_def visible_def
lemmas end_defs = commit_transaction_def abort_transaction_def release_locks_def InProgressFileTransactionCallback_def

lemma const_upd: "(\<lambda>_. c)(x := c) = (\<lambda>_. c)"
  by auto

lemma sample_committed_reachable: "ip_reachable [] sample_committed"
proof -
  let ?st = "\<lparr>ip_rows = [(sample_row ''a'' 1)\<lparr>r_deleter := Some 1\<rparr>], operationid_seq = 1, operation_locks = [1 \<mapsto> 1],
    TransactionOperationId = (\<lambda>_. 0)(1 := 1), remote_files = [], cleanups = (\<lambda>_. Idle)\<rparr>"
  let ?S1 = "(ip_initial [])\<lparr>cur := ?st, roots := {(''a'', False, 1)}, kept := (\<lambda>_. {})(1 := {(''a'', False)})\<rparr>"
  let ?S2 = "?S1\<lparr>cur := ?st\<lparr>remote_files := [''a'']\<rparr>, written := (\<lambda>_. {})(1 := {''a''})\<rparr>"
  have "InsertInProgressFileRecordExtended 1 False True ''a'' False True (cur (ip_initial [])) = Some (Inr ?st)"
    by (simp add: insert_defs ip_initial_def sample_row_def)
  then have s1: "ip_step (ip_initial []) ?S1"
    using insert_step [of "ip_initial []" 1 "''a''" False True ?st] by (simp add: ip_initial_def fresh_path_def)
  have s2: "ip_step ?S1 ?S2"
    using write_step [of ?S1 1 "''a''" False "''a''"] by (simp add: ip_initial_def)
  have s3: "ip_step ?S2 sample_committed"
  proof -
    have "commit_transaction 1 (cur ?S2) = cur sample_committed"
      by (rule ip_state.equality) (auto simp: sample_committed_def end_defs sample_row_def fun_eq_iff)
    moreover have "{p. p = ''a'' \<and> covers_key (''a'', False) p} = {''a''}" by (auto simp: covers_key_def)
    ultimately have "?S2\<lparr>cur := commit_transaction 1 (cur ?S2), written := (written ?S2)(1 := {}), kept := (kept ?S2)(1 := {}),
       live := live ?S2 \<union> {p \<in> written ?S2 1. \<exists>k \<in> kept ?S2 1. covers_key k p}\<rparr> = sample_committed"
      by (intro ip_system.equality) (simp_all add: sample_committed_def const_upd ip_initial_def)
    moreover have "cleanups (cur ?S2) 1 = Idle" by simp
    ultimately show ?thesis using commit_step [of ?S2 1] by metis
  qed
  show ?thesis
    by (rule converse_rtranclp_into_rtranclp [OF s1 converse_rtranclp_into_rtranclp [OF s2 r_into_rtranclp [of ip_step, OF s3]]])
qed

lemma sample_open_reachable: "ip_reachable [] sample_open"
proof -
  let ?st = "(cur sample_open)\<lparr>remote_files := [''a'']\<rparr>"
  let ?S1 = "sample_open\<lparr>cur := ?st, written := (\<lambda>_. {})\<rparr>"
  have "InsertInProgressFileRecordExtended 2 False True ''b'' False False (cur sample_committed) = Some (Inr ?st)"
    by (simp add: insert_defs sample_committed_def sample_open_def sample_row_def)
  then have "ip_step sample_committed ?S1"
    using insert_step [of sample_committed 2 "''b''" False False ?st]
    by (simp add: sample_committed_def sample_open_def fresh_path_def owns_def)
  moreover have "ip_step ?S1 sample_open"
    using write_step [of ?S1 2 "''b''" False "''b''"] by (simp add: sample_open_def)
  ultimately show ?thesis using sample_committed_reachable by (meson rtranclp.simps)
qed





text \<open>
  C18: When no other transaction is open, flushing the queue removes exactly the files its records cover, up to
  the removals the object store refuses, reports every record, and leaves the table empty once committed.
\<close>

theorem flush_in_progress_queue_complete:
  assumes "settled s st" "\<And>p. ilike p ''%''"
  shows "\<exists>st'. flush_in_progress_queue ilike removes s st = Some (map r_path (ip_rows st), st') \<and>
    ip_rows (commit_transaction s st') = [] \<and>
    remote_files st' = filter (\<lambda>f. \<not> (\<exists>r \<in> set (ip_rows st). covers_key (row_key r) f \<and> removes f)) (remote_files st)"
  using assms by (rule flush_settled)

text \<open>After the abort of session 2 its file \<open>b\<close> is removed and \<open>a\<close> stays.\<close>

theorem flush_in_progress_queue_complete_witness:
  "settled 3 (abort_transaction 2 (cur sample_open)) \<and>
   (\<exists>st'. flush_in_progress_queue (\<lambda>_ _. True) (\<lambda>_. True) 3 (abort_transaction 2 (cur sample_open)) = Some ([''b''], st') \<and>
      ip_rows (commit_transaction 3 st') = [] \<and> remote_files st' = [''a''])"
proof -
  let ?st = "abort_transaction 2 (cur sample_open)"
  have rows: "ip_rows ?st = [sample_row ''b'' 2]" "remote_files ?st = [''a'', ''b'']"
    by (simp_all add: end_defs sample_open_def sample_row_def)
  have "settled 3 ?st" by (simp add: settled_def end_defs sample_open_def sample_row_def)
  then show ?thesis
    using flush_in_progress_queue_complete [of 3 ?st "\<lambda>_ _. True" "\<lambda>_. True"] unfolding rows
    by (simp add: sample_row_def row_key_def covers_key_def)
qed



end
