(* ===== verification/Vacuum.thy ===== *)
theory Vacuum
  imports Deletion_Queue In_Progress_Files "HOL-Library.Monad_Syntax"
begin

text \<open>
  \<^verbatim>\<open>pg_lake_table/src/ddl/vacuum.c\<close>: the two loops of \<^verbatim>\<open>VACUUM\<close> that remove files, and how a statement is
  split into regular tables and lake tables.

  A loop is a partial function: \<open>None\<close> means that it does not return.  Each iteration runs in a transaction of its own;
  what happens in iteration \<open>i\<close> outside the session (the answers of the object store, an error, the changes other sessions commit
  before the next one) is the argument \<open>its i\<close>.
\<close>

section \<open>Removing the files of the deletion queue\<close>

text \<open>An error that is raised after the removals undoes the changes to the queue and not the removals.  After a caught error
  the list of records is a local variable whose value C leaves open; its length only enters the number that is logged.\<close>

record queue_iteration =
  qi_env :: queue_env
  qi_error :: "pg_error option"
  qi_indeterminate :: int
  qi_others :: "queue_row list \<Rightarrow> queue_row list"

definition is_cancel :: "pg_error \<Rightarrow> bool" where
  "is_cancel e \<longleftrightarrow> (case e of QueryCanceled _ \<Rightarrow> True | _ \<Rightarrow> False)"

partial_function (option) queue_loop ::
  "(nat \<Rightarrow> queue_iteration) \<Rightarrow> int \<Rightarrow> int \<Rightarrow> bool \<Rightarrow> nat \<Rightarrow> int \<Rightarrow> queue_state
     \<Rightarrow> (pg_error option \<times> nat \<times> int \<times> queue_state) option" where
  "queue_loop its MaxFileRemovalsPerVacuum relationId isFull i totalFilesRemoved st =
     (let env = qi_env (its i);
          deletionQueueRecords = GetDeletionQueueRecords env relationId isFull (deletion_queue st);
          (hasRemainingFiles, st') = RemoveDeletionQueueRecords env deletionQueueRecords st
      in case qi_error (its i) of
           Some e \<Rightarrow>
             let st' = st'\<lparr>deletion_queue := deletion_queue st\<rparr> in
             if is_cancel e then Some (Some e, i, totalFilesRemoved, st')
             else Some (None, i, totalFilesRemoved + qi_indeterminate (its i), st'\<lparr>deletion_queue := qi_others (its i) (deletion_queue st')\<rparr>)
         | None \<Rightarrow>
             let totalFilesRemoved = totalFilesRemoved + int (length deletionQueueRecords);
                 hasRemainingFiles = (if hasRemainingFiles then 0 < length deletionQueueRecords else False);
                 st' = st'\<lparr>deletion_queue := qi_others (its i) (deletion_queue st')\<rparr>
             in if \<not> isFull \<and> totalFilesRemoved < MaxFileRemovalsPerVacuum \<and> hasRemainingFiles
                then queue_loop its MaxFileRemovalsPerVacuum relationId isFull (i + 1) totalFilesRemoved st'
                else Some (None, i, totalFilesRemoved, st'))"

text \<open>The result: a cancellation, the number of the last iteration, the number of records taken, and the state.\<close>

definition VacuumRemoveDeletionQueueRecords ::
  "(nat \<Rightarrow> queue_iteration) \<Rightarrow> int \<Rightarrow> int \<Rightarrow> bool \<Rightarrow> queue_state \<Rightarrow> (pg_error option \<times> nat \<times> int \<times> queue_state) option" where
  "VacuumRemoveDeletionQueueRecords its MaxFileRemovalsPerVacuum relationId isFull st =
     queue_loop its MaxFileRemovalsPerVacuum relationId isFull 0 0 st"


section \<open>Removing the files of aborted transactions\<close>

record in_progress_iteration =
  ii_location :: "string result"
  ii_removes :: "string \<Rightarrow> bool"
  ii_error :: "pg_error option"
  ii_indeterminate :: int
  ii_others :: "ip_state \<Rightarrow> ip_state"

text \<open>The location prefix of a table is that of its metadata, which has to be read; all tables together have the empty
  prefix.\<close>

definition GetMetadataLocationPrefixForRelationId :: "int \<Rightarrow> string result \<Rightarrow> string result" where
  "GetMetadataLocationPrefixForRelationId relationId metadata_location =
     (if relationId = InvalidOid then Inr '''' else metadata_location)"

definition caught :: "session \<Rightarrow> pg_error \<Rightarrow> in_progress_iteration \<Rightarrow> nat \<Rightarrow> int \<Rightarrow> ip_state \<Rightarrow> pg_error option \<times> nat \<times> int \<times> ip_state" where
  "caught s e it i totalFilesRemoved st =
     (if is_cancel e then (Some e, i, totalFilesRemoved, abort_transaction s st)
      else (None, i, totalFilesRemoved + ii_indeterminate it, ii_others it (abort_transaction s st)))"

partial_function (option) in_progress_loop ::
  "(string \<Rightarrow> string \<Rightarrow> bool) \<Rightarrow> (nat \<Rightarrow> in_progress_iteration) \<Rightarrow> int \<Rightarrow> session \<Rightarrow> int \<Rightarrow> bool \<Rightarrow> nat \<Rightarrow> int \<Rightarrow> ip_state
     \<Rightarrow> (pg_error option \<times> nat \<times> int \<times> ip_state) option" where
  "in_progress_loop ilike its MaxFileRemovalsPerVacuum s relationId isFull i totalFilesRemoved st =
     (case GetMetadataLocationPrefixForRelationId relationId (ii_location (its i)) of
        Inl e \<Rightarrow> Some (caught s e (its i) i totalFilesRemoved st)
      | Inr locationPrefix \<Rightarrow>
          do {
            (hasRemainingFiles, removedFiles, st') \<leftarrow> RemoveInProgressFiles ilike (ii_removes (its i)) s locationPrefix isFull st;
            (case ii_error (its i) of
               Some e \<Rightarrow> Some (caught s e (its i) i totalFilesRemoved st')
             | None \<Rightarrow>
                 let totalFilesRemoved = totalFilesRemoved + int (length removedFiles);
                     st' = ii_others (its i) (commit_transaction s st')
                 in if \<not> isFull \<and> totalFilesRemoved < MaxFileRemovalsPerVacuum \<and> hasRemainingFiles
                    then in_progress_loop ilike its MaxFileRemovalsPerVacuum s relationId isFull (i + 1) totalFilesRemoved st'
                    else Some (None, i, totalFilesRemoved, st'))
          })"

definition VacuumRemoveInProgressFiles ::
  "(string \<Rightarrow> string \<Rightarrow> bool) \<Rightarrow> (nat \<Rightarrow> in_progress_iteration) \<Rightarrow> int \<Rightarrow> session \<Rightarrow> (int \<Rightarrow> bool) \<Rightarrow> int \<Rightarrow> bool \<Rightarrow> ip_state
     \<Rightarrow> (pg_error option \<times> nat \<times> int \<times> ip_state) option" where
  "VacuumRemoveInProgressFiles ilike its MaxFileRemovalsPerVacuum s isIceberg relationId isFull st =
     (if relationId \<noteq> InvalidOid \<and> \<not> isIceberg relationId then Some (None, 0, 0, st)
      else in_progress_loop ilike its MaxFileRemovalsPerVacuum s relationId isFull 0 0 st)"


section \<open>The loop over the deletion queue\<close>

definition records_at :: "(nat \<Rightarrow> queue_iteration) \<Rightarrow> int \<Rightarrow> bool \<Rightarrow> nat \<Rightarrow> queue_state \<Rightarrow> DeletionQueueEntry list" where
  "records_at its relationId isFull i st = GetDeletionQueueRecords (qi_env (its i)) relationId isFull (deletion_queue st)"

definition files_after :: "(nat \<Rightarrow> queue_iteration) \<Rightarrow> int \<Rightarrow> bool \<Rightarrow> nat \<Rightarrow> queue_state \<Rightarrow> string list" where
  "files_after its relationId isFull i st =
     filter (\<lambda>f. \<not> removed_by (qi_env (its i)) (records_at its relationId isFull i st) f) (stored_files st)"

definition queue_after :: "(nat \<Rightarrow> queue_iteration) \<Rightarrow> int \<Rightarrow> bool \<Rightarrow> nat \<Rightarrow> queue_state \<Rightarrow> queue_state" where
  "queue_after its relationId isFull i st =
     st\<lparr>stored_files := files_after its relationId isFull i st,
        deletion_queue := qi_others (its i) (after_attempt (qi_env (its i)) (records_at its relationId isFull i st) (deletion_queue st))\<rparr>"

definition goes_on :: "(nat \<Rightarrow> queue_iteration) \<Rightarrow> int \<Rightarrow> int \<Rightarrow> bool \<Rightarrow> nat \<Rightarrow> int \<Rightarrow> queue_state \<Rightarrow> bool" where
  "goes_on its M relationId isFull i tot st \<longleftrightarrow> qi_error (its i) = None \<and> \<not> isFull \<and>
     tot + int (length (records_at its relationId isFull i st)) < M \<and>
     list_ex (\<lambda>e. removal_succeeds (qi_env (its i)) (dq_path e)) (records_at its relationId isFull i st)"

lemma queue_loop_continue:
  assumes "goes_on its M relationId isFull i tot st"
  shows "queue_loop its M relationId isFull i tot st =
    queue_loop its M relationId isFull (i + 1) (tot + int (length (records_at its relationId isFull i st)))
      (queue_after its relationId isFull i st)"
  using assms
  by (subst queue_loop.simps)
    (auto simp: goes_on_def RemoveDeletionQueueRecords_eq records_at_def [symmetric] files_after_def [symmetric] queue_after_def Let_def)

lemma queue_loop_stop:
  assumes "\<not> goes_on its M relationId isFull i tot st"
  shows "\<exists>e t st'. queue_loop its M relationId isFull i tot st = Some (e, i, t, st') \<and>
    stored_files st' = files_after its relationId isFull i st"
  using assms
  by (subst queue_loop.simps)
    (auto simp: goes_on_def RemoveDeletionQueueRecords_eq records_at_def [symmetric] files_after_def [symmetric] Let_def split: option.split)

lemma goes_on_progress:
  assumes "goes_on its M relationId isFull i tot st"
  shows "nat (M - (tot + int (length (records_at its relationId isFull i st)))) < nat (M - tot)"
  using assms by (cases "records_at its relationId isFull i st") (auto simp: goes_on_def)

lemma queue_loop_returns:
  "\<exists>e n t st'. queue_loop its M relationId isFull i tot st = Some (e, n, t, st') \<and> n \<le> i + nat (M - tot)"
proof (induction "nat (M - tot)" arbitrary: i tot st rule: less_induct)
  case less
  show ?case
  proof (cases "goes_on its M relationId isFull i tot st")
    case True
    note smaller = goes_on_progress [OF True]
    from less [OF smaller, of "i + 1" "queue_after its relationId isFull i st"] obtain e n t st' where
      ih: "queue_loop its M relationId isFull i tot st = Some (e, n, t, st')"
        "n \<le> i + 1 + nat (M - (tot + int (length (records_at its relationId isFull i st))))"
      unfolding queue_loop_continue [OF True, symmetric] by blast
    have "n \<le> i + nat (M - tot)" using ih(2) smaller by linarith
    then show ?thesis using ih(1) by blast
  next
    case False
    then show ?thesis using queue_loop_stop by fastforce
  qed
qed

text \<open>A file that no row due at any iteration covers.\<close>

definition threatens :: "(nat \<Rightarrow> queue_iteration) \<Rightarrow> int \<Rightarrow> string \<Rightarrow> queue_row \<Rightarrow> bool" where
  "threatens its relationId f r \<longleftrightarrow> queue_covers (q_path r) (q_is_prefix r) f \<and>
     (\<exists>k. expired (qi_env (its k)) r \<and>
        (if relationId \<noteq> InvalidOid then q_table_name r = relationId else \<not> in_pg_class (qi_env (its k)) (q_table_name r)))"

definition safe_queue :: "(nat \<Rightarrow> queue_iteration) \<Rightarrow> int \<Rightarrow> string \<Rightarrow> queue_row list \<Rightarrow> bool" where
  "safe_queue its relationId f queue \<longleftrightarrow> (\<forall>r \<in> set queue. \<not> threatens its relationId f r)"

lemma safe_queue_after: "safe_queue its relationId f q \<Longrightarrow> safe_queue its relationId f (after_attempt env es q)"
  by (auto simp: safe_queue_def after_attempt_def threatens_def expired_def)

lemma safe_files_after:
  assumes "safe_queue its relationId f (deletion_queue st)" "f \<in> set (stored_files st)"
  shows "f \<in> set (files_after its relationId isFull i st)"
proof -
  have False if "removed_by (qi_env (its i)) (records_at its relationId isFull i st) f"
  proof -
    from that obtain r where "r \<in> set (deletion_queue st)" "eligible (qi_env (its i)) relationId r" "queue_covers (q_path r) (q_is_prefix r) f"
      unfolding records_at_def by (rule removed_by_records)
    then show False using assms(1) by (auto simp: safe_queue_def threatens_def eligible_def)
  qed
  then show ?thesis using assms(2) by (auto simp: files_after_def)
qed

lemma queue_loop_keeps:
  assumes "queue_loop its M relationId isFull i tot st = Some (e, n, t, st')"
    "safe_queue its relationId f (deletion_queue st)" "f \<in> set (stored_files st)"
    "\<And>i q. safe_queue its relationId f q \<Longrightarrow> safe_queue its relationId f (qi_others (its i) q)"
  shows "f \<in> set (stored_files st')"
  using assms
proof (induction "nat (M - tot)" arbitrary: i tot st rule: less_induct)
  case less
  note kept = safe_files_after [OF less.prems(2,3)]
  show ?case
  proof (cases "goes_on its M relationId isFull i tot st")
    case True
    have "safe_queue its relationId f (deletion_queue (queue_after its relationId isFull i st))"
      using less.prems(2,4) safe_queue_after by (simp add: queue_after_def)
    moreover have "f \<in> set (stored_files (queue_after its relationId isFull i st))" using kept by (simp add: queue_after_def)
    ultimately show ?thesis
      using less.hyps [OF goes_on_progress [OF True]] less.prems(1,4) unfolding queue_loop_continue [OF True] by blast
  next
    case False
    from queue_loop_stop [OF this] show ?thesis using less.prems(1) kept by auto
  qed
qed


section \<open>The loop over the files in progress\<close>

text \<open>The records a pass of the cleanup reads.\<close>

definition matching :: "(string \<Rightarrow> string \<Rightarrow> bool) \<Rightarrow> session \<Rightarrow> string \<Rightarrow> ip_state \<Rightarrow> in_progress_row list" where
  "matching ilike s loc st = filter (\<lambda>r. visible s r \<and> ilike (r_path r) (loc @ ''%'')) (ip_rows st)"

lemma GetInProgressFileRecords_eq:
  "GetInProgressFileRecords ilike s loc False st =
     (PER_LOOP_IN_PROGRESS_FILE_CLEANUP_LIMIT \<le> length (matching ilike s loc st),
      map row_entry (take PER_LOOP_IN_PROGRESS_FILE_CLEANUP_LIMIT (matching ilike s loc st)))"
  by (simp add: GetInProgressFileRecords_def matching_def row_entry_def [abs_def] take_map)

lemma commit_nothing:
  assumes "\<forall>r \<in> set (ip_rows st). r_inserter r \<noteq> Some s \<and> r_deleter r \<noteq> Some s"
    "\<forall>op. operation_locks st op \<noteq> Some s" "TransactionOperationId st s = 0"
  shows "commit_transaction s st = st"
proof -
  have "map (\<lambda>r. if r_inserter r = Some s then r\<lparr>r_inserter := None\<rparr> else r) (filter (\<lambda>r. r_deleter r \<noteq> Some s) (ip_rows st)) = ip_rows st"
    using assms(1) by (simp add: filter_id_conv [THEN iffD2] map_idI)
  then show ?thesis using assms(2,3) by (simp add: end_defs fun_upd_idem)
qed

lemma remove_entries_locked:
  assumes "\<forall>r \<in> set rs. \<exists>t. operation_locks st (r_operation_id r) = Some t \<and> t \<noteq> s"
  shows "remove_entries removes s (map row_entry rs) removed st = (removed, st)"
  using assms by (induction rs) (auto simp: TryLockTransactionOperationId_def row_entry_def)

text \<open>A pass meets only records whose operations are still running.\<close>

definition all_running :: "(string \<Rightarrow> string \<Rightarrow> bool) \<Rightarrow> session \<Rightarrow> string \<Rightarrow> ip_state \<Rightarrow> bool" where
  "all_running ilike s loc st \<longleftrightarrow>
     PER_LOOP_IN_PROGRESS_FILE_CLEANUP_LIMIT \<le> length (matching ilike s loc st) \<and>
     (\<forall>r \<in> set (take PER_LOOP_IN_PROGRESS_FILE_CLEANUP_LIMIT (matching ilike s loc st)).
        \<exists>t. operation_locks st (r_operation_id r) = Some t \<and> t \<noteq> s)"

text \<open>The session itself has nothing open.\<close>

definition nothing_open :: "session \<Rightarrow> ip_state \<Rightarrow> bool" where
  "nothing_open s st \<longleftrightarrow> (\<forall>r \<in> set (ip_rows st). r_inserter r \<noteq> Some s \<and> r_deleter r \<noteq> Some s) \<and>
     (\<forall>op. operation_locks st op \<noteq> Some s) \<and> TransactionOperationId st s = 0"

definition quiet :: "(nat \<Rightarrow> in_progress_iteration) \<Rightarrow> string \<Rightarrow> bool" where
  "quiet its loc \<longleftrightarrow> (\<forall>i. ii_location (its i) = Inr loc \<and> ii_error (its i) = None \<and> (\<forall>st. ii_others (its i) st = st))"

lemma RemoveInProgressFiles_running:
  assumes "all_running ilike s loc st"
  shows "RemoveInProgressFiles ilike removes s loc False st = Some (True, [], st)"
  using assms remove_entries_locked
  by (simp add: RemoveInProgressFiles_def GetInProgressFileRecords_eq all_running_def DeleteInProgressFileRecords_def)

definition stuck :: "(string \<Rightarrow> string \<Rightarrow> bool) \<Rightarrow> (nat \<Rightarrow> in_progress_iteration) \<Rightarrow> string \<Rightarrow> int \<Rightarrow> session \<Rightarrow> int \<Rightarrow> int \<Rightarrow> ip_state \<Rightarrow> bool" where
  "stuck ilike its loc M s relationId tot st \<longleftrightarrow> quiet its loc \<and> all_running ilike s (if relationId = InvalidOid then [] else loc) st \<and>
     nothing_open s st \<and> tot < M"

lemma in_progress_loop_stuck:
  assumes "stuck ilike its loc M s relationId tot st"
  shows "in_progress_loop ilike its M s relationId False i tot st = None"
proof (rule ccontr)
  assume "in_progress_loop ilike its M s relationId False i tot st \<noteq> None"
  then obtain y where y: "in_progress_loop ilike its M s relationId False i tot st = Some y" by auto
  have "\<not> (\<not> isFull \<and> stuck ilike its loc M s relationId tot st)"
    if "in_progress_loop ilike its M s relationId isFull i tot st = Some y" for ilike its M s relationId isFull i tot st y
  proof (rule in_progress_loop.raw_induct [where P = "\<lambda>ilike its M s relationId isFull i tot st y.
      \<not> (\<not> isFull \<and> stuck ilike its loc M s relationId tot st)", OF _ that])
    fix loop ilike its M s relationId isFull i tot st y
    assume ih: "\<And>ilike its M s relationId isFull i tot st z. loop ilike its M s relationId isFull i tot st = Some z \<Longrightarrow>
        \<not> (\<not> isFull \<and> stuck ilike its loc M s relationId tot st)"
      and run: "(case GetMetadataLocationPrefixForRelationId relationId (ii_location (its i)) of
          Inl e \<Rightarrow> Some (caught s e (its i) i tot st)
        | Inr locationPrefix \<Rightarrow> RemoveInProgressFiles ilike (ii_removes (its i)) s locationPrefix isFull st \<bind>
            (\<lambda>(hasRemainingFiles, removedFiles, st').
              case ii_error (its i) of
                None \<Rightarrow> let tot = tot + int (length removedFiles); st' = ii_others (its i) (commit_transaction s st')
                  in if \<not> isFull \<and> tot < M \<and> hasRemainingFiles then loop ilike its M s relationId isFull (i + 1) tot st'
                     else Some (None, i, tot, st')
              | Some e \<Rightarrow> Some (caught s e (its i) i tot st'))) = Some y"
    show "\<not> (\<not> isFull \<and> stuck ilike its loc M s relationId tot st)"
    proof
      assume h: "\<not> isFull \<and> stuck ilike its loc M s relationId tot st"
      then have loc: "GetMetadataLocationPrefixForRelationId relationId (ii_location (its i)) =
          Inr (if relationId = InvalidOid then [] else loc)"
        and q: "ii_error (its i) = None" "\<And>st. ii_others (its i) st = st" "tot < M" "commit_transaction s st = st"
        using commit_nothing [of st s]
        by (auto simp: stuck_def quiet_def GetMetadataLocationPrefixForRelationId_def nothing_open_def)
      have "RemoveInProgressFiles ilike removes s (if relationId = InvalidOid then [] else loc) isFull st = Some (True, [], st)" for removes
        using h RemoveInProgressFiles_running by (simp add: stuck_def)
      then have "loop ilike its M s relationId isFull (i + 1) tot st = Some y"
        using run h unfolding loc by (simp add: q)
      from ih [OF this] h show False by blast
    qed
  qed
  from this [OF y] assms show False by blast
qed


text \<open>With no transaction open, a pass removes every record it reads.\<close>

lemma RemoveInProgressFiles_settled:
  assumes "settled s st"
  shows "\<exists>st'. RemoveInProgressFiles ilike removes s loc False st =
      Some (PER_LOOP_IN_PROGRESS_FILE_CLEANUP_LIMIT \<le> length (matching ilike s loc st),
        map r_path (take PER_LOOP_IN_PROGRESS_FILE_CLEANUP_LIMIT (matching ilike s loc st)), st') \<and>
    settled s (commit_transaction s st') \<and>
    ip_rows (commit_transaction s st') =
      filter (\<lambda>r. r_path r \<notin> r_path ` set (take PER_LOOP_IN_PROGRESS_FILE_CLEANUP_LIMIT (matching ilike s loc st))) (ip_rows st)"
proof -
  define rs where "rs = take PER_LOOP_IN_PROGRESS_FILE_CLEANUP_LIMIT (matching ilike s loc st)"
  have v: "visible s r" if "r \<in> set (ip_rows st)" for r using assms that by (auto simp: settled_def visible_def)
  have sub: "set rs \<subseteq> set (ip_rows st)" unfolding rs_def matching_def using set_take_subset by fastforce
  obtain st1 where st1: "remove_entries removes s (map row_entry rs) [] st = (map r_path rs, st1)" "settled s st1" "ip_rows st1 = ip_rows st"
    using remove_entries_settled [OF assms sub, of removes "[]"] by auto
  let ?st2 = "st1\<lparr>ip_rows := map (\<lambda>r. if r_path r \<in> r_path ` set rs then r\<lparr>r_deleter := Some s\<rparr> else r) (ip_rows st)\<rparr>"
  have del: "DeleteInProgressFileRecords s (map r_path rs) st1 = Some ?st2"
  proof (cases "rs = []")
    case True
    then show ?thesis using st1(3) by (simp add: DeleteInProgressFileRecords_def)
  next
    case False
    have "\<not> list_ex (\<lambda>r. visible s r \<and> r_path r \<in> set (map r_path rs) \<and> r_deleter r \<noteq> None) (ip_rows st1)"
      using st1(2) by (auto simp: list_ex_iff settled_def)
    then show ?thesis using False v by (simp add: DeleteInProgressFileRecords_def st1(3) cong: map_cong)
  qed
  have n: "r_inserter r = None" "r_deleter r = None" if "r \<in> set (ip_rows st)" for r using assms that by (auto simp: settled_def)
  have f: "filter (\<lambda>r. r_deleter r \<noteq> Some s) (map (\<lambda>r. if P r then r\<lparr>r_deleter := Some s\<rparr> else r) rows) = filter (\<lambda>r. \<not> P r) rows"
    if "\<forall>r \<in> set rows. r_deleter r = None" for P and rows :: "in_progress_row list" using that by (induction rows) auto
  have rows: "ip_rows (commit_transaction s ?st2) = filter (\<lambda>r. r_path r \<notin> r_path ` set rs) (ip_rows st)"
    using n by (simp add: end_defs f) (rule map_idI, auto)
  have "settled s (commit_transaction s ?st2)"
    unfolding settled_def rows using st1(2,3) n by (auto simp: settled_def end_defs)
  moreover have "RemoveInProgressFiles ilike removes s loc False st =
      Some (PER_LOOP_IN_PROGRESS_FILE_CLEANUP_LIMIT \<le> length (matching ilike s loc st), map r_path rs, ?st2)"
    using st1(1) del by (simp add: RemoveInProgressFiles_def GetInProgressFileRecords_eq flip: rs_def)
  ultimately show ?thesis using rows unfolding rs_def by blast
qed


lemma in_progress_loop_done:
  assumes "quiet its loc" "settled s st"
  shows "\<exists>n t st'. in_progress_loop ilike its M s relationId False i tot st = Some (None, n, t, st') \<and>
    (M \<le> t \<or> matching ilike s (if relationId = InvalidOid then [] else loc) st' = [])"
  using assms(2)
proof (induction "nat (M - tot)" arbitrary: i tot st rule: less_induct)
  case less
  define l where "l = (if relationId = InvalidOid then [] else loc)"
  define rs where "rs = take PER_LOOP_IN_PROGRESS_FILE_CLEANUP_LIMIT (matching ilike s l st)"
  define more where "more \<longleftrightarrow> PER_LOOP_IN_PROGRESS_FILE_CLEANUP_LIMIT \<le> length (matching ilike s l st)"
  obtain st1 where st1: "RemoveInProgressFiles ilike (ii_removes (its i)) s l False st =
      Some (more, map r_path rs, st1)"
    and ok: "settled s (commit_transaction s st1)"
    and rows: "ip_rows (commit_transaction s st1) = filter (\<lambda>r. r_path r \<notin> r_path ` set rs) (ip_rows st)"
    using RemoveInProgressFiles_settled [OF less.prems] unfolding rs_def more_def by blast
  have "GetMetadataLocationPrefixForRelationId relationId (ii_location (its i)) = Inr l"
    and q: "ii_error (its i) = None" "\<And>st. ii_others (its i) st = st"
    using assms(1) by (auto simp: quiet_def GetMetadataLocationPrefixForRelationId_def l_def)
  then have step: "in_progress_loop ilike its M s relationId False i tot st =
    (if tot + int (length rs) < M \<and> more
     then in_progress_loop ilike its M s relationId False (i + 1) (tot + int (length rs)) (commit_transaction s st1)
     else Some (None, i, tot + int (length rs), commit_transaction s st1))"
    using st1 by (subst in_progress_loop.simps) (simp add: Let_def)
  show ?case
  proof (cases "tot + int (length rs) < M \<and> more")
    case True
    then have "nat (M - (tot + int (length rs))) < nat (M - tot)" by (simp add: rs_def more_def PER_LOOP_IN_PROGRESS_FILE_CLEANUP_LIMIT_def)
    from less.hyps [OF this ok, of "i + 1"] True show ?thesis unfolding step l_def by simp
  next
    case False
    have "matching ilike s l (commit_transaction s st1) = []" if "\<not> more"
    proof -
      have v: "visible s r" if "r \<in> set (ip_rows st)" for r using less.prems that by (auto simp: settled_def visible_def)
      have "rs = matching ilike s l st" using that by (simp add: rs_def more_def)
      then show ?thesis using v by (auto simp: matching_def rows filter_empty_conv)
    qed
    then show ?thesis using False unfolding step l_def by auto
  qed
qed


section \<open>Properties\<close>


text \<open>
  C7: The loop over the deletion queue keeps a file unless a row of the queue covers it that belongs to the vacuumed table
  (or to a dropped table) and whose retention period is over; rows other sessions add meanwhile are no exception.
\<close>

theorem VacuumRemoveDeletionQueueRecords_retention:
  assumes "VacuumRemoveDeletionQueueRecords its MaxFileRemovalsPerVacuum relationId isFull st = Some (e, n, t, st')"
    "safe_queue its relationId f (deletion_queue st)" "f \<in> set (stored_files st)"
    "\<And>i q. safe_queue its relationId f q \<Longrightarrow> safe_queue its relationId f (qi_others (its i) q)"
  shows "f \<in> set (stored_files st')"
  using queue_loop_keeps [OF assms(1) [unfolded VacuumRemoveDeletionQueueRecords_def] assms(2-4)] .

text \<open>File \<open>a\<close> was orphaned twenty days ago and \<open>b\<close> one day ago, with a retention of ten days.\<close>

definition sample_queue :: queue_state where
  "sample_queue =
     \<lparr>deletion_queue =
        [\<lparr>q_path = ''a'', q_table_name = 7, q_orphaned_at = Some 1000000, q_retry_count = 0, q_is_prefix = False\<rparr>,
         \<lparr>q_path = ''b'', q_table_name = 7, q_orphaned_at = Some 1641600000000, q_retry_count = 0, q_is_prefix = False\<rparr>],
      stored_files = [''a'', ''b'']\<rparr>"

definition sample_queue_env :: queue_env where
  "sample_queue_env =
     \<lparr>OrphanedFileRetentionPeriod = 864000, VacuumFileRemoveMaxRetries = 145, transaction_time = 1728000000000,
      in_pg_class = (\<lambda>_. True), removal_succeeds = (\<lambda>_. True), removed_anyway = (\<lambda>_. False)\<rparr>"

definition sample_queue_its :: "nat \<Rightarrow> queue_iteration" where
  "sample_queue_its i = \<lparr>qi_env = sample_queue_env, qi_error = None, qi_indeterminate = 0, qi_others = (\<lambda>q. q)\<rparr>"

lemma sample_queue_run:
  "\<exists>st'. VacuumRemoveDeletionQueueRecords sample_queue_its 100000 7 True sample_queue = Some (None, 0, 1, st') \<and>
     stored_files st' = [''b'']"
  by (simp add: VacuumRemoveDeletionQueueRecords_def queue_loop.simps sample_queue_its_def sample_queue_env_def
    sample_queue_def GetDeletionQueueRecords_def eligible_def expired_def RemoveDeletionQueueRecords_eq removed_by_def
    queue_entry_def queue_covers_def InvalidOid_def after_attempt_def attempted_def)

theorem VacuumRemoveDeletionQueueRecords_retention_witness:
  "\<exists>st'. VacuumRemoveDeletionQueueRecords sample_queue_its 100000 7 True sample_queue = Some (None, 0, 1, st') \<and>
     ''a'' \<notin> set (stored_files st') \<and> ''b'' \<in> set (stored_files st')"
proof -
  obtain st' where st': "VacuumRemoveDeletionQueueRecords sample_queue_its 100000 7 True sample_queue = Some (None, 0, 1, st')"
    "stored_files st' = [''b'']" using sample_queue_run by blast
  have "safe_queue sample_queue_its 7 ''b'' (deletion_queue sample_queue)"
    by (auto simp: safe_queue_def threatens_def sample_queue_def sample_queue_its_def sample_queue_env_def expired_def queue_covers_def)
  from VacuumRemoveDeletionQueueRecords_retention [OF st'(1) this] have "''b'' \<in> set (stored_files st')"
    by (simp add: sample_queue_def sample_queue_its_def)
  then show ?thesis using st' by auto
qed

text \<open>
  C19: When no transaction is open, the loop of \<^verbatim>\<open>VACUUM\<close> over the files in progress returns, and it has either reached the limit
  of removals or left no record of the table behind.
\<close>

theorem VacuumRemoveInProgressFiles_completes:
  assumes "quiet its loc" "settled s st" "isIceberg relationId"
  shows "\<exists>n t st'. VacuumRemoveInProgressFiles ilike its MaxFileRemovalsPerVacuum s isIceberg relationId False st = Some (None, n, t, st') \<and>
    (MaxFileRemovalsPerVacuum \<le> t \<or> matching ilike s (if relationId = InvalidOid then [] else loc) st' = [])"
  using in_progress_loop_done [OF assms(1,2)] assms(3) by (simp add: VacuumRemoveInProgressFiles_def)

definition sample_its :: "nat \<Rightarrow> in_progress_iteration" where
  "sample_its i = \<lparr>ii_location = Inr ''t'', ii_removes = (\<lambda>_. True), ii_error = None, ii_indeterminate = 0, ii_others = (\<lambda>st. st)\<rparr>"

lemma sample_its_quiet: "quiet sample_its ''t''"
  by (simp add: quiet_def sample_its_def)

text \<open>Sixty records of one operation, \<open>locks\<close> being who holds its lock.\<close>

definition sample_backlog :: "session option \<Rightarrow> ip_state" where
  "sample_backlog holder =
     \<lparr>ip_rows = map (\<lambda>i. sample_row (''t'' @ replicate i CHR ''x'') 1) [0..<60], operationid_seq = 1,
      operation_locks = (\<lambda>op. if op = 1 then holder else None), TransactionOperationId = (\<lambda>_. 0),
      remote_files = [], cleanups = (\<lambda>_. Idle)\<rparr>"

theorem VacuumRemoveInProgressFiles_completes_witness:
  "\<exists>n t st'. VacuumRemoveInProgressFiles (\<lambda>_ _. True) sample_its 100000 3 (\<lambda>_. True) 7 False (sample_backlog None) = Some (None, n, t, st') \<and>
    (100000 \<le> t \<or> matching (\<lambda>_ _. True) 3 ''t'' st' = [])"
proof -
  have "settled 3 (sample_backlog None)" by (auto simp: settled_def sample_backlog_def sample_row_def)
  from VacuumRemoveInProgressFiles_completes [OF sample_its_quiet this, of "\<lambda>_. True" 7 "\<lambda>_ _. True" 100000]
  show ?thesis by (simp add: InvalidOid_def)
qed

text \<open>
  C20: When the first fifty records a pass reads all belong to transactions that are still running, the loop over the files in progress
  removes nothing, counts nothing and starts over: it does not return.
\<close>

theorem VacuumRemoveInProgressFiles_stuck:
  assumes "quiet its loc" "all_running ilike s (if relationId = InvalidOid then [] else loc) st" "nothing_open s st"
    "isIceberg relationId" "0 < MaxFileRemovalsPerVacuum"
  shows "VacuumRemoveInProgressFiles ilike its MaxFileRemovalsPerVacuum s isIceberg relationId False st = None"
  using in_progress_loop_stuck [of ilike its loc MaxFileRemovalsPerVacuum s relationId 0 st] assms
  by (simp add: VacuumRemoveInProgressFiles_def stuck_def)

theorem VacuumRemoveInProgressFiles_stuck_witness:
  "VacuumRemoveInProgressFiles (\<lambda>_ _. True) sample_its 100000 3 (\<lambda>_. True) 7 False (sample_backlog (Some 1)) = None"
proof -
  let ?rows = "ip_rows (sample_backlog (Some 1))"
  have rows: "matching (\<lambda>_ _. True) 3 ''t'' (sample_backlog (Some 1)) = ?rows"
    by (auto simp: matching_def sample_backlog_def sample_row_def visible_def filter_id_conv)
  have op: "r_operation_id r = 1" if "r \<in> set (take k ?rows)" for r k
    using in_set_takeD [OF that] by (auto simp: sample_backlog_def sample_row_def)
  have "operation_locks (sample_backlog (Some 1)) 1 = Some 1" by (simp add: sample_backlog_def)
  then have "all_running (\<lambda>_ _. True) 3 ''t'' (sample_backlog (Some 1))"
    unfolding all_running_def rows using op
    by (auto simp: sample_backlog_def PER_LOOP_IN_PROGRESS_FILE_CLEANUP_LIMIT_def)
  moreover have "nothing_open 3 (sample_backlog (Some 1))" by (auto simp: nothing_open_def sample_backlog_def sample_row_def)
  ultimately show ?thesis
    using VacuumRemoveInProgressFiles_stuck [OF sample_its_quiet, of "\<lambda>_ _. True" 3 7 "sample_backlog (Some 1)" "\<lambda>_. True" 100000]
    by (simp add: InvalidOid_def)
qed

end
