(* ===== verification/Vacuum_Statement.thy ===== *)
theory Vacuum_Statement
  imports Prelude Deletion_Queue
begin

text \<open>
  \<^verbatim>\<open>pg_lake_table/src/ddl/vacuum.c\<close>: how a \<^verbatim>\<open>VACUUM\<close> statement and the autovacuum worker choose the lake tables to
  vacuum.  The system catalogs are an argument, as the look-ups the code makes in them; the outcome of a statement is the list of
  things it has done in order.
\<close>

section \<open>Statements and catalogs\<close>

record VacuumRelation =
  vr_relationId :: int
  vr_va_cols :: bool

record VacuumStmt =
  vs_options :: "(string \<times> bool) list"
  vs_rels :: "VacuumRelation list"
  vs_is_vacuumcmd :: bool

record vacuum_catalog =
  IsAnyLakeForeignTableById :: "int \<Rightarrow> bool"
  is_partitioned :: "int \<Rightarrow> bool"
  find_all_inheritors :: "int \<Rightarrow> int list"
  owns_relation :: "int \<Rightarrow> bool"
  owns_database :: bool
  is_writable :: "int \<Rightarrow> bool"
  IsReadOnlyIcebergTable :: "int \<Rightarrow> bool"
  relation_exists :: "int \<Rightarrow> bool"
  internal_iceberg_ids :: "int list"
  table_option :: "int \<Rightarrow> string \<Rightarrow> bool option"

datatype vacuum_action =
    RegularVacuum "VacuumRelation list"
  | CompactTable int
  | PermissionWarning int
  | ReadOnlyWarning int
  | CleanDropped bool

fun GetOption :: "(string \<times> bool) list \<Rightarrow> string \<Rightarrow> bool option result" where
  "GetOption [] optionName = Inr None"
| "GetOption ((defname, arg) # options) optionName =
     result_bind (GetOption options optionName) (\<lambda>later.
       if defname = optionName then (if later \<noteq> None then Inl (InvalidParameter ''conflicting or redundant options'') else Inr (Some arg))
       else Inr later)"

definition flag_option :: "(string \<times> bool) list \<Rightarrow> string \<Rightarrow> bool result" where
  "flag_option options optionName =
     result_bind (GetOption options optionName) (\<lambda>opt. Inr (case opt of None \<Rightarrow> False | Some b \<Rightarrow> b))"


section \<open>The statement\<close>

definition PG_LAKE_ICEBERG_VACUUM_FLAG :: string where
  "PG_LAKE_ICEBERG_VACUUM_FLAG = ''iceberg''"

fun remove_first :: "string \<Rightarrow> (string \<times> bool) list \<Rightarrow> (string \<times> bool) list" where
  "remove_first name [] = []"
| "remove_first name (opt # options) = (if fst opt = name then options else opt # remove_first name options)"

definition ProcessVacuumPgLakeIcebergFlag :: "vacuum_catalog \<Rightarrow> VacuumStmt \<Rightarrow> (bool \<times> VacuumStmt) result" where
  "ProcessVacuumPgLakeIcebergFlag cat stmt =
     (if PG_LAKE_ICEBERG_VACUUM_FLAG \<in> set (map fst (vs_options stmt)) then
        if vs_rels stmt \<noteq> [] then Inl (InvalidParameter ''VACUUM (ICEBERG) does not accept a list of relations'')
        else Inr (True, stmt\<lparr>vs_options := remove_first PG_LAKE_ICEBERG_VACUUM_FLAG (vs_options stmt),
               vs_rels := vs_rels stmt @ map (\<lambda>i. \<lparr>vr_relationId = i, vr_va_cols = False\<rparr>) (internal_iceberg_ids cat)\<rparr>)
      else Inr (False, stmt))"

definition GetPgLakePartitionIds :: "vacuum_catalog \<Rightarrow> int \<Rightarrow> int list" where
  "GetPgLakePartitionIds cat relationId = filter (IsAnyLakeForeignTableById cat) (find_all_inheritors cat relationId)"

fun IsVacuumLakeTable :: "vacuum_catalog \<Rightarrow> VacuumRelation list \<Rightarrow> bool" where
  "IsVacuumLakeTable cat [] = False"
| "IsVacuumLakeTable cat (vacuumRel # rels) =
     (if IsAnyLakeForeignTableById cat (vr_relationId vacuumRel) then True
      else if is_partitioned cat (vr_relationId vacuumRel) then GetPgLakePartitionIds cat (vr_relationId vacuumRel) \<noteq> []
      else IsVacuumLakeTable cat rels)"

fun split_relations ::
  "vacuum_catalog \<Rightarrow> bool \<Rightarrow> VacuumRelation list \<Rightarrow> VacuumRelation list \<Rightarrow> int list \<Rightarrow> vacuum_action list
     \<Rightarrow> (VacuumRelation list \<times> int list \<times> vacuum_action list) result" where
  "split_relations cat isAnalyze [] regularTables compactionCandidates actions = Inr (regularTables, compactionCandidates, actions)"
| "split_relations cat isAnalyze (vacuumRel # rels) regularTables compactionCandidates actions =
     (let relationId = vr_relationId vacuumRel in
      if IsAnyLakeForeignTableById cat relationId then
        if vr_va_cols vacuumRel \<and> \<not> isAnalyze
        then Inl (InternalError ''ANALYZE option must be specified when a column list is provided'')
        else if owns_relation cat relationId \<or> owns_database cat
        then split_relations cat isAnalyze rels regularTables (compactionCandidates @ [relationId]) actions
        else split_relations cat isAnalyze rels regularTables compactionCandidates (actions @ [PermissionWarning relationId])
      else
        let compactionCandidates = (if is_partitioned cat relationId
              then compactionCandidates @ GetPgLakePartitionIds cat relationId else compactionCandidates)
        in split_relations cat isAnalyze rels (regularTables @ [vacuumRel]) compactionCandidates actions)"

definition VacuumLakeTables :: "vacuum_catalog \<Rightarrow> bool \<Rightarrow> VacuumStmt \<Rightarrow> vacuum_action list result" where
  "VacuumLakeTables cat in_transaction_block stmt =
     (if in_transaction_block then Inl (InternalError ''VACUUM cannot run inside a transaction block'')
      else result_bind (flag_option (vs_options stmt) ''full'') (\<lambda>isFull.
        result_bind (flag_option (vs_options stmt) ''verbose'') (\<lambda>isVerbose.
        result_bind (flag_option (vs_options stmt) ''analyze'') (\<lambda>isAnalyze.
        result_bind (split_relations cat isAnalyze (vs_rels stmt) [] [] []) (\<lambda>(regularTables, compactionCandidates, actions).
          Inr (actions @ (if regularTables \<noteq> [] then [RegularVacuum regularTables] else []) @
            map (\<lambda>relationId. if \<not> is_writable cat relationId then ReadOnlyWarning relationId else CompactTable relationId)
              compactionCandidates))))))"

definition VacuumDroppedPgLakeIcebergTables :: "VacuumStmt \<Rightarrow> vacuum_action result" where
  "VacuumDroppedPgLakeIcebergTables stmt =
     result_bind (flag_option (vs_options stmt) ''full'') (\<lambda>isFull.
     result_bind (flag_option (vs_options stmt) ''verbose'') (\<lambda>isVerbose. Inr (CleanDropped isFull)))"

text \<open>\<open>None\<close> leaves the statement to PostgreSQL.\<close>

definition ProcessVacuumPgLakeTable :: "vacuum_catalog \<Rightarrow> bool \<Rightarrow> VacuumStmt \<Rightarrow> vacuum_action list option result" where
  "ProcessVacuumPgLakeTable cat in_transaction_block stmt =
     (if \<not> vs_is_vacuumcmd stmt then Inr None
      else result_bind (ProcessVacuumPgLakeIcebergFlag cat stmt) (\<lambda>(hasIcebergFlag, stmt).
        if \<not> hasIcebergFlag \<and> \<not> IsVacuumLakeTable cat (vs_rels stmt) then Inr None
        else result_bind (VacuumLakeTables cat in_transaction_block stmt) (\<lambda>actions.
          if hasIcebergFlag
          then result_bind (VacuumDroppedPgLakeIcebergTables stmt) (\<lambda>a. Inr (Some (actions @ [a])))
          else Inr (Some actions))))"


section \<open>The autovacuum worker\<close>

definition IsAutoVacuumEnabled :: "vacuum_catalog \<Rightarrow> int \<Rightarrow> bool" where
  "IsAutoVacuumEnabled cat relationId = (case table_option cat relationId ''autovacuum_enabled'' of Some b \<Rightarrow> b | None \<Rightarrow> True)"

definition IsAutoVacuumCompactDataFilesEnabled :: "vacuum_catalog \<Rightarrow> int \<Rightarrow> bool" where
  "IsAutoVacuumCompactDataFilesEnabled cat relationId =
     (case table_option cat relationId ''autovacuum_compact_data_files'' of Some b \<Rightarrow> b | None \<Rightarrow> True)"

definition GetAutoVacuumEnabledTables :: "vacuum_catalog \<Rightarrow> int list \<Rightarrow> int list" where
  "GetAutoVacuumEnabledTables cat relationIdList = filter (IsAutoVacuumEnabled cat) relationIdList"

definition PgLakeIcebergVacuumForRelation :: "vacuum_catalog \<Rightarrow> bool \<Rightarrow> int \<Rightarrow> vacuum_action list" where
  "PgLakeIcebergVacuumForRelation cat firstLoop relationId =
     (if \<not> relation_exists cat relationId then []
      else if IsReadOnlyIcebergTable cat relationId then (if firstLoop then [ReadOnlyWarning relationId] else [])
      else [CompactTable relationId])"

definition PgLakeIcebergVacuumForTables :: "vacuum_catalog \<Rightarrow> bool \<Rightarrow> vacuum_action list" where
  "PgLakeIcebergVacuumForTables cat firstLoop =
     concat (map (PgLakeIcebergVacuumForRelation cat firstLoop) (GetAutoVacuumEnabledTables cat (internal_iceberg_ids cat)))"


section \<open>Which tables are vacuumed\<close>

lemma split_relations_ok:
  assumes "split_relations cat isAnalyze rels regular candidates actions = Inr (regular', candidates', actions')"
  shows "regular' = regular @ filter (\<lambda>r. \<not> IsAnyLakeForeignTableById cat (vr_relationId r)) rels \<and>
    set candidates' = set candidates \<union>
      {i \<in> vr_relationId ` set rels. IsAnyLakeForeignTableById cat i \<and> (owns_relation cat i \<or> owns_database cat)} \<union>
      {i. \<exists>r \<in> set rels. \<not> IsAnyLakeForeignTableById cat (vr_relationId r) \<and> is_partitioned cat (vr_relationId r) \<and>
         i \<in> set (GetPgLakePartitionIds cat (vr_relationId r))}"
  using assms
proof (induction rels arbitrary: regular candidates actions)
  case (Cons r rels)
  show ?case
  proof (cases "IsAnyLakeForeignTableById cat (vr_relationId r)")
    case True
    then show ?thesis using Cons.prems Cons.IH by (auto simp: Let_def split: if_splits)
  next
    case False
    then show ?thesis using Cons.prems Cons.IH [of "regular @ [r]"] by (auto simp: Let_def)
  qed
qed simp


text \<open>The user owns table 1 and the partitioned table 2, and not the partition 3 of table 2.\<close>

definition sample_catalog :: vacuum_catalog where
  "sample_catalog =
     \<lparr>IsAnyLakeForeignTableById = (\<lambda>i. i \<in> {1, 3}), is_partitioned = (\<lambda>i. i = 2),
      find_all_inheritors = (\<lambda>i. if i = 2 then [2, 3] else [i]), owns_relation = (\<lambda>i. i \<in> {1, 2}), owns_database = False,
      is_writable = (\<lambda>_. True), IsReadOnlyIcebergTable = (\<lambda>_. False), relation_exists = (\<lambda>_. True), internal_iceberg_ids = [1, 3],
      table_option = (\<lambda>_ _. None)\<rparr>"

definition sample_vacuum :: VacuumStmt where
  "sample_vacuum = \<lparr>vs_options = [], vs_rels = [\<lparr>vr_relationId = 1, vr_va_cols = False\<rparr>, \<lparr>vr_relationId = 2, vr_va_cols = False\<rparr>],
     vs_is_vacuumcmd = True\<rparr>"


text \<open>A partitioned table without lake partitions hides the lake tables named after it.\<close>

lemma IsVacuumLakeTable_hides:
  assumes "\<not> IsAnyLakeForeignTableById cat (vr_relationId r)" "is_partitioned cat (vr_relationId r)"
    "GetPgLakePartitionIds cat (vr_relationId r) = []"
  shows "\<not> IsVacuumLakeTable cat (r # rels)"
  using assms by simp

end
