(* ===== verification/Partition_By_Parser.thy ===== *)
theory Partition_By_Parser
  imports Iceberg_Types String_Utils
begin

text \<open>
  \<^verbatim>\<open>pg_lake_table/src/fdw/partitioning/partition_by_parser.c\<close>: the option \<^verbatim>\<open>partition_by\<close> of a table, parsed into
  partition transforms and analyzed against the columns of the table.  A position in the C string is the rest of the string from there, the
  terminating zero being the empty rest; a parser returns what it read and the rest.  \<open>lower\<close> is \<^verbatim>\<open>tolower\<close> in the current locale.
\<close>

section \<open>Characters\<close>

definition c_isspace :: "char \<Rightarrow> bool" where
  "c_isspace c \<longleftrightarrow> of_char c \<in> {32, 9, 10, 11, 12, 13 :: nat}"

definition c_isdigit :: "char \<Rightarrow> bool" where
  "c_isdigit c \<longleftrightarrow> 48 \<le> (of_char c :: nat) \<and> (of_char c :: nat) \<le> 57"

definition pg_tolower :: "char \<Rightarrow> char" where
  "pg_tolower c = (if 65 \<le> (of_char c :: nat) \<and> (of_char c :: nat) \<le> 90 then char_of (of_char c + 32 :: nat) else c)"

definition SkipWhitespace :: "string \<Rightarrow> string" where
  "SkipWhitespace s = dropWhile c_isspace s"


section \<open>Tokens\<close>

text \<open>The value is a 32-bit integer that wraps around; only a result that is not positive is refused.\<close>

fun parse_digits :: "string \<Rightarrow> int \<Rightarrow> bool \<Rightarrow> (int \<times> bool \<times> string) result" where
  "parse_digits [] val hasDigit = Inr (val, hasDigit, [])"
| "parse_digits (c # s) val hasDigit =
     (if c_isdigit c
      then let val = wrap32 (val * 10 + (of_char c - 48))
           in if val \<le> 0 then Inl (InvalidParameter ''bucket or truncate size must be between 1 and 2147483647'')
              else parse_digits s val True
      else Inr (val, hasDigit, c # s))"

definition ParseInteger :: "string \<Rightarrow> (int \<times> string) result" where
  "ParseInteger s =
     result_bind (parse_digits (SkipWhitespace s) 0 False) (\<lambda>(val, hasDigit, rest).
       if \<not> hasDigit then Inl (SyntaxError ''expected integer parameter for partition transform'') else Inr (val, rest))"

text \<open>A quoted token keeps its quotes; two quotes in a row do not end it.\<close>

fun scan_quoted :: "string \<Rightarrow> string \<Rightarrow> (string \<times> string) result" where
  "scan_quoted acc [] = Inl (SyntaxError ''missing closing quote'')"
| "scan_quoted acc (c # s) =
     (if c = CHR 0x22
      then (case s of
              c' # s' \<Rightarrow> if c' = CHR 0x22 then scan_quoted (acc @ [c, c']) s' else Inr (acc @ [c], s)
            | [] \<Rightarrow> Inr (acc @ [c], s))
      else scan_quoted (acc @ [c]) s)"

definition ident_char :: "char \<Rightarrow> bool" where
  "ident_char c \<longleftrightarrow> \<not> c_isspace c \<and> c \<noteq> CHR ''('' \<and> c \<noteq> CHR '')'' \<and> c \<noteq> CHR '',''"

definition ParseIdentifier :: "string \<Rightarrow> (string \<times> string) result" where
  "ParseIdentifier s =
     (case SkipWhitespace s of
        [] \<Rightarrow> Inl (SyntaxError ''unexpected end of string while parsing identifier'')
      | c # s' \<Rightarrow>
          if c = CHR 0x22 then result_bind (scan_quoted [c] s') (\<lambda>(ident, rest). Inr (ident, SkipWhitespace rest))
          else let ident = takeWhile ident_char (c # s') in
               if ident = [] then Inl (SyntaxError ''expected identifier while parsing partition_by'')
               else Inr (ident, SkipWhitespace (dropWhile ident_char (c # s'))))"

definition LookupTransformType :: "string \<Rightarrow> IcebergPartitionTransformType result" where
  "LookupTransformType str =
     (let name = map pg_tolower str in
      if name = ''year'' then Inr PARTITION_TRANSFORM_YEAR
      else if name = ''month'' then Inr PARTITION_TRANSFORM_MONTH
      else if name = ''day'' then Inr PARTITION_TRANSFORM_DAY
      else if name = ''hour'' then Inr PARTITION_TRANSFORM_HOUR
      else if name = ''bucket'' then Inr PARTITION_TRANSFORM_BUCKET
      else if name = ''truncate'' then Inr PARTITION_TRANSFORM_TRUNCATE
      else if name = ''void'' then Inr PARTITION_TRANSFORM_VOID
      else Inl (SyntaxError (''unknown partition transform '' @ str)))"

fun unescape_quotes :: "string \<Rightarrow> string" where
  "unescape_quotes (c # c' # s) =
     (if c = CHR 0x22 \<and> c' = CHR 0x22 then c # unescape_quotes s else c # unescape_quotes (c' # s))"
| "unescape_quotes s = s"

definition NormalizeTransformColumnName :: "(char \<Rightarrow> char) \<Rightarrow> string \<Rightarrow> string" where
  "NormalizeTransformColumnName lower colName =
     (if 1 < length colName \<and> hd colName = CHR 0x22 \<and> last colName = CHR 0x22
      then unescape_quotes (butlast (tl colName)) else map lower colName)"


section \<open>The list of transforms\<close>

definition zero_transform :: IcebergPartitionTransform where
  "zero_transform =
     \<lparr>transform_type = PARTITION_TRANSFORM_IDENTITY, transform_arg = 0, partitionFieldId = 0, partitionFieldName = [],
      transformName = [], sourceField = FieldStructElement 0 [] False None None None None (FieldScalar []), columnName = [],
      attnum = 0, tr_pgType = MakePGType (OTHEROID 0) 0, resultPgType = MakePGType (OTHEROID 0) 0\<rparr>"

definition has_argument :: "IcebergPartitionTransformType \<Rightarrow> bool" where
  "has_argument type \<longleftrightarrow> type = PARTITION_TRANSFORM_BUCKET \<or> type = PARTITION_TRANSFORM_TRUNCATE"

definition parse_argument :: "IcebergPartitionTransformType \<Rightarrow> string \<Rightarrow> (nat \<times> string) result" where
  "parse_argument type s =
     (if has_argument type
      then result_bind (ParseInteger s) (\<lambda>(param, s).
        case SkipWhitespace s of
          [] \<Rightarrow> Inl (SyntaxError ''expected comma after column name'')
        | c # s \<Rightarrow> if c = CHR '','' then Inr (nat param, s) else Inl (SyntaxError ''expected comma after column name''))
      else Inr (0, s))"

definition ParseOneTransform :: "(char \<Rightarrow> char) \<Rightarrow> string \<Rightarrow> (IcebergPartitionTransform \<times> string) result" where
  "ParseOneTransform lower s =
     result_bind (ParseIdentifier s) (\<lambda>(token, s).
       case SkipWhitespace s of
         c # s' \<Rightarrow>
           if c = CHR ''('' then
             result_bind (LookupTransformType token) (\<lambda>type.
             result_bind (parse_argument type (SkipWhitespace s')) (\<lambda>(arg, s).
             result_bind (ParseIdentifier (SkipWhitespace s)) (\<lambda>(colName, s).
               case SkipWhitespace s of
                 [] \<Rightarrow> Inl (SyntaxError ''missing closing parenthesis in partition transform'')
               | c # s \<Rightarrow>
                   if c = CHR '')''
                   then Inr (zero_transform\<lparr>transform_type := type, transform_arg := arg,
                               columnName := NormalizeTransformColumnName lower colName\<rparr>, s)
                   else Inl (SyntaxError ''missing closing parenthesis in partition transform''))))
           else Inr (zero_transform\<lparr>columnName := NormalizeTransformColumnName lower token\<rparr>, c # s')
       | [] \<Rightarrow> Inr (zero_transform\<lparr>columnName := NormalizeTransformColumnName lower token\<rparr>, []))"

lemma SkipWhitespace_length: "length (SkipWhitespace s) \<le> length s"
  by (simp add: SkipWhitespace_def length_dropWhile_le)

lemma scan_quoted_length: "scan_quoted acc s = Inr (t, r) \<Longrightarrow> length r < length s"
proof (induction acc s rule: scan_quoted.induct)
  case (2 acc c s)
  then show ?case by (cases s) (fastforce split: if_splits)+
qed simp

lemma ParseIdentifier_length: "ParseIdentifier s = Inr (t, r) \<Longrightarrow> length r < length s"
proof -
  assume h: "ParseIdentifier s = Inr (t, r)"
  obtain c s' where s: "SkipWhitespace s = c # s'" using h by (cases "SkipWhitespace s") (auto simp: ParseIdentifier_def)
  have le: "length (c # s') \<le> length s" using SkipWhitespace_length [of s] s by simp
  show ?thesis
  proof (cases "c = CHR 0x22")
    case True
    then obtain q where "scan_quoted [c] s' = Inr (t, q)" "r = SkipWhitespace q"
      using h s by (auto simp: ParseIdentifier_def result_bind_Inr_iff)
    then show ?thesis using scan_quoted_length SkipWhitespace_length [of q] le by fastforce
  next
    case False
    then have r: "r = SkipWhitespace (dropWhile ident_char (c # s'))" and n: "takeWhile ident_char (c # s') \<noteq> []"
      using h s by (auto simp: ParseIdentifier_def Let_def split: if_splits)
    have "length (dropWhile ident_char (c # s')) < length (c # s')"
      using n takeWhile_dropWhile_id [of ident_char "c # s'"] by (metis length_append length_greater_0_conv less_add_same_cancel2)
    then show ?thesis using le SkipWhitespace_length [of "dropWhile ident_char (c # s')"] unfolding r by linarith
  qed
qed

lemma parse_digits_length: "parse_digits s v h = Inr (v', h', r) \<Longrightarrow> length r \<le> length s"
proof (induction s arbitrary: v h)
  case (Cons c s)
  then show ?case by (fastforce simp: Let_def split: if_splits)
qed simp

lemma ParseInteger_length: "ParseInteger s = Inr (v, r) \<Longrightarrow> length r \<le> length s"
  using parse_digits_length SkipWhitespace_length [of s]
  by (fastforce simp: ParseInteger_def result_bind_Inr_iff split: if_splits)

lemma parse_argument_length:
  assumes "parse_argument type s = Inr (n, r)"
  shows "length r \<le> length s"
proof (cases "has_argument type")
  case True
  then obtain v q where p: "ParseInteger s = Inr (v, q)"
    and q: "(case SkipWhitespace q of [] \<Rightarrow> Inl (SyntaxError ''expected comma after column name'')
        | c # s \<Rightarrow> if c = CHR '','' then Inr (nat v, s) else Inl (SyntaxError ''expected comma after column name'')) = Inr (n, r)"
    using assms by (auto simp: parse_argument_def result_bind_Inr_iff)
  from q have "length r \<le> length (SkipWhitespace q)" by (auto split: list.splits if_splits)
  then show ?thesis using ParseInteger_length [OF p] SkipWhitespace_length [of q] by simp
qed (use assms in \<open>simp add: parse_argument_def\<close>)

lemma ParseOneTransform_length:
  assumes "ParseOneTransform lower s = Inr (t, r)"
  shows "length r < length s"
proof -
  obtain token q where i: "ParseIdentifier s = Inr (token, q)" using assms by (auto simp: ParseOneTransform_def result_bind_Inr_iff)
  have le: "length (SkipWhitespace q) < length s" using ParseIdentifier_length [OF i] SkipWhitespace_length [of q] by simp
  show ?thesis
  proof (cases "SkipWhitespace q")
    case Nil
    then show ?thesis using assms i le by (simp add: ParseOneTransform_def)
  next
    case (Cons c q')
    show ?thesis
    proof (cases "c = CHR ''(''")
      case True
      then obtain type arg s1 colName s2 where p: "parse_argument type (SkipWhitespace q') = Inr (arg, s1)"
        "ParseIdentifier (SkipWhitespace s1) = Inr (colName, s2)"
        and r: "(case SkipWhitespace s2 of [] \<Rightarrow> Inl (SyntaxError ''missing closing parenthesis in partition transform'')
          | c # s \<Rightarrow> if c = CHR '')'' then Inr (zero_transform\<lparr>transform_type := type, transform_arg := arg,
              columnName := NormalizeTransformColumnName lower colName\<rparr>, s)
            else Inl (SyntaxError ''missing closing parenthesis in partition transform'')) = Inr (t, r)"
        using assms i Cons by (auto simp: ParseOneTransform_def result_bind_Inr_iff)
      from r have "length r \<le> length (SkipWhitespace s2)" by (auto split: list.splits if_splits)
      then show ?thesis
        using parse_argument_length [OF p(1)] ParseIdentifier_length [OF p(2)] le Cons SkipWhitespace_length [of q']
          SkipWhitespace_length [of s1] SkipWhitespace_length [of s2] by simp
    next
      case False
      then show ?thesis using assms i Cons le by (simp add: ParseOneTransform_def)
    qed
  qed
qed

function parse_transforms ::
  "(char \<Rightarrow> char) \<Rightarrow> bool \<Rightarrow> string \<Rightarrow> IcebergPartitionTransform list \<Rightarrow> IcebergPartitionTransform list result" where
  "parse_transforms lower seenComma p transforms =
     (if SkipWhitespace p = [] then
        if seenComma then Inl (SyntaxError ''expected transform name or column name after comma'') else Inr transforms
      else case ParseOneTransform lower (SkipWhitespace p) of
        Inl e \<Rightarrow> Inl e
      | Inr (transform, q) \<Rightarrow>
          (case SkipWhitespace q of
             [] \<Rightarrow> Inr (transforms @ [transform])
           | c # r \<Rightarrow>
               if c = CHR '','' then parse_transforms lower True r (transforms @ [transform])
               else Inl (SyntaxError ''unexpected character in partition_by string'')))"
  by pat_completeness auto
termination
proof (relation "measure (\<lambda>(lower, seenComma, p, transforms). length p)", goal_cases)
  case (2 lower seenComma p transforms x transform q c r)
  then show ?case
    using ParseOneTransform_length [of lower "SkipWhitespace p" transform q] SkipWhitespace_length [of p] SkipWhitespace_length [of q]
    by simp
qed simp

declare parse_transforms.simps [simp del]

definition IsEmptyPartitionBy :: "string \<Rightarrow> bool" where
  "IsEmptyPartitionBy partitionBy \<longleftrightarrow> SkipWhitespace partitionBy = []"

definition ParseIcebergTablePartitionBy :: "(char \<Rightarrow> char) \<Rightarrow> string option \<Rightarrow> IcebergPartitionTransform list result" where
  "ParseIcebergTablePartitionBy lower partitionByOption =
     (case partitionByOption of
        None \<Rightarrow> Inr []
      | Some partitionBy \<Rightarrow>
          if IsEmptyPartitionBy partitionBy then Inl (SyntaxError ''partition_by option cannot be empty'')
          else parse_transforms lower False partitionBy [])"

definition IsIcebergTableWithDefaultPartitionSpec :: "string option \<Rightarrow> bool" where
  "IsIcebergTableWithDefaultPartitionSpec partitionByOption \<longleftrightarrow> partitionByOption = None"


section \<open>Names and types of transforms\<close>

definition GenerateTransformName :: "IcebergPartitionTransform \<Rightarrow> string" where
  "GenerateTransformName transform =
     (case transform_type transform of
        PARTITION_TRANSFORM_IDENTITY \<Rightarrow> ''identity''
      | PARTITION_TRANSFORM_BUCKET \<Rightarrow> ''bucket['' @ nat_digits (transform_arg transform) @ '']''
      | PARTITION_TRANSFORM_TRUNCATE \<Rightarrow> ''truncate['' @ nat_digits (transform_arg transform) @ '']''
      | PARTITION_TRANSFORM_YEAR \<Rightarrow> ''year''
      | PARTITION_TRANSFORM_MONTH \<Rightarrow> ''month''
      | PARTITION_TRANSFORM_DAY \<Rightarrow> ''day''
      | PARTITION_TRANSFORM_HOUR \<Rightarrow> ''hour''
      | PARTITION_TRANSFORM_VOID \<Rightarrow> ''void'')"

definition GeneratePartitionFieldName :: "IcebergPartitionTransform \<Rightarrow> string" where
  "GeneratePartitionFieldName transform =
     (case transform_type transform of
        PARTITION_TRANSFORM_IDENTITY \<Rightarrow> columnName transform
      | PARTITION_TRANSFORM_BUCKET \<Rightarrow> columnName transform @ ''_bucket_'' @ nat_digits (transform_arg transform)
      | PARTITION_TRANSFORM_TRUNCATE \<Rightarrow> columnName transform @ ''_trunc_'' @ nat_digits (transform_arg transform)
      | PARTITION_TRANSFORM_YEAR \<Rightarrow> columnName transform @ ''_year''
      | PARTITION_TRANSFORM_MONTH \<Rightarrow> columnName transform @ ''_month''
      | PARTITION_TRANSFORM_DAY \<Rightarrow> columnName transform @ ''_day''
      | PARTITION_TRANSFORM_HOUR \<Rightarrow> columnName transform @ ''_hour''
      | PARTITION_TRANSFORM_VOID \<Rightarrow> columnName transform @ ''_void'')"

definition AdjustTypmodForTruncateTransformIfNeeded :: "IcebergPartitionTransform \<Rightarrow> int result" where
  "AdjustTypmodForTruncateTransformIfNeeded transform =
     (let pgType = tr_pgType transform; typmod = postgresTypeMod pgType in
      if (postgresTypeOid pgType = VARCHAROID \<or> postgresTypeOid pgType = BPCHAROID) \<and> typmod \<noteq> - 1
      then result_bind (GetAnyCharLengthFrom typmod) (\<lambda>len.
        Inr (if int (transform_arg transform) < len then AdjustAnyCharTypmod typmod (int (transform_arg transform)) else typmod))
      else Inr typmod)"

definition GetTransformResultPGType :: "IcebergPartitionTransform \<Rightarrow> PGType result" where
  "GetTransformResultPGType transform =
     (case transform_type transform of
        PARTITION_TRANSFORM_IDENTITY \<Rightarrow> Inr (tr_pgType transform)
      | PARTITION_TRANSFORM_TRUNCATE \<Rightarrow>
          result_bind (AdjustTypmodForTruncateTransformIfNeeded transform) (\<lambda>typmod.
            Inr (MakePGType (if postgresTypeOid (tr_pgType transform) = INT2OID then INT4OID else postgresTypeOid (tr_pgType transform)) typmod))
      | PARTITION_TRANSFORM_VOID \<Rightarrow> Inl (FeatureNotSupported ''void partition transform is not supported'')
      | _ \<Rightarrow> Inr (MakePGType INT4OID (- 1)))"

definition IsDateOrTimestampType :: "pg_oid \<Rightarrow> bool" where
  "IsDateOrTimestampType typeOid \<longleftrightarrow> typeOid = DATEOID \<or> typeOid = TIMESTAMPOID \<or> typeOid = TIMESTAMPTZOID"

definition IsTimeOrTimestampType :: "pg_oid \<Rightarrow> bool" where
  "IsTimeOrTimestampType typeOid \<longleftrightarrow> typeOid = TIMEOID \<or> typeOid = TIMETZOID \<or> typeOid = TIMESTAMPOID \<or> typeOid = TIMESTAMPTZOID"

definition EnsureValidTypeForIdentityTransform :: "pg_oid \<Rightarrow> unit result" where
  "EnsureValidTypeForIdentityTransform typeOid =
     (if \<not> IsDateOrTimestampType typeOid \<and> \<not> IsTimeOrTimestampType typeOid \<and>
         typeOid \<noteq> INT2OID \<and> typeOid \<noteq> INT4OID \<and> typeOid \<noteq> INT8OID \<and> typeOid \<noteq> BOOLOID \<and>
         typeOid \<noteq> FLOAT4OID \<and> typeOid \<noteq> FLOAT8OID \<and> typeOid \<noteq> NUMERICOID \<and>
         typeOid \<noteq> TEXTOID \<and> typeOid \<noteq> VARCHAROID \<and> typeOid \<noteq> BPCHAROID \<and> typeOid \<noteq> BYTEAOID \<and> typeOid \<noteq> UUIDOID
      then Inl (DatatypeMismatch ''identity transform'') else Inr ())"

definition EnsureValidTypeForYearTransform :: "pg_oid \<Rightarrow> unit result" where
  "EnsureValidTypeForYearTransform typeOid =
     (if \<not> IsDateOrTimestampType typeOid then Inl (DatatypeMismatch ''year transform'') else Inr ())"

definition EnsureValidTypeForMonthTransform :: "pg_oid \<Rightarrow> unit result" where
  "EnsureValidTypeForMonthTransform typeOid =
     (if \<not> IsDateOrTimestampType typeOid then Inl (DatatypeMismatch ''month transform'') else Inr ())"

definition EnsureValidTypeForDayTransform :: "pg_oid \<Rightarrow> unit result" where
  "EnsureValidTypeForDayTransform typeOid =
     (if \<not> IsDateOrTimestampType typeOid then Inl (DatatypeMismatch ''day transform'') else Inr ())"

definition EnsureValidTypeForHourTransform :: "pg_oid \<Rightarrow> unit result" where
  "EnsureValidTypeForHourTransform typeOid =
     (if typeOid \<noteq> TIMESTAMPOID \<and> typeOid \<noteq> TIMESTAMPTZOID then Inl (DatatypeMismatch ''hour transform'') else Inr ())"

definition EnsureValidTypeForTruncateTransform :: "pg_oid \<Rightarrow> unit result" where
  "EnsureValidTypeForTruncateTransform typeOid =
     (if typeOid \<noteq> INT2OID \<and> typeOid \<noteq> INT4OID \<and> typeOid \<noteq> INT8OID \<and> typeOid \<noteq> TEXTOID \<and> typeOid \<noteq> VARCHAROID \<and>
         typeOid \<noteq> BPCHAROID \<and> typeOid \<noteq> BYTEAOID
      then Inl (DatatypeMismatch ''truncate transform'') else Inr ())"

definition EnsureValidTypeForBucketTransform :: "pg_oid \<Rightarrow> unit result" where
  "EnsureValidTypeForBucketTransform typeOid =
     (if \<not> IsDateOrTimestampType typeOid \<and> \<not> IsTimeOrTimestampType typeOid \<and>
         typeOid \<noteq> INT2OID \<and> typeOid \<noteq> INT4OID \<and> typeOid \<noteq> INT8OID \<and> typeOid \<noteq> NUMERICOID \<and>
         typeOid \<noteq> TEXTOID \<and> typeOid \<noteq> VARCHAROID \<and> typeOid \<noteq> BPCHAROID \<and> typeOid \<noteq> BYTEAOID \<and> typeOid \<noteq> UUIDOID
      then Inl (DatatypeMismatch ''bucket transform'') else Inr ())"

definition EnsureValidTypeForTransform :: "IcebergPartitionTransformType \<Rightarrow> pg_oid \<Rightarrow> unit result" where
  "EnsureValidTypeForTransform transformType typeOid =
     (case transformType of
        PARTITION_TRANSFORM_YEAR \<Rightarrow> EnsureValidTypeForYearTransform typeOid
      | PARTITION_TRANSFORM_MONTH \<Rightarrow> EnsureValidTypeForMonthTransform typeOid
      | PARTITION_TRANSFORM_DAY \<Rightarrow> EnsureValidTypeForDayTransform typeOid
      | PARTITION_TRANSFORM_HOUR \<Rightarrow> EnsureValidTypeForHourTransform typeOid
      | PARTITION_TRANSFORM_BUCKET \<Rightarrow> EnsureValidTypeForBucketTransform typeOid
      | PARTITION_TRANSFORM_TRUNCATE \<Rightarrow> EnsureValidTypeForTruncateTransform typeOid
      | PARTITION_TRANSFORM_IDENTITY \<Rightarrow> EnsureValidTypeForIdentityTransform typeOid
      | PARTITION_TRANSFORM_VOID \<Rightarrow> Inl (FeatureNotSupported ''void partition transform is not supported''))"


section \<open>Analysis\<close>

text \<open>A column that is not dropped: its name, number, type, whether its collation is the default one, \<^verbatim>\<open>C\<close> or none, and the field it
  is registered as.\<close>

record column_info =
  ci_name :: string
  ci_attnum :: int
  ci_type :: PGType
  ci_plain_collation :: bool
  ci_field :: DataFileSchemaField

definition EnsureTransformSourceColumnExists :: "column_info list \<Rightarrow> IcebergPartitionTransform \<Rightarrow> column_info result" where
  "EnsureTransformSourceColumnExists columns transform =
     (case find (\<lambda>c. ci_name c = columnName transform) columns of
        None \<Rightarrow> Inl (UndefinedColumn (columnName transform))
      | Some c \<Rightarrow> Inr c)"

definition EnsureTransformSourceColumnScalar :: "DataFileSchemaField \<Rightarrow> unit result" where
  "EnsureTransformSourceColumnScalar field =
     (case elem_type field of FieldScalar _ \<Rightarrow> Inr ()
      | _ \<Rightarrow> Inl (DatatypeMismatch ''partition transform column must be a scalar type''))"

definition analyze_transform ::
  "column_info list \<Rightarrow> int \<Rightarrow> IcebergPartitionTransform \<Rightarrow> IcebergPartitionTransform result" where
  "analyze_transform columns largestPartitionFieldId transform =
     result_bind (EnsureTransformSourceColumnExists columns transform) (\<lambda>column.
     let transform = transform\<lparr>attnum := ci_attnum column, tr_pgType := ci_type column\<rparr> in
     if \<not> ci_plain_collation column then Inl (FeatureNotSupported ''Columns with collation are not supported in partition_by'')
     else result_bind (GetTransformResultPGType transform) (\<lambda>resultType.
       let transform = transform\<lparr>resultPgType := resultType\<rparr> in
       result_bind (EnsureTransformSourceColumnScalar (ci_field column)) (\<lambda>_.
       let transform = transform\<lparr>sourceField := ci_field column\<rparr>;
           transform = transform\<lparr>transformName := GenerateTransformName transform\<rparr>;
           transform = transform\<lparr>partitionFieldName := GeneratePartitionFieldName transform\<rparr>;
           transform = transform\<lparr>partitionFieldId := wrap32 (largestPartitionFieldId + 1)\<rparr>
       in result_bind (EnsureValidTypeForTransform (transform_type transform) (postgresTypeOid (tr_pgType transform))) (\<lambda>_.
          Inr transform))))"

fun analyze_transforms ::
  "column_info list \<Rightarrow> int \<Rightarrow> IcebergPartitionTransform list \<Rightarrow> IcebergPartitionTransform list result" where
  "analyze_transforms columns largestPartitionFieldId [] = Inr []"
| "analyze_transforms columns largestPartitionFieldId (transform # transforms) =
     result_bind (analyze_transform columns largestPartitionFieldId transform) (\<lambda>transform.
     result_bind (analyze_transforms columns (wrap32 (largestPartitionFieldId + 1)) transforms) (\<lambda>rest.
     Inr (transform # rest)))"

fun EnsureNoDuplicateTransforms :: "IcebergPartitionTransform list \<Rightarrow> unit result" where
  "EnsureNoDuplicateTransforms [] = Inr ()"
| "EnsureNoDuplicateTransforms (transform # transforms) =
     (if list_ex (\<lambda>other. transform_type transform = transform_type other \<and>
           elem_id (sourceField transform) = elem_id (sourceField other)) transforms
      then Inl (DuplicateObject ''transform appears multiple times in partition spec'')
      else EnsureNoDuplicateTransforms transforms)"

definition AnalyzeIcebergTablePartitionBy ::
  "column_info list \<Rightarrow> int \<Rightarrow> IcebergPartitionTransform list \<Rightarrow> IcebergPartitionTransform list result" where
  "AnalyzeIcebergTablePartitionBy columns largestPartitionFieldId transforms =
     result_bind (analyze_transforms columns largestPartitionFieldId transforms) (\<lambda>transforms.
     result_bind (EnsureNoDuplicateTransforms transforms) (\<lambda>_. Inr transforms))"


section \<open>Reading back what is written\<close>

text \<open>The written form of an option: the transform with its argument first, and the column as a quoted identifier.\<close>

fun escape_quotes :: "string \<Rightarrow> string" where
  "escape_quotes [] = []"
| "escape_quotes (c # s) = (if c = CHR 0x22 then c # c # escape_quotes s else c # escape_quotes s)"

definition quote_column :: "string \<Rightarrow> string" where
  "quote_column name = CHR 0x22 # escape_quotes name @ [CHR 0x22]"

fun show_type :: "IcebergPartitionTransformType \<Rightarrow> string" where
  "show_type PARTITION_TRANSFORM_YEAR = ''year''"
| "show_type PARTITION_TRANSFORM_MONTH = ''month''"
| "show_type PARTITION_TRANSFORM_DAY = ''day''"
| "show_type PARTITION_TRANSFORM_HOUR = ''hour''"
| "show_type PARTITION_TRANSFORM_BUCKET = ''bucket''"
| "show_type PARTITION_TRANSFORM_TRUNCATE = ''truncate''"
| "show_type PARTITION_TRANSFORM_VOID = ''void''"
| "show_type PARTITION_TRANSFORM_IDENTITY = []"

definition show_transform :: "IcebergPartitionTransformType \<times> nat \<times> string \<Rightarrow> string" where
  "show_transform t =
     (case t of (type, arg, col) \<Rightarrow>
        if type = PARTITION_TRANSFORM_IDENTITY then quote_column col
        else show_type type @ ''('' @ (if has_argument type then nat_digits arg @ '', '' else []) @ quote_column col @ '')'')"

fun show_transforms :: "(IcebergPartitionTransformType \<times> nat \<times> string) list \<Rightarrow> string" where
  "show_transforms [] = []"
| "show_transforms [t] = show_transform t"
| "show_transforms (t # ts) = show_transform t @ '', '' @ show_transforms ts"

definition parsed :: "IcebergPartitionTransformType \<times> nat \<times> string \<Rightarrow> IcebergPartitionTransform" where
  "parsed t = (case t of (type, arg, col) \<Rightarrow> zero_transform\<lparr>transform_type := type, transform_arg := arg, columnName := col\<rparr>)"

definition argument_ok :: "IcebergPartitionTransformType \<times> nat \<times> string \<Rightarrow> bool" where
  "argument_ok t = (case t of (type, arg, col) \<Rightarrow> if has_argument type then 0 < arg \<and> int arg \<le> INT32_MAX else arg = 0)"


lemma digit_char [simp]:
  assumes "n < 10"
  shows "c_isdigit (char_of (48 + n :: nat))" "of_char (char_of (48 + n :: nat)) = (48 + int n)"
proof -
  have nat: "(of_char (char_of (48 + n :: nat)) :: nat) = 48 + n" using assms by simp
  then show "c_isdigit (char_of (48 + n :: nat))" using assms by (simp add: c_isdigit_def)
  have "int (of_char (char_of (48 + n :: nat)) :: nat) = 48 + int n" unfolding nat by simp
  then show "of_char (char_of (48 + n :: nat)) = (48 + int n)" unfolding of_nat_of_char .
qed

lemma parse_digits_nat:
  assumes "0 < n" "int n \<le> INT32_MAX"
  shows "parse_digits (nat_digits n @ r) 0 h = parse_digits r (int n) True"
  using assms
proof (induction n arbitrary: r h rule: nat_digits.induct)
  case (1 n)
  show ?case
  proof (cases "n < 10")
    case True
    then have "is_i32 (int n)" using 1(3) by (simp add: is_i32_def int_limits)
    then show ?thesis using True 1(2) by (simp add: nat_digits.simps [of n])
  next
    case False
    have "is_i32 (int n)" using 1(3) by (simp add: is_i32_def int_limits)
    moreover have "int (n div 10) * 10 + int (n mod 10) = int n" by presburger
    moreover have "parse_digits (nat_digits (n div 10) @ char_of (48 + n mod 10) # r) 0 h =
      parse_digits (char_of (48 + n mod 10) # r) (int (n div 10)) True"
      by (rule 1(1)) (use False 1(3) in auto)
    ultimately show ?thesis using False 1(2) by (simp add: nat_digits.simps [of n])
  qed
qed

lemma scan_quoted_escape:
  assumes "r = [] \<or> hd r \<noteq> CHR 0x22"
  shows "scan_quoted acc (escape_quotes name @ CHR 0x22 # r) = Inr (acc @ escape_quotes name @ [CHR 0x22], r)"
proof (induction name arbitrary: acc)
  case Nil
  then show ?case using assms by (cases r) auto
qed auto

lemma unescape_escape: "unescape_quotes (escape_quotes name) = name"
proof (induction name)
  case (Cons c s)
  show ?case
  proof (cases "c = CHR 0x22")
    case False
    have "unescape_quotes (c # t) = c # unescape_quotes t" for t using False by (cases t) auto
    then show ?thesis using Cons False by simp
  qed (use Cons in simp)
qed simp

lemma SkipWhitespace_Cons: "SkipWhitespace (c # s) = (if c_isspace c then SkipWhitespace s else c # s)"
  by (simp add: SkipWhitespace_def)

lemma SkipWhitespace_Nil: "SkipWhitespace [] = []"
  by (simp add: SkipWhitespace_def)

lemma SkipWhitespace_twice: "SkipWhitespace (SkipWhitespace s) = SkipWhitespace s"
  by (simp add: SkipWhitespace_def)

lemma not_space [simp]: "\<not> c_isspace CHR 0x22" "\<not> c_isspace CHR ''(''" "\<not> c_isspace CHR '')''" "\<not> c_isspace CHR '',''"
    "c_isspace CHR '' ''"
  by (simp_all add: c_isspace_def)

lemma ParseIdentifier_quoted:
  assumes "r = [] \<or> hd r \<noteq> CHR 0x22"
  shows "ParseIdentifier (quote_column name @ r) = Inr (quote_column name, SkipWhitespace r)"
  using scan_quoted_escape [OF assms, of "[CHR 0x22]" name]
  by (simp add: ParseIdentifier_def quote_column_def SkipWhitespace_Cons)

lemma Normalize_quoted: "NormalizeTransformColumnName lower (quote_column name) = name"
  by (simp add: NormalizeTransformColumnName_def quote_column_def unescape_escape butlast_append)

lemma ParseIdentifier_type:
  assumes "type \<noteq> PARTITION_TRANSFORM_IDENTITY"
  shows "ParseIdentifier (show_type type @ CHR ''('' # r) = Inr (show_type type, CHR ''('' # r)"
  using assms by (cases type) (simp_all add: ParseIdentifier_def SkipWhitespace_Cons ident_char_def c_isspace_def)

lemma LookupTransformType_show:
  assumes "type \<noteq> PARTITION_TRANSFORM_IDENTITY"
  shows "LookupTransformType (show_type type) = Inr type"
  using assms by (cases type) (simp_all add: LookupTransformType_def pg_tolower_def)

lemma parse_argument_show:
  assumes "argument_ok (type, arg, col)"
  shows "parse_argument type (SkipWhitespace ((if has_argument type then nat_digits arg @ '', '' else []) @ quote_column col @ r)) =
    Inr (arg, (if has_argument type then '' '' else []) @ quote_column col @ r)"
proof (cases "has_argument type")
  case True
  then have "0 < arg" "int arg \<le> INT32_MAX" using assms by (simp_all add: argument_ok_def)
  then have p: "parse_digits (nat_digits arg @ '', '' @ quote_column col @ r) 0 False = Inr (int arg, True, '', '' @ quote_column col @ r)"
    by (simp add: parse_digits_nat c_isdigit_def)
  have "\<exists>c s. nat_digits n = c # s \<and> \<not> c_isspace c" for n
  proof (induction n rule: nat_digits.induct)
    case (1 n)
    show ?case
    proof (cases "n < 10")
      case True
      then have "\<not> c_isspace (char_of (48 + n))" by (simp add: c_isspace_def)
      then show ?thesis using True by (simp add: nat_digits.simps [of n])
    next
      case False
      then show ?thesis using 1 by (subst nat_digits.simps) auto
    qed
  qed
  then have "SkipWhitespace (nat_digits arg @ t) = nat_digits arg @ t" for t
    by (metis SkipWhitespace_Cons append_Cons)
  then show ?thesis using True p by (simp add: parse_argument_def ParseInteger_def SkipWhitespace_Cons)
next
  case False
  then show ?thesis using assms by (simp add: parse_argument_def argument_ok_def quote_column_def SkipWhitespace_Cons)
qed

lemma ParseOneTransform_show:
  assumes "argument_ok t" "r = [] \<or> hd r = CHR '',''"
  shows "ParseOneTransform lower (show_transform t @ r) = Inr (parsed t, r)"
proof -
  obtain type arg col where t: "t = (type, arg, col)" by (cases t)
  have skip: "SkipWhitespace r = r" using assms(2) by (cases r) (auto simp: SkipWhitespace_Cons SkipWhitespace_Nil)
  show ?thesis
  proof (cases "type = PARTITION_TRANSFORM_IDENTITY")
    case True
    have "ParseIdentifier (quote_column col @ r) = Inr (quote_column col, r)"
      using ParseIdentifier_quoted [of r col] assms(2) skip by auto
    moreover have "arg = 0" using assms(1) t True by (simp add: argument_ok_def has_argument_def)
    ultimately show ?thesis using t True assms(2) skip
      by (auto simp: ParseOneTransform_def show_transform_def parsed_def Normalize_quoted zero_transform_def split: list.split)
  next
    case False
    let ?tail = "quote_column col @ CHR '')'' # r"
    have id: "ParseIdentifier (SkipWhitespace ((if has_argument type then '' '' else []) @ ?tail)) = Inr (quote_column col, CHR '')'' # r)"
      using ParseIdentifier_quoted [of "CHR '')'' # r" col] by (simp add: SkipWhitespace_Cons quote_column_def)
    have "show_transform t @ r = show_type type @ CHR ''('' # (if has_argument type then nat_digits arg @ '', '' else []) @ ?tail"
      using t False by (simp add: show_transform_def)
    then show ?thesis
      using parse_argument_show [of type arg col "CHR '')'' # r"] assms(1) t id
      by (simp only: ParseOneTransform_def ParseIdentifier_type [OF False] result_bind_simps prod.case)
        (simp add: SkipWhitespace_Cons LookupTransformType_show [OF False] parsed_def Normalize_quoted)
  qed
qed

lemma show_transform_start: "\<exists>c s. show_transform t = c # s \<and> \<not> c_isspace c"
proof -
  obtain type arg col where t: "t = (type, arg, col)" by (cases t)
  show ?thesis by (cases type) (simp_all add: t show_transform_def quote_column_def c_isspace_def)
qed

lemma parse_transforms_show:
  assumes "ts \<noteq> []" "list_all argument_ok ts" "SkipWhitespace p = show_transforms ts"
  shows "parse_transforms lower seenComma p acc = Inr (acc @ map parsed ts)"
  using assms
proof (induction ts arbitrary: seenComma p acc rule: show_transforms.induct)
  case (2 t)
  obtain c s where "show_transform t = c # s" using show_transform_start by blast
  then show ?case using 2 ParseOneTransform_show [of t "[]" lower]
    by (subst parse_transforms.simps) (simp add: SkipWhitespace_Nil)
next
  case (3 t u ts)
  let ?rest = "CHR '','' # CHR '' '' # show_transforms (u # ts)"
  obtain c s where "show_transform t = c # s" using show_transform_start by blast
  then have p: "SkipWhitespace p = show_transform t @ ?rest" "SkipWhitespace p \<noteq> []" using 3(4) by simp_all
  have "SkipWhitespace (CHR '' '' # show_transforms (u # ts)) = show_transforms (u # ts)"
  proof -
    obtain c s where "show_transform u = c # s" "\<not> c_isspace c" using show_transform_start by blast
    then have "\<exists>s. show_transforms (u # ts) = c # s" by (cases ts) simp_all
    then show ?thesis using \<open>\<not> c_isspace c\<close> by (auto simp: SkipWhitespace_Cons)
  qed
  then have "parse_transforms lower True (CHR '' '' # show_transforms (u # ts)) (acc @ [parsed t]) =
      Inr ((acc @ [parsed t]) @ map parsed (u # ts))" using 3(1) 3(3) by simp
  then show ?case using p ParseOneTransform_show [of t ?rest lower] 3(3)
    by (subst parse_transforms.simps) (simp add: SkipWhitespace_Cons)
qed simp

text \<open>C23: the \<^verbatim>\<open>partition_by\<close> option is read as it is written.  A non-empty list of transforms, printed with
  the argument of bucket and truncate first and every column as a quoted identifier (quotes in the name doubled),
  parses to exactly those transforms in that order, whatever characters the column names have.\<close>

theorem ParseIcebergTablePartitionBy_round_trip:
  assumes "ts \<noteq> []" "list_all argument_ok ts"
  shows "ParseIcebergTablePartitionBy lower (Some (show_transforms ts)) = Inr (map parsed ts)"
proof -
  obtain t us where ts: "ts = t # us" using assms(1) by (cases ts) auto
  obtain c s where cs: "show_transform t = c # s" "\<not> c_isspace c" using show_transform_start by blast
  then have "\<exists>s. show_transforms ts = c # s" using ts by (cases us) simp_all
  then have "SkipWhitespace (show_transforms ts) = show_transforms ts" "show_transforms ts \<noteq> []"
    using cs(2) by (auto simp: SkipWhitespace_Cons)
  then show ?thesis using parse_transforms_show [OF assms, of "show_transforms ts" lower False "[]"]
    by (simp add: ParseIcebergTablePartitionBy_def IsEmptyPartitionBy_def)
qed

theorem ParseIcebergTablePartitionBy_round_trip_witness:
  "ParseIcebergTablePartitionBy pg_tolower
     (Some (show_transforms [(PARTITION_TRANSFORM_BUCKET, 16, [CHR ''a'', CHR 0x22]), (PARTITION_TRANSFORM_IDENTITY, 0, ''B,c'')])) =
   Inr (map parsed [(PARTITION_TRANSFORM_BUCKET, 16, [CHR ''a'', CHR 0x22]), (PARTITION_TRANSFORM_IDENTITY, 0, ''B,c'')])"
  by (rule ParseIcebergTablePartitionBy_round_trip) (simp_all add: argument_ok_def has_argument_def int_limits)

end
