(* ===== verification/Partition_Transform.thy ===== *)
theory Partition_Transform
  imports Data_Files Partition_By_Parser Murmur Truncate_Utils Partition
begin

text \<open>
  \<^verbatim>\<open>pg_lake_table/src/fdw/partition_transform.c\<close>: applying the transforms of a partition spec to a row, the names
  of transforms, and partition values as PostgreSQL text.  A row is a function from attribute numbers to
  \<open>None\<close> (\<^verbatim>\<open>NULL\<close>) or a datum.  What PostgreSQL computes (the calendar, type input and output, the
  encoding functions, \<^verbatim>\<open>pg_strtoint64\<close>) is the record \<open>transform_env\<close>.
\<close>

record transform_env =
  te_io :: type_io
  te_calendar :: pg_calendar
  te_catalog :: pg_catalog
  te_utf8 :: "bytes \<Rightarrow> bytes"
  te_cliplen :: "bytes \<Rightarrow> nat \<Rightarrow> int \<Rightarrow> nat"
  pg_strtoint64 :: "string \<Rightarrow> int result"


section \<open>Applying transforms\<close>

definition serialize_source :: "transform_env \<Rightarrow> IcebergPartitionTransform \<Rightarrow> datum \<Rightarrow> bytes option result" where
  "serialize_source env transform d =
     result_bind (scalar_type_name (elem_type (sourceField transform))) (\<lambda>tname.
       PGIcebergBinarySerializePartitionFieldValue (te_io env) d tname (tr_pgType transform))"

definition ApplyIdentityTransformToColumn ::
  "transform_env \<Rightarrow> IcebergPartitionTransform \<Rightarrow> datum option \<Rightarrow> bytes option result" where
  "ApplyIdentityTransformToColumn env transform columnValue =
     (case columnValue of
        None \<Rightarrow> Inr None
      | Some d \<Rightarrow> serialize_source env transform d)"

definition truncate_datum :: "transform_env \<Rightarrow> pg_oid \<Rightarrow> int \<Rightarrow> datum \<Rightarrow> datum result" where
  "truncate_datum env sourceType truncateLen d =
     (if sourceType = INT2OID then
        result_bind (DatumGetInt16 d) (\<lambda>value.
        result_bind (IcebergTruncateTransformInt32 value truncateLen) (\<lambda>v. Inr (DInt v)))
      else if sourceType = INT4OID then
        result_bind (DatumGetInt32 d) (\<lambda>value.
        result_bind (IcebergTruncateTransformInt32 value truncateLen) (\<lambda>v. Inr (DInt v)))
      else if sourceType = INT8OID then
        result_bind (DatumGetInt64 d) (\<lambda>value.
        result_bind (IcebergTruncateTransformInt64 value truncateLen) (\<lambda>v. Inr (DInt v)))
      else if sourceType = TEXTOID \<or> sourceType = VARCHAROID \<or> sourceType = BPCHAROID then
        result_bind (datum_bytes d) (\<lambda>value.
        Inr (DBytes (IcebergTruncateTransformText (te_utf8 env) (te_cliplen env) value truncateLen)))
      else if sourceType = BYTEAOID then
        result_bind (datum_bytes d) (\<lambda>value. Inr (DBytes (IcebergTruncateTransformBytea value truncateLen)))
      else Inl (FeatureNotSupported ''cannot perform truncate transform on type''))"

definition ApplyTruncateTransformToColumn ::
  "transform_env \<Rightarrow> IcebergPartitionTransform \<Rightarrow> datum option \<Rightarrow> bytes option result" where
  "ApplyTruncateTransformToColumn env transform columnValue =
     (case columnValue of
        None \<Rightarrow> Inr None
      | Some d \<Rightarrow>
          result_bind (truncate_datum env (postgresTypeOid (tr_pgType transform)) (int (transform_arg transform)) d) (\<lambda>truncated.
          result_bind (PostgresBaseTypeIdToIcebergTypeName (te_catalog env) (resultPgType transform)) (\<lambda>tname.
          PGIcebergBinarySerializePartitionFieldValue (te_io env) truncated tname (resultPgType transform))))"

definition ApplyYearTransformToColumn ::
  "transform_env \<Rightarrow> IcebergPartitionTransform \<Rightarrow> datum option \<Rightarrow> bytes option result" where
  "ApplyYearTransformToColumn env transform columnValue =
     (case columnValue of
        None \<Rightarrow> Inr None
      | Some d \<Rightarrow>
          result_bind
            (if postgresTypeOid (tr_pgType transform) = DATEOID
             then result_bind (DatumGetInt32 d) (DateYearFromUnixEpoch (te_calendar env))
             else if postgresTypeOid (tr_pgType transform) = TIMESTAMPOID
             then result_bind (DatumGetInt64 d) (TimestampYearFromUnixEpoch (te_calendar env))
             else if postgresTypeOid (tr_pgType transform) = TIMESTAMPTZOID
             then result_bind (DatumGetInt64 d) (TimestampYearFromUnixEpoch (te_calendar env))
             else Inl (FeatureNotSupported ''cannot perform year transform on type''))
          (\<lambda>year. Inr (Some (int_to_le 4 year))))"

definition ApplyMonthTransformToColumn ::
  "transform_env \<Rightarrow> IcebergPartitionTransform \<Rightarrow> datum option \<Rightarrow> bytes option result" where
  "ApplyMonthTransformToColumn env transform columnValue =
     (case columnValue of
        None \<Rightarrow> Inr None
      | Some d \<Rightarrow>
          result_bind
            (if postgresTypeOid (tr_pgType transform) = DATEOID
             then result_bind (DatumGetInt32 d) (DateMonthFromUnixEpoch (te_calendar env))
             else if postgresTypeOid (tr_pgType transform) = TIMESTAMPOID
             then result_bind (DatumGetInt64 d) (TimestampMonthFromUnixEpoch (te_calendar env))
             else if postgresTypeOid (tr_pgType transform) = TIMESTAMPTZOID
             then result_bind (DatumGetInt64 d) (TimestampMonthFromUnixEpoch (te_calendar env))
             else Inl (FeatureNotSupported ''cannot perform month transform on type''))
          (\<lambda>month. Inr (Some (int_to_le 4 month))))"

definition ApplyDayTransformToColumn ::
  "IcebergPartitionTransform \<Rightarrow> datum option \<Rightarrow> bytes option result" where
  "ApplyDayTransformToColumn transform columnValue =
     (case columnValue of
        None \<Rightarrow> Inr None
      | Some d \<Rightarrow>
          result_bind
            (if postgresTypeOid (tr_pgType transform) = DATEOID
             then result_bind (DatumGetInt32 d) DateDayFromUnixEpoch
             else if postgresTypeOid (tr_pgType transform) = TIMESTAMPOID
             then result_bind (DatumGetInt64 d) TimestampDayFromUnixEpoch
             else if postgresTypeOid (tr_pgType transform) = TIMESTAMPTZOID
             then result_bind (DatumGetInt64 d) TimestampDayFromUnixEpoch
             else Inl (FeatureNotSupported ''cannot perform day transform on type''))
          (\<lambda>day. Inr (Some (int_to_le 4 day))))"

definition ApplyHourTransformToColumn ::
  "IcebergPartitionTransform \<Rightarrow> datum option \<Rightarrow> bytes option result" where
  "ApplyHourTransformToColumn transform columnValue =
     (case columnValue of
        None \<Rightarrow> Inr None
      | Some d \<Rightarrow>
          result_bind
            (if postgresTypeOid (tr_pgType transform) = TIMESTAMPOID
             then result_bind (DatumGetInt64 d) TimestampHourFromUnixEpoch
             else if postgresTypeOid (tr_pgType transform) = TIMESTAMPTZOID
             then result_bind (DatumGetInt64 d) TimestampHourFromUnixEpoch
             else if postgresTypeOid (tr_pgType transform) = TIMEOID
             then result_bind (DatumGetInt64 d) (\<lambda>t. Inr (TimeHourFromUnixEpoch t))
             else if postgresTypeOid (tr_pgType transform) = TIMETZOID
             then result_bind (datum_timetz d) (\<lambda>(time, zone). Inr (TimeHourFromUnixEpoch (TimeTzGetUTCMicros time zone)))
             else Inl (FeatureNotSupported ''cannot perform hour transform on type''))
          (\<lambda>hour. Inr (Some (int_to_le 4 hour))))"

text \<open>\<^verbatim>\<open>(hash & INT32_MAX) % bucketCount\<close>, where the remainder is unsigned and a zero count traps.\<close>

definition bucket_of :: "int \<Rightarrow> nat \<Rightarrow> int result" where
  "bucket_of hash bucketCount =
     (if bucketCount = 0 then Inl Trap else Inr (wrap32 ((hash mod 2 ^ 31) mod int bucketCount)))"

definition bucket_hash :: "transform_env \<Rightarrow> IcebergPartitionTransform \<Rightarrow> datum \<Rightarrow> int result" where
  "bucket_hash env transform d =
     (case postgresTypeOid (tr_pgType transform) of
        INT2OID \<Rightarrow> result_bind (DatumGetInt16 d) (\<lambda>value. Inr (MurmurHash3_32_Long (word_of_int value)))
      | INT4OID \<Rightarrow> result_bind (DatumGetInt32 d) (\<lambda>value. Inr (MurmurHash3_32_Long (word_of_int value)))
      | INT8OID \<Rightarrow> result_bind (DatumGetInt64 d) (\<lambda>value. Inr (MurmurHash3_32_Long (word_of_int value)))
      | TEXTOID \<Rightarrow> result_bind (datum_bytes d) (\<lambda>value. Inr (MurmurHash3_32_Bytes (c_string value)))
      | VARCHAROID \<Rightarrow> result_bind (datum_bytes d) (\<lambda>value. Inr (MurmurHash3_32_Bytes (c_string value)))
      | BPCHAROID \<Rightarrow> result_bind (datum_bytes d) (\<lambda>value. Inr (MurmurHash3_32_Bytes (c_string value)))
      | BYTEAOID \<Rightarrow> result_bind (datum_bytes d) (\<lambda>value. Inr (MurmurHash3_32_Bytes value))
      | DATEOID \<Rightarrow> result_bind (DatumGetInt32 d) (\<lambda>value.
          Inr (MurmurHash3_32_Long (word_of_int (AdjustDateFromPostgresToUnix value))))
      | TIMESTAMPOID \<Rightarrow> result_bind (DatumGetInt64 d) (\<lambda>value.
          Inr (MurmurHash3_32_Long (word_of_int (AdjustTimestampFromPostgresToUnix value))))
      | TIMESTAMPTZOID \<Rightarrow> result_bind (DatumGetInt64 d) (\<lambda>value.
          Inr (MurmurHash3_32_Long (word_of_int (AdjustTimestampFromPostgresToUnix value))))
      | TIMEOID \<Rightarrow> result_bind (DatumGetInt64 d) (\<lambda>value. Inr (MurmurHash3_32_Long (word_of_int value)))
      | TIMETZOID \<Rightarrow> result_bind (datum_timetz d) (\<lambda>(time, zone).
          Inr (MurmurHash3_32_Long (word_of_int (TimeTzGetUTCMicros time zone))))
      | UUIDOID \<Rightarrow> result_bind (serialize_source env transform d) (\<lambda>value.
          Inr (MurmurHash3_32_Bytes (case value of None \<Rightarrow> [] | Some bs \<Rightarrow> bs)))
      | NUMERICOID \<Rightarrow> result_bind (serialize_source env transform d) (\<lambda>value.
          Inr (MurmurHash3_32_Bytes (case value of None \<Rightarrow> [] | Some bs \<Rightarrow> bs)))
      | _ \<Rightarrow> Inl (FeatureNotSupported ''cannot perform bucket transform on type''))"

definition ApplyBucketTransformToColumn ::
  "transform_env \<Rightarrow> IcebergPartitionTransform \<Rightarrow> datum option \<Rightarrow> bytes option result" where
  "ApplyBucketTransformToColumn env transform columnValue =
     (case columnValue of
        None \<Rightarrow> Inr None
      | Some d \<Rightarrow>
          result_bind (bucket_hash env transform d) (\<lambda>hash.
          result_bind (bucket_of hash (transform_arg transform)) (\<lambda>bucketValue.
          Inr (Some (int_to_le 4 bucketValue)))))"

definition GetTransformResultAvroType :: "transform_env \<Rightarrow> IcebergPartitionTransform \<Rightarrow> IcebergScalarAvroType result" where
  "GetTransformResultAvroType env transform =
     (let avro = (\<lambda>p l. Inr \<lparr>physical_type = p, logical_type = l, avro_precision = 0, avro_scale = 0\<rparr>) in
      case postgresTypeOid (resultPgType transform) of
        INT2OID \<Rightarrow> avro ICEBERG_AVRO_PHYSICAL_TYPE_INT32 ICEBERG_AVRO_LOGICAL_TYPE_NONE
      | INT4OID \<Rightarrow> avro ICEBERG_AVRO_PHYSICAL_TYPE_INT32 ICEBERG_AVRO_LOGICAL_TYPE_NONE
      | INT8OID \<Rightarrow> avro ICEBERG_AVRO_PHYSICAL_TYPE_INT64 ICEBERG_AVRO_LOGICAL_TYPE_NONE
      | FLOAT4OID \<Rightarrow> avro ICEBERG_AVRO_PHYSICAL_TYPE_FLOAT ICEBERG_AVRO_LOGICAL_TYPE_NONE
      | FLOAT8OID \<Rightarrow> avro ICEBERG_AVRO_PHYSICAL_TYPE_DOUBLE ICEBERG_AVRO_LOGICAL_TYPE_NONE
      | BOOLOID \<Rightarrow> avro ICEBERG_AVRO_PHYSICAL_TYPE_BOOL ICEBERG_AVRO_LOGICAL_TYPE_NONE
      | TEXTOID \<Rightarrow> avro ICEBERG_AVRO_PHYSICAL_TYPE_STRING ICEBERG_AVRO_LOGICAL_TYPE_NONE
      | VARCHAROID \<Rightarrow> avro ICEBERG_AVRO_PHYSICAL_TYPE_STRING ICEBERG_AVRO_LOGICAL_TYPE_NONE
      | BPCHAROID \<Rightarrow> avro ICEBERG_AVRO_PHYSICAL_TYPE_STRING ICEBERG_AVRO_LOGICAL_TYPE_NONE
      | BYTEAOID \<Rightarrow> avro ICEBERG_AVRO_PHYSICAL_TYPE_BINARY ICEBERG_AVRO_LOGICAL_TYPE_NONE
      | DATEOID \<Rightarrow> avro ICEBERG_AVRO_PHYSICAL_TYPE_INT32 ICEBERG_AVRO_LOGICAL_TYPE_DATE
      | TIMESTAMPOID \<Rightarrow> avro ICEBERG_AVRO_PHYSICAL_TYPE_INT64 ICEBERG_AVRO_LOGICAL_TYPE_TIMESTAMP
      | TIMESTAMPTZOID \<Rightarrow> avro ICEBERG_AVRO_PHYSICAL_TYPE_INT64 ICEBERG_AVRO_LOGICAL_TYPE_TIMESTAMP
      | TIMEOID \<Rightarrow> avro ICEBERG_AVRO_PHYSICAL_TYPE_INT64 ICEBERG_AVRO_LOGICAL_TYPE_TIME
      | TIMETZOID \<Rightarrow> avro ICEBERG_AVRO_PHYSICAL_TYPE_INT64 ICEBERG_AVRO_LOGICAL_TYPE_TIME
      | NUMERICOID \<Rightarrow>
          (case GetDuckdbAdjustedPrecisionAndScaleFromNumericTypeMod (io_settings (te_io env)) (postgresTypeMod (tr_pgType transform)) of
             (precision, scale) \<Rightarrow>
               Inr \<lparr>physical_type = ICEBERG_AVRO_PHYSICAL_TYPE_BINARY, logical_type = ICEBERG_AVRO_LOGICAL_TYPE_DECIMAL,
                    avro_precision = precision, avro_scale = scale\<rparr>)
      | UUIDOID \<Rightarrow> avro ICEBERG_AVRO_PHYSICAL_TYPE_BINARY ICEBERG_AVRO_LOGICAL_TYPE_UUID
      | _ \<Rightarrow> Inl (FeatureNotSupported ''unexpected type''))"

definition apply_transform ::
  "transform_env \<Rightarrow> IcebergPartitionTransform \<Rightarrow> datum option \<Rightarrow> bytes option result" where
  "apply_transform env transform columnValue =
     (case transform_type transform of
        PARTITION_TRANSFORM_IDENTITY \<Rightarrow> ApplyIdentityTransformToColumn env transform columnValue
      | PARTITION_TRANSFORM_TRUNCATE \<Rightarrow> ApplyTruncateTransformToColumn env transform columnValue
      | PARTITION_TRANSFORM_YEAR \<Rightarrow> ApplyYearTransformToColumn env transform columnValue
      | PARTITION_TRANSFORM_MONTH \<Rightarrow> ApplyMonthTransformToColumn env transform columnValue
      | PARTITION_TRANSFORM_DAY \<Rightarrow> ApplyDayTransformToColumn transform columnValue
      | PARTITION_TRANSFORM_HOUR \<Rightarrow> ApplyHourTransformToColumn transform columnValue
      | PARTITION_TRANSFORM_BUCKET \<Rightarrow> ApplyBucketTransformToColumn env transform columnValue
      | PARTITION_TRANSFORM_VOID \<Rightarrow> Inl (FeatureNotSupported ''applying transform is not yet support''))"

definition ApplyPartitionTransformToTuple ::
  "transform_env \<Rightarrow> IcebergPartitionTransform \<Rightarrow> (int \<Rightarrow> datum option) \<Rightarrow> PartitionField result" where
  "ApplyPartitionTransformToTuple env transform slot =
     result_bind (apply_transform env transform (slot (attnum transform))) (\<lambda>value.
     result_bind (GetTransformResultAvroType env transform) (\<lambda>valueType.
     Inr \<lparr>pf_field_name = partitionFieldName transform, pf_field_id = partitionFieldId transform,
          pf_value_type = valueType, pf_value = value\<rparr>))"

fun ComputePartitionTupleForTuple ::
  "transform_env \<Rightarrow> IcebergPartitionTransform list \<Rightarrow> (int \<Rightarrow> datum option) \<Rightarrow> Partition result" where
  "ComputePartitionTupleForTuple env [] slot = Inr []"
| "ComputePartitionTupleForTuple env (transform # transforms) slot =
     result_bind (ApplyPartitionTransformToTuple env transform slot) (\<lambda>field.
     result_bind (ComputePartitionTupleForTuple env transforms slot) (\<lambda>fields.
     Inr (field # fields)))"


section \<open>Names of transforms\<close>

definition pg_strncasecmp_prefix :: "string \<Rightarrow> string \<Rightarrow> bool" where
  "pg_strncasecmp_prefix name prefix \<longleftrightarrow>
     length prefix \<le> length name \<and> map pg_tolower (take (length prefix) name) = map pg_tolower prefix"

definition ParseBracketUintSize :: "transform_env \<Rightarrow> string \<Rightarrow> string \<Rightarrow> nat option result" where
  "ParseBracketUintSize env name prefix =
     (if \<not> pg_strncasecmp_prefix name prefix then Inr None
      else
        let digits = drop (length prefix) name;
            numbuf = takeWhile (\<lambda>c. c \<noteq> CHR '']'') digits
        in if CHR '']'' \<notin> set digits \<or> numbuf = [] \<or> 32 \<le> length numbuf
           then Inl (InvalidParameter ''invalid transform'')
           else result_bind (pg_strtoint64 env numbuf) (\<lambda>parsedValue.
             if parsedValue \<le> 0 \<or> parsedValue > INT32_MAX
             then Inl (InvalidParameter ''numeric argument out of range'')
             else Inr (Some (nat parsedValue))))"

definition ParseTransformName :: "transform_env \<Rightarrow> string \<Rightarrow> (IcebergPartitionTransformType \<times> nat) result" where
  "ParseTransformName env name =
     (if name = [] then Inl (InvalidParameter ''empty partition transform name'')
      else if pg_strncasecmp_prefix name ''identity'' then Inr (PARTITION_TRANSFORM_IDENTITY, 0)
      else if pg_strncasecmp_prefix name ''year'' then Inr (PARTITION_TRANSFORM_YEAR, 0)
      else if pg_strncasecmp_prefix name ''month'' then Inr (PARTITION_TRANSFORM_MONTH, 0)
      else if pg_strncasecmp_prefix name ''day'' then Inr (PARTITION_TRANSFORM_DAY, 0)
      else if pg_strncasecmp_prefix name ''hour'' then Inr (PARTITION_TRANSFORM_HOUR, 0)
      else if pg_strncasecmp_prefix name ''void'' then Inr (PARTITION_TRANSFORM_VOID, 0)
      else result_bind (ParseBracketUintSize env name ''bucket['') (\<lambda>bucketCount.
        case bucketCount of
          Some n \<Rightarrow> Inr (PARTITION_TRANSFORM_BUCKET, n)
        | None \<Rightarrow>
            result_bind (ParseBracketUintSize env name ''truncate['') (\<lambda>truncateLen.
              case truncateLen of
                Some n \<Rightarrow> Inr (PARTITION_TRANSFORM_TRUNCATE, n)
              | None \<Rightarrow> Inl (FeatureNotSupported ''unknown partition transform''))))"


section \<open>Partition values as text\<close>

definition PartitionValueToDatum ::
  "transform_env \<Rightarrow> IcebergPartitionTransformType \<Rightarrow> bytes option \<Rightarrow> PGType \<Rightarrow> datum option result" where
  "PartitionValueToDatum env transformType value pgType =
     (case value of
        None \<Rightarrow> Inr None
      | Some bs \<Rightarrow>
          if transformType = PARTITION_TRANSFORM_IDENTITY \<or> transformType = PARTITION_TRANSFORM_TRUNCATE
          then result_bind (PostgresBaseTypeIdToIcebergTypeName (te_catalog env) pgType) (\<lambda>tname.
               result_bind (PGIcebergBinaryDeserialize (te_io env) bs tname pgType) (\<lambda>d. Inr (Some d)))
          else if transformType = PARTITION_TRANSFORM_VOID
          then Inl (FeatureNotSupported ''unsupported partition transform type'')
          else result_bind (le_to_int 4 bs) (\<lambda>v. Inr (Some (DInt (wrap32 v)))))"

definition SerializePartitionValueToPGText ::
  "transform_env \<Rightarrow> bytes option \<Rightarrow> IcebergPartitionTransform \<Rightarrow> bytes option result" where
  "SerializePartitionValueToPGText env value transform =
     (case value of
        None \<Rightarrow> Inr None
      | Some bs \<Rightarrow>
          result_bind (PartitionValueToDatum env (transform_type transform) value (resultPgType transform)) (\<lambda>partitionDatum.
          case partitionDatum of
            None \<Rightarrow> Inr None
          | Some d \<Rightarrow> Inr (Some (typoutput (te_io env) (postgresTypeOid (resultPgType transform)) d))))"

definition DatumToPartitionValue :: "transform_env \<Rightarrow> IcebergPartitionTransform \<Rightarrow> datum option \<Rightarrow> bytes option result" where
  "DatumToPartitionValue env transform columnValue =
     (case columnValue of
        None \<Rightarrow> Inr None
      | Some d \<Rightarrow>
          result_bind (PostgresBaseTypeIdToIcebergTypeName (te_catalog env) (resultPgType transform)) (\<lambda>tname.
          PGIcebergBinarySerializePartitionFieldValue (te_io env) d tname (resultPgType transform)))"

definition DeserializePartitionValueFromPGText ::
  "transform_env \<Rightarrow> IcebergPartitionTransform \<Rightarrow> bytes option \<Rightarrow> bytes option result" where
  "DeserializePartitionValueFromPGText env transform valueText =
     (case valueText of
        None \<Rightarrow> Inr None
      | Some txt \<Rightarrow>
          result_bind (typinput (te_io env) (postgresTypeOid (resultPgType transform)) txt (postgresTypeMod (resultPgType transform))) (\<lambda>d.
          DatumToPartitionValue env transform (Some d)))"


section \<open>Transforms are well typed\<close>

text \<open>The values a column of a type holds: finite dates and timestamps, finite floats, text without zero bytes, and the numerics
  in the range and scale of their decimal type.\<close>

fun column_value :: "transform_env \<Rightarrow> PGType \<Rightarrow> datum \<Rightarrow> bool" where
  "column_value env pgType (DInt x) =
     (case postgresTypeOid pgType of
        DATEOID \<Rightarrow> valid_date x | TIMESTAMPOID \<Rightarrow> valid_timestamp x | TIMESTAMPTZOID \<Rightarrow> valid_timestamp x
      | oid \<Rightarrow> value_of_type oid (DInt x))"
| "column_value env pgType (DBytes bs) =
     (case postgresTypeOid pgType of
        VARCHAROID \<Rightarrow> 0 \<notin> set bs | BPCHAROID \<Rightarrow> 0 \<notin> set bs | oid \<Rightarrow> value_of_type oid (DBytes bs))"
| "column_value env pgType (DTimeTz t z) \<longleftrightarrow> postgresTypeOid pgType = TIMETZOID"
| "column_value env pgType (DNumeric s) \<longleftrightarrow>
     postgresTypeOid pgType = NUMERICOID \<and>
     (case GetDuckdbAdjustedPrecisionAndScaleFromNumericTypeMod (io_settings (te_io env)) (postgresTypeMod pgType) of
        (precision, scale) \<Rightarrow>
          CanPushdownNumericToDuckdb precision scale \<and> \<not> numeric_is_special s \<and> s \<noteq> [] \<and>
          list_all isdigit (NormalizeNumericStr s scale) \<and> dec_value (NormalizeNumericStr s scale) < 2 ^ 127)"

text \<open>What the Avro writer expects of the bytes of a value.\<close>

definition typed_value :: "IcebergScalarAvroType \<Rightarrow> bytes \<Rightarrow> bool" where
  "typed_value type bs =
     (case physical_type type of
        ICEBERG_AVRO_PHYSICAL_TYPE_INT32 \<Rightarrow> length bs = 4
      | ICEBERG_AVRO_PHYSICAL_TYPE_INT64 \<Rightarrow> length bs = 8
      | ICEBERG_AVRO_PHYSICAL_TYPE_FLOAT \<Rightarrow> length bs = 4
      | ICEBERG_AVRO_PHYSICAL_TYPE_DOUBLE \<Rightarrow> length bs = 8
      | ICEBERG_AVRO_PHYSICAL_TYPE_BOOL \<Rightarrow> bs = [0] \<or> bs = [1]
      | ICEBERG_AVRO_PHYSICAL_TYPE_STRING \<Rightarrow> bs \<noteq> [] \<and> last bs = 0 \<and> 0 \<notin> set (butlast bs)
      | ICEBERG_AVRO_PHYSICAL_TYPE_BINARY \<Rightarrow>
          (case logical_type type of
             ICEBERG_AVRO_LOGICAL_TYPE_UUID \<Rightarrow> length bs = 16
           | ICEBERG_AVRO_LOGICAL_TYPE_DECIMAL \<Rightarrow> bs \<noteq> [] \<and> length bs \<le> 16
           | _ \<Rightarrow> True))"

text \<open>A transform as the analysis leaves it, on a column whose field has the Iceberg type of the column.\<close>

definition transform_wf :: "transform_env \<Rightarrow> IcebergPartitionTransform \<Rightarrow> bool" where
  "transform_wf env t \<longleftrightarrow>
     EnsureValidTypeForTransform (transform_type t) (postgresTypeOid (tr_pgType t)) = Inr () \<and>
     GetTransformResultPGType t = Inr (resultPgType t) \<and>
     scalar_type_name (elem_type (sourceField t)) = PostgresBaseTypeIdToIcebergTypeName (te_catalog env) (tr_pgType t) \<and>
     argument_ok (transform_type t, transform_arg t, columnName t)"

text \<open>What is relied on of PostgreSQL: its calendar, that a type which is not a domain is its own base type, and that the
  settings are the same for every reader.\<close>

definition env_ok :: "transform_env \<Rightarrow> bool" where
  "env_ok env \<longleftrightarrow> calendar_ok (te_calendar env) \<and>
     list_all (\<lambda>oid. ResolveDomainBaseType (te_catalog env) oid = oid)
       [BOOLOID, INT2OID, INT4OID, INT8OID, FLOAT4OID, FLOAT8OID, DATEOID, TIMEOID, TIMETZOID, TIMESTAMPOID, TIMESTAMPTZOID,
        TEXTOID, BPCHAROID, VARCHAROID, UUIDOID, BYTEAOID, NUMERICOID] \<and>
     catalog_settings (te_catalog env) = io_settings (te_io env)"

lemma length_int_to_le [simp]: "length (int_to_le k x) = k"
  by (simp add: int_to_le_def)

lemma c_string_no_zero: "0 \<notin> set (c_string bs)"
  by (auto simp: c_string_def dest: set_takeWhileD)

lemma butlast_snoc_zero: "bs = s @ [0] \<Longrightarrow> 0 \<notin> set s \<Longrightarrow> bs \<noteq> [] \<and> last bs = 0 \<and> 0 \<notin> set (butlast bs)" for s :: bytes
  by simp

lemma serialize_source_typed:
  assumes "env_ok env" "scalar_type_name (elem_type (sourceField t)) = PostgresBaseTypeIdToIcebergTypeName (te_catalog env) (tr_pgType t)"
    "EnsureValidTypeForIdentityTransform (postgresTypeOid (tr_pgType t)) = Inr ()" "column_value env (tr_pgType t) d" "postgresTypeOid (resultPgType t) = postgresTypeOid (tr_pgType t)"
  shows "\<exists>type bs. serialize_source env t d = Inr (Some bs) \<and> GetTransformResultAvroType env t = Inr type \<and> typed_value type bs"
proof (cases "postgresTypeOid (tr_pgType t) = NUMERICOID")
  case True
  obtain precision scale where ps: "GetDuckdbAdjustedPrecisionAndScaleFromNumericTypeMod (io_settings (te_io env))
    (postgresTypeMod (tr_pgType t)) = (precision, scale)" by force
  obtain s where d: "d = DNumeric s" using assms(4) True by (cases d) auto
  then obtain bs where bs: "PGNumericIcebergBinarySerialize s scale = Inr (Some bs)" "bs \<noteq> []" "length bs \<le> 16"
    using assms(4) serialize_value [of s scale] ps by auto
  have "CanPushdownNumericToDuckdb precision scale" using assms(4) d ps by simp
  then show ?thesis using bs True ps d assms(1,2,5)
    by (auto simp: serialize_source_def env_ok_def PostgresBaseTypeIdToIcebergTypeName_def
        PGIcebergBinarySerializePartitionFieldValue_def PGIcebergBinarySerialize_def PGTypeRequiresConversionToIcebergString_def
        GetTransformResultAvroType_def typed_value_def)
next
  case False
  note simps = serialize_source_def env_ok_def PostgresBaseTypeIdToIcebergTypeName_def
        PGIcebergBinarySerializePartitionFieldValue_def PGIcebergBinarySerialize_def PGTypeRequiresConversionToIcebergString_def
        GetTransformResultAvroType_def typed_value_def DatumGetBool_def DatumGetInt16_def DatumGetInt32_def DatumGetInt64_def
        EnsureValidTypeForIdentityTransform_def IsDateOrTimestampType_def IsTimeOrTimestampType_def
  show ?thesis
    using False assms by (cases "postgresTypeOid (tr_pgType t)"; cases d) (simp_all add: simps c_string_no_zero)
qed


lemmas datum_simps = DatumGetBool_def DatumGetInt16_def DatumGetInt32_def DatumGetInt64_def

lemma int_result_avro:
  "postgresTypeOid (resultPgType t) = INT4OID \<Longrightarrow>
    \<exists>type. GetTransformResultAvroType env t = Inr type \<and> typed_value type (int_to_le 4 v)"
  by (simp add: GetTransformResultAvroType_def typed_value_def)

lemma truncate_total:
  assumes "0 < width"
  shows "\<exists>r. IcebergTruncateTransformInt32 v width = Inr r" "\<exists>r. IcebergTruncateTransformInt64 v width = Inr r"
  using assms by (simp_all add: IcebergTruncateTransformInt32_def IcebergTruncateTransformInt64_def)

lemma truncate_typed:
  assumes "env_ok env" "transform_wf env t" "transform_type t = PARTITION_TRANSFORM_TRUNCATE" "column_value env (tr_pgType t) d"
  shows "\<exists>type bs. ApplyTruncateTransformToColumn env t (Some d) = Inr (Some bs) \<and>
    GetTransformResultAvroType env t = Inr type \<and> typed_value type bs"
proof -
  let ?w = "int (transform_arg t)"
  have w: "0 < ?w" using assms(2,3) by (simp add: transform_wf_def argument_ok_def has_argument_def)
  have valid: "EnsureValidTypeForTruncateTransform (postgresTypeOid (tr_pgType t)) = Inr ()"
    using assms(2,3) by (simp add: transform_wf_def EnsureValidTypeForTransform_def)
  have res: "postgresTypeOid (resultPgType t) =
      (if postgresTypeOid (tr_pgType t) = INT2OID then INT4OID else postgresTypeOid (tr_pgType t))"
    using assms(2,3) by (auto simp: transform_wf_def GetTransformResultPGType_def MakePGType_def result_bind_Inr_iff dest!: sym [of _ "resultPgType t"])
  note simps = ApplyTruncateTransformToColumn_def truncate_datum_def env_ok_def PostgresBaseTypeIdToIcebergTypeName_def
        PGIcebergBinarySerializePartitionFieldValue_def PGIcebergBinarySerialize_def PGTypeRequiresConversionToIcebergString_def
        GetTransformResultAvroType_def typed_value_def datum_simps
  show ?thesis
  proof (cases "postgresTypeOid (tr_pgType t)")
    case INT2OID
    then obtain x where "d = DInt x" using assms(4) by (cases d) auto
    then show ?thesis using truncate_total(1) [OF w, of "wrap16 x"] INT2OID res assms(1) by (auto simp: simps)
  next
    case INT4OID
    then obtain x where "d = DInt x" using assms(4) by (cases d) auto
    then show ?thesis using truncate_total(1) [OF w, of "wrap32 x"] INT4OID res assms(1) by (auto simp: simps)
  next
    case INT8OID
    then obtain x where "d = DInt x" using assms(4) by (cases d) auto
    then show ?thesis using truncate_total(2) [OF w, of "wrap64 x"] INT8OID res assms(1) by (auto simp: simps)
  qed (use valid res assms(1,4) in \<open>cases d; simp add: simps EnsureValidTypeForTruncateTransform_def c_string_no_zero\<close>)+
qed

lemma date_parts_total:
  assumes "calendar_ok cal"
  shows "valid_date x \<Longrightarrow> \<exists>r. DateYearFromUnixEpoch cal x = Inr r" "valid_date x \<Longrightarrow> \<exists>r. DateMonthFromUnixEpoch cal x = Inr r"
    "valid_date x \<Longrightarrow> \<exists>r. DateDayFromUnixEpoch x = Inr r"
    "valid_timestamp x \<Longrightarrow> \<exists>r. TimestampYearFromUnixEpoch cal x = Inr r"
    "valid_timestamp x \<Longrightarrow> \<exists>r. TimestampMonthFromUnixEpoch cal x = Inr r"
    "valid_timestamp x \<Longrightarrow> \<exists>r. TimestampDayFromUnixEpoch x = Inr r"
    "valid_timestamp x \<Longrightarrow> \<exists>r. TimestampHourFromUnixEpoch x = Inr r"
proof -
  have tm: "\<exists>tm. timestamp2tm cal x = Some tm" if "valid_timestamp x"
    using calendar_tm [OF assms that] by (metis prod_cases3)
  show "valid_date x \<Longrightarrow> \<exists>r. DateYearFromUnixEpoch cal x = Inr r" "valid_date x \<Longrightarrow> \<exists>r. DateDayFromUnixEpoch x = Inr r"
    "valid_timestamp x \<Longrightarrow> \<exists>r. TimestampDayFromUnixEpoch x = Inr r" "valid_timestamp x \<Longrightarrow> \<exists>r. TimestampHourFromUnixEpoch x = Inr r"
    by (simp_all add: DateYearFromUnixEpoch_def DateDayFromUnixEpoch_def TimestampDayFromUnixEpoch_def TimestampHourFromUnixEpoch_def
        valid_date_finite valid_timestamp_finite)
  show "valid_date x \<Longrightarrow> \<exists>r. DateMonthFromUnixEpoch cal x = Inr r"
    by (simp add: DateMonthFromUnixEpoch_def valid_date_finite split: prod.split)
  show "valid_timestamp x \<Longrightarrow> \<exists>r. TimestampYearFromUnixEpoch cal x = Inr r"
    "valid_timestamp x \<Longrightarrow> \<exists>r. TimestampMonthFromUnixEpoch cal x = Inr r"
    using tm by (auto simp: TimestampYearFromUnixEpoch_def TimestampMonthFromUnixEpoch_def GetYearFromTimestamp_def valid_timestamp_finite)
qed

lemma valid_temporal_range: "valid_date x \<Longrightarrow> is_i32 x" "valid_timestamp x \<Longrightarrow> is_i64 x"
  by (auto simp: valid_date_def valid_julian_def DATE_END_JULIAN_def POSTGRES_EPOCH_JDATE_def valid_timestamp_def is_i32_def is_i64_def int_limits)

definition temporal :: "IcebergPartitionTransformType \<Rightarrow> bool" where
  "temporal type \<longleftrightarrow> type = PARTITION_TRANSFORM_YEAR \<or> type = PARTITION_TRANSFORM_MONTH \<or> type = PARTITION_TRANSFORM_DAY \<or>
     type = PARTITION_TRANSFORM_HOUR"

lemma temporal_typed:
  assumes "env_ok env" "transform_wf env t" "temporal (transform_type t)" "column_value env (tr_pgType t) d"
  shows "\<exists>v. apply_transform env t (Some d) = Inr (Some (int_to_le 4 v))"
proof -
  have cal: "calendar_ok (te_calendar env)" using assms(1) by (simp add: env_ok_def)
  have valid: "EnsureValidTypeForTransform (transform_type t) (postgresTypeOid (tr_pgType t)) = Inr ()"
    using assms(2) by (simp add: transform_wf_def)
  note simps = apply_transform_def ApplyYearTransformToColumn_def ApplyMonthTransformToColumn_def ApplyDayTransformToColumn_def
    ApplyHourTransformToColumn_def datum_simps valid_temporal_range
  have oid: "postgresTypeOid (tr_pgType t) = DATEOID \<and> transform_type t \<noteq> PARTITION_TRANSFORM_HOUR \<or>
    postgresTypeOid (tr_pgType t) = TIMESTAMPOID \<or> postgresTypeOid (tr_pgType t) = TIMESTAMPTZOID"
    using valid assms(3) by (auto simp: temporal_def EnsureValidTypeForTransform_def EnsureValidTypeForYearTransform_def
        EnsureValidTypeForMonthTransform_def EnsureValidTypeForDayTransform_def EnsureValidTypeForHourTransform_def
        IsDateOrTimestampType_def split: if_splits)
  then obtain x where x: "d = DInt x" using assms(4) by (cases d) auto
  show ?thesis
  proof (cases "postgresTypeOid (tr_pgType t) = DATEOID")
    case True
    then have "valid_date x" using x assms(4) by simp
    then show ?thesis using True oid x assms(3) date_parts_total(1-3) [OF cal, of x] by (auto simp: simps temporal_def)
  next
    case False
    then have "valid_timestamp x" using x assms(4) oid by auto
    then show ?thesis using False oid x assms(3) date_parts_total(4-7) [OF cal, of x] by (auto simp: simps temporal_def)
  qed
qed

lemma bucket_of_range:
  assumes "0 < n" "int n \<le> INT32_MAX"
  shows "\<exists>b. bucket_of hash n = Inr b \<and> 0 \<le> b \<and> b < int n"
proof -
  let ?b = "(hash mod 2 ^ 31) mod int n"
  have b: "0 \<le> ?b" "?b < int n" using assms(1) by simp_all
  then have "is_i32 ?b" using assms(2) by (simp add: is_i32_def int_limits)
  then show ?thesis using assms(1) b by (simp add: bucket_of_def)
qed


lemma bucket_hash_total:
  assumes "env_ok env" "transform_wf env t" "transform_type t = PARTITION_TRANSFORM_BUCKET" "column_value env (tr_pgType t) d"
  shows "\<exists>h. bucket_hash env t d = Inr h"
proof -
  have valid: "EnsureValidTypeForBucketTransform (postgresTypeOid (tr_pgType t)) = Inr ()"
    using assms(2,3) by (simp add: transform_wf_def EnsureValidTypeForTransform_def)
  show ?thesis
  proof (cases "postgresTypeOid (tr_pgType t) = NUMERICOID \<or> postgresTypeOid (tr_pgType t) = UUIDOID")
    case True
    let ?t = "t\<lparr>resultPgType := tr_pgType t\<rparr>"
    have "\<exists>bs. serialize_source env ?t d = Inr (Some bs)"
      using serialize_source_typed [of env ?t d] assms(1,2,4) True
      by (auto simp: transform_wf_def EnsureValidTypeForIdentityTransform_def)
    then show ?thesis using True by (auto simp: bucket_hash_def serialize_source_def)
  next
    case False
    then show ?thesis using valid assms(4)
      by (cases "postgresTypeOid (tr_pgType t)"; cases d)
        (simp_all add: bucket_hash_def datum_simps EnsureValidTypeForBucketTransform_def IsDateOrTimestampType_def IsTimeOrTimestampType_def)
  qed
qed

lemma int_transform_result:
  assumes "transform_wf env t" "temporal (transform_type t) \<or> transform_type t = PARTITION_TRANSFORM_BUCKET"
  shows "postgresTypeOid (resultPgType t) = INT4OID"
  using assms by (auto simp: transform_wf_def temporal_def GetTransformResultPGType_def MakePGType_def dest!: sym [of _ "resultPgType t"])

lemma apply_transform_typed:
  assumes "env_ok env" "transform_wf env t" "column_value env (tr_pgType t) d"
  shows "\<exists>type bs. apply_transform env t (Some d) = Inr (Some bs) \<and> GetTransformResultAvroType env t = Inr type \<and> typed_value type bs \<and>
    (transform_type t = PARTITION_TRANSFORM_BUCKET \<longrightarrow> (\<exists>b. bs = int_to_le 4 b \<and> 0 \<le> b \<and> b < int (transform_arg t)))"
proof (cases "transform_type t")
  case PARTITION_TRANSFORM_IDENTITY
  then have "EnsureValidTypeForIdentityTransform (postgresTypeOid (tr_pgType t)) = Inr ()" "resultPgType t = tr_pgType t"
    "scalar_type_name (elem_type (sourceField t)) = PostgresBaseTypeIdToIcebergTypeName (te_catalog env) (tr_pgType t)"
    using assms(2) by (auto simp: transform_wf_def EnsureValidTypeForTransform_def GetTransformResultPGType_def)
  then show ?thesis using serialize_source_typed [OF assms(1)] assms(3) PARTITION_TRANSFORM_IDENTITY
    by (simp add: apply_transform_def ApplyIdentityTransformToColumn_def)
next
  case PARTITION_TRANSFORM_TRUNCATE
  then show ?thesis using truncate_typed [OF assms(1,2) _ assms(3)] by (simp add: apply_transform_def)
next
  case PARTITION_TRANSFORM_BUCKET
  have "0 < transform_arg t" "int (transform_arg t) \<le> INT32_MAX"
    using assms(2) PARTITION_TRANSFORM_BUCKET by (simp_all add: transform_wf_def argument_ok_def has_argument_def)
  then obtain h b where "bucket_hash env t d = Inr h" "bucket_of h (transform_arg t) = Inr b" "0 \<le> b" "b < int (transform_arg t)"
    using bucket_hash_total [OF assms(1,2) PARTITION_TRANSFORM_BUCKET assms(3)] bucket_of_range by blast
  then show ?thesis
    using int_result_avro [OF int_transform_result [OF assms(2)], of env b] PARTITION_TRANSFORM_BUCKET
    by (auto simp: apply_transform_def ApplyBucketTransformToColumn_def)
next
  case PARTITION_TRANSFORM_VOID
  then show ?thesis using assms(2) by (simp add: transform_wf_def EnsureValidTypeForTransform_def)
qed (use temporal_typed [OF assms(1,2) _ assms(3)] int_result_avro [OF int_transform_result [OF assms(2)], of env] in
    \<open>force simp: temporal_def\<close>)+

lemma apply_transform_NULL:
  assumes "transform_wf env t"
  shows "apply_transform env' t None = Inr None"
  using assms by (cases "transform_type t") (simp_all add: apply_transform_def transform_wf_def EnsureValidTypeForTransform_def
      ApplyIdentityTransformToColumn_def ApplyTruncateTransformToColumn_def ApplyYearTransformToColumn_def
      ApplyMonthTransformToColumn_def ApplyDayTransformToColumn_def ApplyHourTransformToColumn_def ApplyBucketTransformToColumn_def)

lemma result_avro_total:
  assumes "transform_wf env t"
  shows "\<exists>type. GetTransformResultAvroType env' t = Inr type"
proof (cases "transform_type t = PARTITION_TRANSFORM_IDENTITY \<or> transform_type t = PARTITION_TRANSFORM_TRUNCATE")
  case False
  then have "temporal (transform_type t) \<or> transform_type t = PARTITION_TRANSFORM_BUCKET"
    using assms by (cases "transform_type t") (simp_all add: temporal_def transform_wf_def EnsureValidTypeForTransform_def)
  then show ?thesis using int_result_avro int_transform_result [OF assms] by blast
next
  case True
  then have "postgresTypeOid (resultPgType t) = postgresTypeOid (tr_pgType t) \<or> postgresTypeOid (resultPgType t) = INT4OID"
    using assms by (auto simp: transform_wf_def GetTransformResultPGType_def MakePGType_def result_bind_Inr_iff dest!: sym [of _ "resultPgType t"])
  moreover have "EnsureValidTypeForIdentityTransform (postgresTypeOid (tr_pgType t)) = Inr ()"
    using True assms by (auto simp: transform_wf_def EnsureValidTypeForTransform_def EnsureValidTypeForIdentityTransform_def
        EnsureValidTypeForTruncateTransform_def split: if_splits)
  ultimately show ?thesis
    by (cases "postgresTypeOid (tr_pgType t)")
      (auto simp: GetTransformResultAvroType_def EnsureValidTypeForIdentityTransform_def IsDateOrTimestampType_def IsTimeOrTimestampType_def split: prod.split)
qed


definition sample_env :: transform_env where
  "sample_env =
     \<lparr>te_io = \<lparr>typoutput = \<lambda>_ _. [], typinput = \<lambda>_ _ _. Inl Trap, io_numeric_in = \<lambda>s _. Inr s, io_settings = default_numeric_settings\<rparr>,
      te_calendar = gregorian,
      te_catalog = \<lparr>ResolveDomainBaseType = \<lambda>oid. oid, PgLakeSpatialEnabled = False, catalog_settings = default_numeric_settings\<rparr>,
      te_utf8 = \<lambda>bs. bs, te_cliplen = \<lambda>bs n limit. min n (nat limit), pg_strtoint64 = \<lambda>s. Inr (int (dec_value s))\<rparr>"

definition sample_transform :: IcebergPartitionTransform where
  "sample_transform = zero_transform\<lparr>transform_type := PARTITION_TRANSFORM_BUCKET, transform_arg := 16, attnum := 1,
     sourceField := FieldStructElement 1 ''a'' False None None None None (FieldScalar ''int''),
     tr_pgType := MakePGType INT4OID (- 1), resultPgType := MakePGType INT4OID (- 1)\<rparr>"

lemma env_ok_sample: "env_ok sample_env"
  using calendar_ok_gregorian by (simp add: env_ok_def sample_env_def)

lemma transform_wf_sample: "transform_wf sample_env sample_transform"
  by (simp add: transform_wf_def sample_env_def sample_transform_def EnsureValidTypeForTransform_def EnsureValidTypeForBucketTransform_def
      GetTransformResultPGType_def MakePGType_def PostgresBaseTypeIdToIcebergTypeName_def argument_ok_def has_argument_def int_limits)



section \<open>Names of transforms are read back\<close>

text \<open>What is relied on of \<^verbatim>\<open>pg_strtoint64\<close>: it reads the decimal digits of a number.\<close>

definition strtoint_ok :: "transform_env \<Rightarrow> bool" where
  "strtoint_ok env \<longleftrightarrow> (\<forall>n. int n \<le> INT32_MAX \<longrightarrow> pg_strtoint64 env (nat_digits n) = Inr (int n))"

lemma nat_digits_chars: "c \<in> set (nat_digits n) \<Longrightarrow> \<exists>k < (10 :: nat). c = char_of (48 + k)"
proof (induction n rule: nat_digits.induct)
  case (1 n)
  consider "n < 10" "c = char_of (48 + n)" | "\<not> n < 10" "c \<in> set (nat_digits (n div 10))" | "c = char_of (48 + n mod 10)"
    using 1(2) by (subst (asm) nat_digits.simps) (auto split: if_splits)
  then show ?case
  proof cases
    case 3
    moreover have "n mod 10 < 10" by simp
    ultimately show ?thesis by blast
  qed (use 1(1) in blast)+
qed

lemma nat_digits_no_bracket: "CHR '']'' \<notin> set (nat_digits n)"
proof
  assume "CHR '']'' \<in> set (nat_digits n)"
  then obtain k :: nat where "k < 10" "CHR '']'' = char_of (48 + k)" using nat_digits_chars by blast
  then have "of_char CHR '']'' = 48 + k" by (simp del: of_char_Char)
  then show False using \<open>k < 10\<close> by simp
qed

lemma nat_digits_length: "n < 10 ^ Suc k \<Longrightarrow> length (nat_digits n) \<le> Suc k"
proof (induction k arbitrary: n)
  case 0
  then show ?case by (simp add: nat_digits.simps)
next
  case (Suc k)
  then have "n div 10 < 10 ^ Suc k" by simp
  then show ?case using Suc.IH [of "n div 10"] by (subst nat_digits.simps) simp
qed

lemma nat_digits_not_Nil: "nat_digits n \<noteq> []"
  by (subst nat_digits.simps) simp

lemma ParseBracketUintSize_digits:
  assumes "strtoint_ok env" "0 < n" "int n \<le> INT32_MAX"
  shows "ParseBracketUintSize env (prefix @ nat_digits n @ '']'') prefix = Inr (Some n)"
proof -
  have "takeWhile (\<lambda>c. c \<noteq> CHR '']'') (nat_digits n @ '']'') = nat_digits n"
    using nat_digits_no_bracket [of n] by (subst takeWhile_append2) auto
  moreover have "length (nat_digits n) \<le> 10" using nat_digits_length [of n 9] assms(3) by (simp add: int_limits)
  moreover have "pg_strtoint64 env (nat_digits n) = Inr (int n)" using assms(1,3) by (simp add: strtoint_ok_def)
  ultimately show ?thesis using assms(2,3)
    by (simp add: ParseBracketUintSize_def pg_strncasecmp_prefix_def nat_digits_not_Nil)
qed

lemma ParseTransformName_Generate:
  assumes "strtoint_ok env" "argument_ok (transform_type t, transform_arg t, columnName t)"
  shows "ParseTransformName env (GenerateTransformName t) = Inr (transform_type t, transform_arg t)"
proof (cases "transform_type t")
  case PARTITION_TRANSFORM_BUCKET
  then show ?thesis using assms ParseBracketUintSize_digits [OF assms(1), of "transform_arg t" "''bucket[''"]
    by (simp add: GenerateTransformName_def ParseTransformName_def argument_ok_def has_argument_def)
      (simp add: pg_strncasecmp_prefix_def pg_tolower_def)
next
  case PARTITION_TRANSFORM_TRUNCATE
  then show ?thesis using assms ParseBracketUintSize_digits [OF assms(1), of "transform_arg t" "''truncate[''"]
    by (simp add: GenerateTransformName_def ParseTransformName_def argument_ok_def has_argument_def)
      (simp add: pg_strncasecmp_prefix_def pg_tolower_def ParseBracketUintSize_def [of env _ "''bucket[''"])
qed (use assms(2) in \<open>simp_all add: GenerateTransformName_def ParseTransformName_def pg_strncasecmp_prefix_def pg_tolower_def
    argument_ok_def has_argument_def\<close>)

end
