(* ===== verification/Partition_Spec_Catalog.thy ===== *)
theory Partition_Spec_Catalog
  imports Partition_Transform
begin

text \<open>
  \<^verbatim>\<open>pg_lake_table/src/fdw/partitioning/partition_spec_catalog.c\<close>, the functions of \<^verbatim>\<open>partition_transform.c\<close> that read the catalog,
  and the part of \<^verbatim>\<open>pg_lake_table/src/ddl/ddl_changes.c\<close> that changes the partition spec of a table.  The tables \<^verbatim>\<open>partition_specs\<close>
  and \<^verbatim>\<open>partition_fields\<close> and the column \<^verbatim>\<open>default_spec_id\<close> of \<^verbatim>\<open>tables_internal\<close> are the state \<open>spec_catalog\<close>; their constraints are
  checked by the insertions.  \<open>lower\<close> is \<^verbatim>\<open>tolower\<close> as \<^verbatim>\<open>strcasecmp\<close> applies it, and \<open>hash_seq\<close> the order in which a hash table is
  scanned.
\<close>

section \<open>Catalog tables\<close>

record partition_field_row =
  pfr_table :: nat
  pfr_spec_id :: int
  pfr_source_field_id :: int
  pfr_field_id :: int
  pfr_name :: string
  pfr_transform :: string

record spec_catalog =
  spec_rows :: "(nat \<times> int) list"
  field_rows :: "partition_field_row list"
  default_specs :: "nat \<Rightarrow> int option"

text \<open>A relation: its columns with the fields they are registered as, the field ids of \<^verbatim>\<open>field_id_mappings\<close> with their
  attribute numbers, and for an external table the schema and the specs of its metadata.\<close>

record relation_info =
  ri_oid :: nat
  IsIcebergTable :: bool
  IsInternalIcebergTable :: bool
  ri_columns :: "column_info list"
  ri_mappings :: "(int \<times> int) list"
  ri_external_schema :: DataFileSchema
  ri_external_specs :: "IcebergPartitionSpec list"

definition ICEBERG_PARTITION_FIELD_ID_START :: int where "ICEBERG_PARTITION_FIELD_ID_START = 999"

definition max_or :: "int \<Rightarrow> int list \<Rightarrow> int" where
  "max_or d xs = (if xs = [] then d else Max (set xs))"

definition GetLargestSpecId :: "spec_catalog \<Rightarrow> nat \<Rightarrow> int" where
  "GetLargestSpecId cat relationId =
     max_or DEFAULT_SPEC_ID (map snd (filter (\<lambda>r. fst r = relationId) (spec_rows cat)))"

definition GetCurrentSpecId :: "spec_catalog \<Rightarrow> nat \<Rightarrow> int" where
  "GetCurrentSpecId cat relationId =
     (case default_specs cat relationId of Some specId \<Rightarrow> specId | None \<Rightarrow> DEFAULT_SPEC_ID)"

definition table_fields :: "spec_catalog \<Rightarrow> nat \<Rightarrow> partition_field_row list" where
  "table_fields cat relationId = filter (\<lambda>r. pfr_table r = relationId) (field_rows cat)"

definition GetLargestPartitionFieldId :: "spec_catalog \<Rightarrow> nat \<Rightarrow> int" where
  "GetLargestPartitionFieldId cat relationId =
     max_or ICEBERG_PARTITION_FIELD_ID_START (map pfr_field_id (table_fields cat relationId))"

definition field_of_row :: "partition_field_row \<Rightarrow> IcebergPartitionSpecField" where
  "field_of_row r =
     \<lparr>source_id = pfr_source_field_id r, source_ids = [pfr_source_field_id r], psf_field_id = pfr_field_id r,
      psf_name = pfr_name r, psf_transform = pfr_transform r\<rparr>"

definition GetIcebergPartitionFieldFromCatalog :: "spec_catalog \<Rightarrow> nat \<Rightarrow> int \<Rightarrow> IcebergPartitionSpecField option" where
  "GetIcebergPartitionFieldFromCatalog cat relationId fieldId =
     (case filter (\<lambda>r. pfr_field_id r = fieldId) (table_fields cat relationId) of
        [r] \<Rightarrow> Some (field_of_row r)
      | _ \<Rightarrow> None)"

definition GetIcebergSpecPartitionFieldsFromCatalog :: "spec_catalog \<Rightarrow> nat \<Rightarrow> int \<Rightarrow> IcebergPartitionSpecField list" where
  "GetIcebergSpecPartitionFieldsFromCatalog cat relationId specId =
     map field_of_row (sort_key pfr_field_id (filter (\<lambda>r. pfr_spec_id r = specId) (table_fields cat relationId)))"

definition GetAllPartitionSpecFieldsForInternalIcebergTable :: "spec_catalog \<Rightarrow> nat \<Rightarrow> IcebergPartitionSpecField list" where
  "GetAllPartitionSpecFieldsForInternalIcebergTable cat relationId =
     map field_of_row (sort_key pfr_field_id (table_fields cat relationId))"

definition UpdateDefaultPartitionSpecId :: "spec_catalog \<Rightarrow> nat \<Rightarrow> int \<Rightarrow> spec_catalog" where
  "UpdateDefaultPartitionSpecId cat relationId specId =
     cat\<lparr>default_specs := (\<lambda>r. if r = relationId \<and> default_specs cat r \<noteq> None then Some specId else default_specs cat r)\<rparr>"

definition InsertIcebergPartitionSpec :: "spec_catalog \<Rightarrow> nat \<Rightarrow> IcebergPartitionSpec \<Rightarrow> spec_catalog result" where
  "InsertIcebergPartitionSpec cat relationId spec =
     (if (relationId, spec_id spec) \<in> set (spec_rows cat) then Inl (DuplicateObject ''unique_partition_spec_id'')
      else if default_specs cat relationId = None then Inl (InternalError ''table_name_fk'')
      else Inr (cat\<lparr>spec_rows := spec_rows cat @ [(relationId, spec_id spec)]\<rparr>))"

definition InsertIcebergPartitionField ::
  "relation_info \<Rightarrow> spec_catalog \<Rightarrow> int \<Rightarrow> IcebergPartitionSpecField \<Rightarrow> spec_catalog result" where
  "InsertIcebergPartitionField rel cat specId field =
     (let relationId = ri_oid rel in
      if psf_field_id field \<in> pfr_field_id ` set (table_fields cat relationId) then Inl (DuplicateObject ''unique_partition_field_id'')
      else if map_of (ri_mappings rel) (source_id field) = None then Inl (InternalError ''enforce_partition_field_existence'')
      else if (relationId, specId) \<notin> set (spec_rows cat) then Inl (InternalError ''spec_id_fkey'')
      else if default_specs cat relationId = None then Inl (InternalError ''table_name_fk'')
      else Inr (cat\<lparr>field_rows := field_rows cat @
             [\<lparr>pfr_table = relationId, pfr_spec_id = specId, pfr_source_field_id = source_id field,
               pfr_field_id = psf_field_id field, pfr_name = psf_name field, pfr_transform = psf_transform field\<rparr>]\<rparr>))"

fun insert_fields ::
  "relation_info \<Rightarrow> spec_catalog \<Rightarrow> int \<Rightarrow> IcebergPartitionSpecField list \<Rightarrow> spec_catalog result" where
  "insert_fields rel cat specId [] = Inr cat"
| "insert_fields rel cat specId (field # rest) =
     result_bind (InsertIcebergPartitionField rel cat specId field) (\<lambda>cat. insert_fields rel cat specId rest)"

definition InsertPartitionSpecAndPartitionFields ::
  "relation_info \<Rightarrow> spec_catalog \<Rightarrow> IcebergPartitionSpec \<Rightarrow> spec_catalog result" where
  "InsertPartitionSpecAndPartitionFields rel cat spec =
     result_bind (InsertIcebergPartitionSpec cat (ri_oid rel) spec) (\<lambda>cat.
     insert_fields rel cat (spec_id spec) (spec_fields spec))"

definition GetAllPartitionSpecFieldsForExternalIcebergTable :: "IcebergPartitionSpec list \<Rightarrow> IcebergPartitionSpecField list" where
  "GetAllPartitionSpecFieldsForExternalIcebergTable specs = concat (map spec_fields specs)"

definition GetAllPartitionSpecFields :: "spec_catalog \<Rightarrow> relation_info \<Rightarrow> IcebergPartitionSpecField list" where
  "GetAllPartitionSpecFields cat rel =
     (if \<not> IsIcebergTable rel then []
      else if IsInternalIcebergTable rel then GetAllPartitionSpecFieldsForInternalIcebergTable cat (ri_oid rel)
      else GetAllPartitionSpecFieldsForExternalIcebergTable (ri_external_specs rel))"

text \<open>The rows of the left join of the specs with their fields, in the order of the query, and the hash table they fill: a list of
  specs with different ids, in the order of their first row.\<close>

definition join_rows :: "spec_catalog \<Rightarrow> nat \<Rightarrow> (int \<times> IcebergPartitionSpecField option) list" where
  "join_rows cat relationId =
     concat (map (\<lambda>specId.
       case GetIcebergSpecPartitionFieldsFromCatalog cat relationId specId of
         [] \<Rightarrow> [(specId, None)]
       | f # rest \<Rightarrow> map (\<lambda>f. (specId, Some f)) (f # rest))
     (sort (map snd (filter (\<lambda>r. fst r = relationId) (spec_rows cat)))))"

fun add_spec_row :: "int \<times> IcebergPartitionSpecField option \<Rightarrow> IcebergPartitionSpec list \<Rightarrow> IcebergPartitionSpec list" where
  "add_spec_row (specId, field) [] =
     [\<lparr>spec_id = specId, spec_fields = (case field of Some f \<Rightarrow> [f] | None \<Rightarrow> [])\<rparr>]"
| "add_spec_row (specId, field) (spec # specs) =
     (if spec_id spec = specId
      then spec\<lparr>spec_fields := spec_fields spec @ (case field of Some f \<Rightarrow> [f] | None \<Rightarrow> [])\<rparr> # specs
      else spec # add_spec_row (specId, field) specs)"

definition GetAllPartitionSpecsFromCatalog :: "spec_catalog \<Rightarrow> nat \<Rightarrow> IcebergPartitionSpec list" where
  "GetAllPartitionSpecsFromCatalog cat relationId = fold add_spec_row (join_rows cat relationId) []"


section \<open>Transforms of a table\<close>

definition PartitionTransformsEqual ::
  "(char \<Rightarrow> char) \<Rightarrow> IcebergPartitionSpec \<Rightarrow> IcebergPartitionTransform list \<Rightarrow> bool" where
  "PartitionTransformsEqual lower spec partitionTransforms \<longleftrightarrow>
     length (spec_fields spec) = length partitionTransforms \<and>
     list_all2 (\<lambda>specField transform.
         source_id specField = elem_id (sourceField transform) \<and>
         map lower (psf_name specField) = map lower (partitionFieldName transform))
       (spec_fields spec) partitionTransforms"

definition GetPartitionSpecIfAlreadyExist ::
  "(char \<Rightarrow> char) \<Rightarrow> (IcebergPartitionSpec list \<Rightarrow> IcebergPartitionSpec list) \<Rightarrow> spec_catalog \<Rightarrow> nat \<Rightarrow>
   IcebergPartitionTransform list \<Rightarrow> IcebergPartitionSpec option" where
  "GetPartitionSpecIfAlreadyExist lower hash_seq cat relationId partitionTransforms =
     find (\<lambda>spec. PartitionTransformsEqual lower spec partitionTransforms)
       (hash_seq (GetAllPartitionSpecsFromCatalog cat relationId))"

definition GetDataFileSchemaFieldById :: "DataFileSchema \<Rightarrow> int \<Rightarrow> DataFileSchemaField result" where
  "GetDataFileSchemaFieldById schema fieldId =
     (case find (\<lambda>f. elem_id f = fieldId) schema of
        None \<Rightarrow> Inl (InternalError ''field ID not found'')
      | Some f \<Rightarrow> Inr f)"

definition GetAttributeForFieldIdForInternalIcebergTable :: "relation_info \<Rightarrow> int \<Rightarrow> int result" where
  "GetAttributeForFieldIdForInternalIcebergTable rel fieldId =
     (case map_of (ri_mappings rel) fieldId of None \<Rightarrow> Inl Trap | Some attrNo \<Rightarrow> Inr attrNo)"

definition GetAttributeForFieldIdForExternalIcebergTable :: "relation_info \<Rightarrow> int \<Rightarrow> int result" where
  "GetAttributeForFieldIdForExternalIcebergTable rel fieldId =
     result_bind (GetDataFileSchemaFieldById (ri_external_schema rel) fieldId) (\<lambda>schemaField.
     case find (\<lambda>c. ci_name c = elem_name schemaField) (ri_columns rel) of
       None \<Rightarrow> Inl Trap
     | Some c \<Rightarrow> Inr (ci_attnum c))"

definition GetAttributeForFieldId :: "relation_info \<Rightarrow> int \<Rightarrow> int result" where
  "GetAttributeForFieldId rel fieldId =
     (if IsInternalIcebergTable rel then GetAttributeForFieldIdForInternalIcebergTable rel fieldId
      else GetAttributeForFieldIdForExternalIcebergTable rel fieldId)"

definition GetPartitionTransformFromSpecField ::
  "transform_env \<Rightarrow> relation_info \<Rightarrow> IcebergPartitionSpecField \<Rightarrow> IcebergPartitionTransform result" where
  "GetPartitionTransformFromSpecField env rel specField =
     (let transform = zero_transform\<lparr>partitionFieldId := psf_field_id specField, partitionFieldName := psf_name specField,
            transformName := psf_transform specField\<rparr> in
      result_bind (GetAttributeForFieldId rel (source_id specField)) (\<lambda>attrNo.
      case find (\<lambda>c. ci_attnum c = attrNo) (ri_columns rel) of
        None \<Rightarrow> Inl (InternalError ''cache lookup failed for attribute'')
      | Some column \<Rightarrow>
          let transform = transform\<lparr>attnum := attrNo, columnName := ci_name column, tr_pgType := ci_type column\<rparr> in
          result_bind
            (if IsInternalIcebergTable rel then Inr (ci_field column)
             else GetDataFileSchemaFieldById (ri_external_schema rel) (source_id specField)) (\<lambda>field.
          let transform = transform\<lparr>sourceField := field\<rparr> in
          result_bind (ParseTransformName env (transformName transform)) (\<lambda>(type, arg).
          let transform = transform\<lparr>transform_type := type, transform_arg := arg\<rparr> in
          result_bind (GetTransformResultPGType transform) (\<lambda>resultType.
          Inr (transform\<lparr>resultPgType := resultType\<rparr>))))))"

fun GetPartitionTransformsFromSpecFields ::
  "transform_env \<Rightarrow> relation_info \<Rightarrow> IcebergPartitionSpecField list \<Rightarrow> IcebergPartitionTransform list result" where
  "GetPartitionTransformsFromSpecFields env rel [] = Inr []"
| "GetPartitionTransformsFromSpecFields env rel (specField # specFields) =
     result_bind (GetPartitionTransformFromSpecField env rel specField) (\<lambda>transform.
     result_bind (GetPartitionTransformsFromSpecFields env rel specFields) (\<lambda>transforms.
     Inr (transform # transforms)))"

definition CurrentPartitionTransformList ::
  "transform_env \<Rightarrow> spec_catalog \<Rightarrow> relation_info \<Rightarrow> IcebergPartitionTransform list result" where
  "CurrentPartitionTransformList env cat rel =
     (let specId = GetCurrentSpecId cat (ri_oid rel) in
      if specId \<noteq> DEFAULT_SPEC_ID
      then GetPartitionTransformsFromSpecFields env rel (GetIcebergSpecPartitionFieldsFromCatalog cat (ri_oid rel) specId)
      else Inr [])"

definition AllPartitionTransformList ::
  "transform_env \<Rightarrow> spec_catalog \<Rightarrow> relation_info \<Rightarrow> IcebergPartitionTransform list result" where
  "AllPartitionTransformList env cat rel =
     GetPartitionTransformsFromSpecFields env rel (GetAllPartitionSpecFields cat rel)"

definition ErrorIfColumnEverUsedInIcebergPartitionSpec ::
  "transform_env \<Rightarrow> spec_catalog \<Rightarrow> relation_info \<Rightarrow> int \<Rightarrow> unit result" where
  "ErrorIfColumnEverUsedInIcebergPartitionSpec env cat rel attrNumber =
     result_bind (AllPartitionTransformList env cat rel) (\<lambda>partitionTransforms.
     if list_ex (\<lambda>t. attnum t = attrNumber) partitionTransforms
     then Inl (InternalError ''column is used in the partition spec'')
     else Inr ())"


section \<open>Changing the spec\<close>

definition SetPartitionBy ::
  "(char \<Rightarrow> char) \<Rightarrow> (IcebergPartitionSpec list \<Rightarrow> IcebergPartitionSpec list) \<Rightarrow> relation_info \<Rightarrow> spec_catalog \<Rightarrow>
   IcebergPartitionTransform list \<Rightarrow> (spec_catalog \<times> IcebergPartitionSpec) result" where
  "SetPartitionBy lower hash_seq rel cat parsedTransforms =
     (let relationId = ri_oid rel in
      result_bind (AnalyzeIcebergTablePartitionBy (ri_columns rel) (GetLargestPartitionFieldId cat relationId) parsedTransforms)
        (\<lambda>analyzedTransforms.
      case GetPartitionSpecIfAlreadyExist lower hash_seq cat relationId analyzedTransforms of
        Some partitionSpec \<Rightarrow> Inr (UpdateDefaultPartitionSpecId cat relationId (spec_id partitionSpec), partitionSpec)
      | None \<Rightarrow>
          let largestSpecId = GetLargestSpecId cat relationId;
              partitionSpec = BuildPartitionSpecFromPartitionTransforms analyzedTransforms largestSpecId;
              cat = UpdateDefaultPartitionSpecId cat relationId (spec_id partitionSpec)
          in result_bind (InsertPartitionSpecAndPartitionFields rel cat partitionSpec) (\<lambda>cat. Inr (cat, partitionSpec))))"

definition DropPartitionBy :: "relation_info \<Rightarrow> spec_catalog \<Rightarrow> spec_catalog \<times> IcebergPartitionSpec" where
  "DropPartitionBy rel cat =
     (UpdateDefaultPartitionSpecId cat (ri_oid rel) DEFAULT_SPEC_ID, \<lparr>spec_id = DEFAULT_SPEC_ID, spec_fields = []\<rparr>)"


section \<open>Parsed and analyzed transforms\<close>

lemma parse_digits_range:
  "parse_digits s val hasDigit = Inr (v, b, r) \<Longrightarrow> (hasDigit \<Longrightarrow> 0 < val \<and> is_i32 val) \<Longrightarrow> b \<Longrightarrow> 0 < v \<and> is_i32 v"
proof (induction s val hasDigit rule: parse_digits.induct)
  case (2 c s val hasDigit)
  show ?case
  proof (cases "c_isdigit c")
    case True
    then show ?thesis using 2 by (auto simp: Let_def split: if_splits)
  next
    case False
    then show ?thesis using 2 by simp
  qed
qed simp

lemma parse_digits_start: "parse_digits s 0 False = Inr (v, True, r) \<Longrightarrow> 0 < v \<and> is_i32 v"
  by (erule parse_digits_range) simp_all

lemma parse_argument_ok: "parse_argument type s = Inr (arg, r) \<Longrightarrow> argument_ok (type, arg, col)"
  by (auto dest!: parse_digits_start simp: parse_argument_def ParseInteger_def argument_ok_def result_bind_Inr_iff is_i32_def split: if_splits list.split_asm)

lemma ParseOneTransform_parsed:
  assumes "ParseOneTransform lower s = Inr (t, r)"
  shows "\<exists>x. t = parsed x \<and> argument_ok x"
proof -
  have id: "zero_transform\<lparr>columnName := n\<rparr> = parsed (PARTITION_TRANSFORM_IDENTITY, 0, n)" for n
    by (simp add: parsed_def zero_transform_def)
  have id_ok: "argument_ok (PARTITION_TRANSFORM_IDENTITY, 0, n)" for n by (simp add: argument_ok_def has_argument_def)
  obtain token s1 where 1: "ParseIdentifier s = Inr (token, s1)"
    "(case SkipWhitespace s1 of
         c # s' \<Rightarrow>
           if c = CHR ''('' then
             result_bind (LookupTransformType token) (\<lambda>type.
             result_bind (parse_argument type (SkipWhitespace s')) (\<lambda>(arg, s).
             result_bind (ParseIdentifier (SkipWhitespace s)) (\<lambda>(colName, s).
               case SkipWhitespace s of
                 [] \<Rightarrow> Inl (SyntaxError ''missing closing parenthesis in partition transform'')
               | c # s \<Rightarrow>
                   if c = CHR '')''
                   then Inr (zero_transform\<lparr>transform_type := type, transform_arg := arg,
                               columnName := NormalizeTransformColumnName lower colName\<rparr>, s)
                   else Inl (SyntaxError ''missing closing parenthesis in partition transform''))))
           else Inr (zero_transform\<lparr>columnName := NormalizeTransformColumnName lower token\<rparr>, c # s')
       | [] \<Rightarrow> Inr (zero_transform\<lparr>columnName := NormalizeTransformColumnName lower token\<rparr>, [])) = Inr (t, r)"
    using assms by (auto simp: ParseOneTransform_def result_bind_Inr_iff)
  consider "t = zero_transform\<lparr>columnName := NormalizeTransformColumnName lower token\<rparr>"
    | type arg s2 s3 colName where "parse_argument type s2 = Inr (arg, s3)"
      "t = zero_transform\<lparr>transform_type := type, transform_arg := arg, columnName := NormalizeTransformColumnName lower colName\<rparr>"
    using 1(2) by (auto simp: result_bind_Inr_iff split: list.split_asm if_split_asm) (metis neq_Nil_conv)
  then show ?thesis
  proof cases
    case 1
    then show ?thesis using id id_ok by blast
  next
    case 2
    then show ?thesis using parse_argument_ok [OF 2(1)] by (intro exI [of _ "(type, arg, NormalizeTransformColumnName lower colName)"])
      (simp add: parsed_def)
  qed
qed

lemma parse_transforms_parsed:
  "parse_transforms lower seenComma p acc = Inr ts \<Longrightarrow> \<exists>xs. ts = acc @ map parsed xs \<and> list_all argument_ok xs"
proof (induction lower seenComma p acc rule: parse_transforms.induct)
  case (1 lower seenComma p acc)
  show ?case
  proof (cases "SkipWhitespace p = []")
    case True
    then show ?thesis using 1(2) by (subst (asm) parse_transforms.simps) (auto split: if_splits)
  next
    case False
    then obtain t q where t: "ParseOneTransform lower (SkipWhitespace p) = Inr (t, q)"
      using 1(2) by (subst (asm) parse_transforms.simps) (auto split: sum.splits)
    then obtain x where x: "t = parsed x" "argument_ok x" using ParseOneTransform_parsed by blast
    show ?thesis
    proof (cases "SkipWhitespace q")
      case Nil
      then have "ts = acc @ map parsed [x]" using 1(2) t False x by (subst (asm) parse_transforms.simps) simp
      then show ?thesis using x by (intro exI [of _ "[x]"]) simp
    next
      case (Cons c r)
      then have c: "c = CHR '',''" "parse_transforms lower True r (acc @ [t]) = Inr ts"
        using 1(2) t False by (subst (asm) parse_transforms.simps, simp split: if_splits)+
      have "\<exists>xs. ts = (acc @ [t]) @ map parsed xs \<and> list_all argument_ok xs"
        by (rule 1(1) [OF False t refl Cons c(1,2)])
      then obtain xs where "ts = (acc @ [t]) @ map parsed xs" "list_all argument_ok xs" by blast
      then show ?thesis using x by (intro exI [of _ "x # xs"]) simp
    qed
  qed
qed

lemma ParseIcebergTablePartitionBy_parsed:
  "ParseIcebergTablePartitionBy lower opt = Inr ts \<Longrightarrow> \<exists>xs. ts = map parsed xs \<and> list_all argument_ok xs"
  using parse_transforms_parsed [of lower False _ "[]"]
  by (auto simp: ParseIcebergTablePartitionBy_def split: option.splits if_splits)

text \<open>What the analysis makes of a transform on a column.\<close>

definition base_transform :: "column_info \<Rightarrow> IcebergPartitionTransformType \<Rightarrow> nat \<Rightarrow> IcebergPartitionTransform" where
  "base_transform c type arg =
     zero_transform\<lparr>transform_type := type, transform_arg := arg, columnName := ci_name c, attnum := ci_attnum c, tr_pgType := ci_type c\<rparr>"

definition full_transform ::
  "column_info \<Rightarrow> IcebergPartitionTransformType \<Rightarrow> nat \<Rightarrow> int \<Rightarrow> PGType \<Rightarrow> IcebergPartitionTransform" where
  "full_transform c type arg fieldId res =
     (base_transform c type arg)\<lparr>resultPgType := res, sourceField := ci_field c,
        transformName := GenerateTransformName (base_transform c type arg),
        partitionFieldName := GeneratePartitionFieldName (base_transform c type arg), partitionFieldId := fieldId\<rparr>"

definition analyzed :: "column_info list \<Rightarrow> int \<Rightarrow> IcebergPartitionTransform \<Rightarrow> bool" where
  "analyzed cols fieldId t \<longleftrightarrow>
     (\<exists>c type arg res. c \<in> set cols \<and> argument_ok (type, arg, ci_name c) \<and>
        GetTransformResultPGType (base_transform c type arg) = Inr res \<and> t = full_transform c type arg fieldId res)"

lemma GenerateTransformName_cong:
  "transform_type t = transform_type u \<Longrightarrow> transform_arg t = transform_arg u \<Longrightarrow> GenerateTransformName t = GenerateTransformName u"
  by (cases "transform_type u") (simp_all add: GenerateTransformName_def)

lemma GeneratePartitionFieldName_cong:
  "transform_type t = transform_type u \<Longrightarrow> transform_arg t = transform_arg u \<Longrightarrow> columnName t = columnName u \<Longrightarrow>
    GeneratePartitionFieldName t = GeneratePartitionFieldName u"
  by (cases "transform_type u") (simp_all add: GeneratePartitionFieldName_def)

lemma generated_names:
  "GenerateTransformName (t\<lparr>resultPgType := res, sourceField := f\<rparr>) = GenerateTransformName t"
  "GeneratePartitionFieldName (t\<lparr>resultPgType := res, sourceField := f, transformName := n\<rparr>) = GeneratePartitionFieldName t"
  by (rule GenerateTransformName_cong GeneratePartitionFieldName_cong; simp)+

lemma analyze_transform_analyzed:
  assumes "analyze_transform cols largest (parsed x) = Inr t" "argument_ok x"
  shows "analyzed cols (wrap32 (largest + 1)) t"
proof -
  obtain type arg col where x: "x = (type, arg, col)" by (cases x)
  obtain c where c: "find (\<lambda>c. ci_name c = col) cols = Some c"
    using assms(1) x by (auto simp: analyze_transform_def EnsureTransformSourceColumnExists_def parsed_def split: option.splits)
  then have cs: "c \<in> set cols" "ci_name c = col" by (auto simp: find_Some_iff)
  have base: "(parsed x)\<lparr>attnum := ci_attnum c, tr_pgType := ci_type c\<rparr> = base_transform c type arg"
    using x cs(2) by (simp add: parsed_def base_transform_def)
  have col: "EnsureTransformSourceColumnExists cols (parsed x) = Inr c"
    using c x by (simp add: EnsureTransformSourceColumnExists_def parsed_def)
  obtain res where res: "GetTransformResultPGType (base_transform c type arg) = Inr res"
    using assms(1) by (auto simp: analyze_transform_def col base Let_def result_bind_Inr_iff split: if_splits)
  have "t = full_transform c type arg (wrap32 (largest + 1)) res"
    using assms(1) res
    by (auto simp: analyze_transform_def col base Let_def result_bind_Inr_iff full_transform_def generated_names split: if_splits)
  then show ?thesis using cs res assms(2) x unfolding analyzed_def by blast
qed


fun analyzed_from :: "column_info list \<Rightarrow> int \<Rightarrow> IcebergPartitionTransform list \<Rightarrow> bool" where
  "analyzed_from cols n [] = True"
| "analyzed_from cols n (t # ts) \<longleftrightarrow> analyzed cols (n + 1) t \<and> analyzed_from cols (n + 1) ts"

lemma analyze_transforms_from:
  "analyze_transforms cols n (map parsed xs) = Inr ts \<Longrightarrow> list_all argument_ok xs \<Longrightarrow> 0 \<le> n \<Longrightarrow> n + int (length xs) \<le> INT32_MAX \<Longrightarrow>
    analyzed_from cols n ts"
proof (induction xs arbitrary: n ts)
  case (Cons x xs)
  have "is_i32 (n + 1)" using Cons.prems(3,4) by (simp add: is_i32_def int_limits)
  moreover obtain t us where "analyze_transform cols n (parsed x) = Inr t"
    "analyze_transforms cols (wrap32 (n + 1)) (map parsed xs) = Inr us" "ts = t # us"
    using Cons.prems(1) by (auto simp: result_bind_Inr_iff)
  ultimately show ?case using Cons.IH [of "n + 1" us] Cons.prems analyze_transform_analyzed [of cols n x t] by simp
qed simp

lemma Analyze_from:
  assumes "AnalyzeIcebergTablePartitionBy cols n (map parsed xs) = Inr ts" "list_all argument_ok xs" "0 \<le> n" "n + int (length xs) \<le> INT32_MAX"
  shows "analyzed_from cols n ts"
  using assms by (auto simp: AnalyzeIcebergTablePartitionBy_def result_bind_Inr_iff intro: analyze_transforms_from)


section \<open>A spec field determines its transform\<close>

definition columns_ok :: "relation_info \<Rightarrow> bool" where
  "columns_ok rel \<longleftrightarrow> IsInternalIcebergTable rel \<and> distinct (map ci_attnum (ri_columns rel)) \<and>
     distinct (map (\<lambda>c. elem_id (ci_field c)) (ri_columns rel)) \<and>
     list_all (\<lambda>c. map_of (ri_mappings rel) (elem_id (ci_field c)) = Some (ci_attnum c)) (ri_columns rel)"

lemma find_attnum:
  "distinct (map f xs) \<Longrightarrow> x \<in> set xs \<Longrightarrow> find (\<lambda>y. f y = f x) xs = Some x"
  by (induction xs) (auto simp: image_iff)

lemma full_transform_simps [simp]:
  "transform_type (full_transform c type arg i res) = type" "transform_arg (full_transform c type arg i res) = arg"
  "columnName (full_transform c type arg i res) = ci_name c" "partitionFieldId (full_transform c type arg i res) = i"
  "sourceField (full_transform c type arg i res) = ci_field c"
  by (simp_all add: full_transform_def base_transform_def)

lemma GetPartitionTransformFromSpecField_analyzed:
  assumes "columns_ok rel" "strtoint_ok env" "analyzed (ri_columns rel) i t"
  shows "GetPartitionTransformFromSpecField env rel (spec_field_of_transform t) = Inr t"
proof -
  obtain c type arg res where c: "c \<in> set (ri_columns rel)" "argument_ok (type, arg, ci_name c)"
    "GetTransformResultPGType (base_transform c type arg) = Inr res" "t = full_transform c type arg i res"
    using assms(3) by (auto simp: analyzed_def)
  have attr: "GetAttributeForFieldId rel (elem_id (ci_field c)) = Inr (ci_attnum c)"
    using assms(1) c(1) by (auto simp: columns_ok_def GetAttributeForFieldId_def GetAttributeForFieldIdForInternalIcebergTable_def list_all_iff)
  have col: "find (\<lambda>d. ci_attnum d = ci_attnum c) (ri_columns rel) = Some c"
    using assms(1) c(1) by (intro find_attnum) (auto simp: columns_ok_def)
  have name: "ParseTransformName env (GenerateTransformName (base_transform c type arg)) = Inr (type, arg)"
    using ParseTransformName_Generate [OF assms(2), of "base_transform c type arg"] c(2) by (simp add: base_transform_def)
  have res: "GetTransformResultPGType (u\<lparr>transform_type := type, transform_arg := arg\<rparr>) = Inr res"
    if "tr_pgType u = ci_type c" for u
  proof -
    have "GetTransformResultPGType (u\<lparr>transform_type := type, transform_arg := arg\<rparr>) =
      GetTransformResultPGType (base_transform c type arg)"
      using that by (cases type) (simp_all add: GetTransformResultPGType_def base_transform_def AdjustTypmodForTruncateTransformIfNeeded_def Let_def cong: if_cong)
    then show ?thesis using c(3) by simp
  qed
  have int: "IsInternalIcebergTable rel" using assms(1) by (simp add: columns_ok_def)
  show ?thesis using attr col name res int c(4)
    by (simp add: GetPartitionTransformFromSpecField_def spec_field_of_transform_def)
      (simp add: full_transform_def base_transform_def)
qed

lemma analyzed_from_all: "analyzed_from cols n ts \<Longrightarrow> t \<in> set ts \<Longrightarrow> \<exists>i. analyzed cols i t"
  by (induction ts arbitrary: n) auto

lemma GetPartitionTransformsFromSpecFields_analyzed:
  assumes "columns_ok rel" "strtoint_ok env" "\<And>t. t \<in> set ts \<Longrightarrow> \<exists>i. analyzed (ri_columns rel) i t"
  shows "GetPartitionTransformsFromSpecFields env rel (map spec_field_of_transform ts) = Inr ts"
  using assms(3)
proof (induction ts)
  case (Cons t ts)
  then obtain i where "analyzed (ri_columns rel) i t" by auto
  then show ?case using Cons GetPartitionTransformFromSpecField_analyzed [OF assms(1,2)] by simp
qed simp


section \<open>Inserting a spec\<close>

definition row_of :: "nat \<Rightarrow> int \<Rightarrow> IcebergPartitionTransform \<Rightarrow> partition_field_row" where
  "row_of oid sid t =
     \<lparr>pfr_table = oid, pfr_spec_id = sid, pfr_source_field_id = elem_id (sourceField t), pfr_field_id = partitionFieldId t,
      pfr_name = partitionFieldName t, pfr_transform = transformName t\<rparr>"

lemma field_of_row_row_of: "field_of_row (row_of oid sid t) = spec_field_of_transform t"
  by (simp add: field_of_row_def row_of_def spec_field_of_transform_def)

lemma row_of_sel [simp]: "pfr_table (row_of oid sid t) = oid" "pfr_spec_id (row_of oid sid t) = sid"
  "pfr_field_id (row_of oid sid t) = partitionFieldId t"
  by (simp_all add: row_of_def)

lemma analyzed_fieldId: "analyzed cols i t \<Longrightarrow> partitionFieldId t = i"
  by (auto simp: analyzed_def)

lemma analyzed_source: "analyzed cols i t \<Longrightarrow> \<exists>c\<in>set cols. sourceField t = ci_field c"
  by (auto simp: analyzed_def)

lemma table_fields_append:
  "table_fields (cat\<lparr>field_rows := field_rows cat @ rows\<rparr>) oid = table_fields cat oid @ filter (\<lambda>r. pfr_table r = oid) rows"
  by (simp add: table_fields_def)

lemma insert_fields_analyzed:
  assumes "columns_ok rel" "analyzed_from (ri_columns rel) n ts" "\<And>r. r \<in> set (table_fields cat (ri_oid rel)) \<Longrightarrow> pfr_field_id r \<le> n"
    "(ri_oid rel, sid) \<in> set (spec_rows cat)" "default_specs cat (ri_oid rel) \<noteq> None"
  shows "insert_fields rel cat sid (map spec_field_of_transform ts) =
    Inr (cat\<lparr>field_rows := field_rows cat @ map (row_of (ri_oid rel) sid) ts\<rparr>)"
  using assms(2-)
proof (induction ts arbitrary: n cat)
  case (Cons t ts)
  let ?cat = "cat\<lparr>field_rows := field_rows cat @ [row_of (ri_oid rel) sid t]\<rparr>"
  have t: "analyzed (ri_columns rel) (n + 1) t" using Cons.prems(1) by simp
  have "map_of (ri_mappings rel) (elem_id (sourceField t)) \<noteq> None"
    using analyzed_source [OF t] assms(1) by (auto simp: columns_ok_def list_all_iff)
  moreover have "n + 1 \<notin> pfr_field_id ` set (table_fields cat (ri_oid rel))" using Cons.prems(2) by force
  ultimately have "InsertIcebergPartitionField rel cat sid (spec_field_of_transform t) = Inr ?cat"
    using analyzed_fieldId [OF t] Cons.prems(3,4)
    by (auto simp: InsertIcebergPartitionField_def Let_def spec_field_of_transform_def row_of_def)
  moreover have "insert_fields rel ?cat sid (map spec_field_of_transform ts) =
      Inr (?cat\<lparr>field_rows := field_rows ?cat @ map (row_of (ri_oid rel) sid) ts\<rparr>)"
  proof (rule Cons.IH [of "n + 1"])
    show "pfr_field_id r \<le> n + 1" if "r \<in> set (table_fields ?cat (ri_oid rel))" for r
      using that Cons.prems(2) analyzed_fieldId [OF t] by (auto simp: table_fields_append) force
  qed (use Cons.prems in simp_all)
  ultimately show ?case by simp
qed simp


section \<open>The specs of a table\<close>

definition table_specs :: "spec_catalog \<Rightarrow> nat \<Rightarrow> int list" where
  "table_specs cat oid = map snd (filter (\<lambda>r. fst r = oid) (spec_rows cat))"

lemma add_spec_row_new: "specId \<notin> spec_id ` set specs \<Longrightarrow>
    add_spec_row (specId, field) specs = specs @ [\<lparr>spec_id = specId, spec_fields = (case field of Some f \<Rightarrow> [f] | None \<Rightarrow> [])\<rparr>]"
  by (induction specs) auto

lemma add_spec_row_old: "specId \<notin> spec_id ` set specs \<Longrightarrow>
    add_spec_row (specId, Some f) (specs @ [\<lparr>spec_id = specId, spec_fields = fs\<rparr>]) = specs @ [\<lparr>spec_id = specId, spec_fields = fs @ [f]\<rparr>]"
  by (induction specs) auto

lemma fold_add_fields: "specId \<notin> spec_id ` set specs \<Longrightarrow>
    fold add_spec_row (map (\<lambda>f. (specId, Some f)) gs) (specs @ [\<lparr>spec_id = specId, spec_fields = fs\<rparr>]) =
      specs @ [\<lparr>spec_id = specId, spec_fields = fs @ gs\<rparr>]"
  by (induction gs arbitrary: fs) (simp_all add: add_spec_row_old)

definition spec_block :: "spec_catalog \<Rightarrow> nat \<Rightarrow> int \<Rightarrow> (int \<times> IcebergPartitionSpecField option) list" where
  "spec_block cat oid specId =
     (case GetIcebergSpecPartitionFieldsFromCatalog cat oid specId of
        [] \<Rightarrow> [(specId, None)]
      | f # rest \<Rightarrow> map (\<lambda>f. (specId, Some f)) (f # rest))"

definition spec_of :: "spec_catalog \<Rightarrow> nat \<Rightarrow> int \<Rightarrow> IcebergPartitionSpec" where
  "spec_of cat oid specId = \<lparr>spec_id = specId, spec_fields = GetIcebergSpecPartitionFieldsFromCatalog cat oid specId\<rparr>"

lemma fold_spec_block: "specId \<notin> spec_id ` set specs \<Longrightarrow> fold add_spec_row (spec_block cat oid specId) specs = specs @ [spec_of cat oid specId]"
  using fold_add_fields [of specId specs]
  by (cases "GetIcebergSpecPartitionFieldsFromCatalog cat oid specId") (simp_all add: spec_block_def spec_of_def add_spec_row_new)

lemma fold_spec_blocks:
  "distinct sids \<Longrightarrow> set sids \<inter> spec_id ` set specs = {} \<Longrightarrow>
    fold add_spec_row (concat (map (spec_block cat oid) sids)) specs = specs @ map (spec_of cat oid) sids"
proof (induction sids arbitrary: specs)
  case (Cons sid sids)
  then show ?case using fold_spec_block [of sid specs cat oid] by (simp add: spec_of_def)
qed simp

lemma GetAllPartitionSpecsFromCatalog_specs:
  assumes "distinct (table_specs cat oid)"
  shows "set (GetAllPartitionSpecsFromCatalog cat oid) = spec_of cat oid ` set (table_specs cat oid)"
proof -
  have "join_rows cat oid = concat (map (spec_block cat oid) (sort (table_specs cat oid)))"
    unfolding join_rows_def spec_block_def table_specs_def ..
  then show ?thesis using fold_spec_blocks [of "sort (table_specs cat oid)" "[]" cat oid] assms
    by (simp add: GetAllPartitionSpecsFromCatalog_def)
qed


section \<open>Names determine transforms\<close>

text \<open>What is relied on of \<^verbatim>\<open>tolower\<close>: it keeps lower case letters, digits and the underscore.\<close>

definition lower_ok :: "(char \<Rightarrow> char) \<Rightarrow> bool" where
  "lower_ok lower \<longleftrightarrow> list_all (\<lambda>c. lower c = c) ''_abcdefghijklmnopqrstuvwxyz0123456789''"

definition name_suffix :: "IcebergPartitionTransformType \<Rightarrow> nat \<Rightarrow> string" where
  "name_suffix type arg =
     (case type of
        PARTITION_TRANSFORM_IDENTITY \<Rightarrow> []
      | PARTITION_TRANSFORM_BUCKET \<Rightarrow> ''_bucket_'' @ nat_digits arg
      | PARTITION_TRANSFORM_TRUNCATE \<Rightarrow> ''_trunc_'' @ nat_digits arg
      | PARTITION_TRANSFORM_YEAR \<Rightarrow> ''_year''
      | PARTITION_TRANSFORM_MONTH \<Rightarrow> ''_month''
      | PARTITION_TRANSFORM_DAY \<Rightarrow> ''_day''
      | PARTITION_TRANSFORM_HOUR \<Rightarrow> ''_hour''
      | PARTITION_TRANSFORM_VOID \<Rightarrow> ''_void'')"

lemma name_with_suffix: "partitionFieldName (full_transform c type arg i res) = ci_name c @ name_suffix type arg"
  by (cases type) (simp_all add: full_transform_def GeneratePartitionFieldName_def base_transform_def name_suffix_def)

lemma lower_digits: "lower_ok lower \<Longrightarrow> map lower (nat_digits n) = nat_digits n"
proof -
  assume l: "lower_ok lower"
  have "lower c = c" if "c \<in> set (nat_digits n)" for c
  proof -
    obtain k :: nat where "k < 10" "c = char_of (48 + k)" using nat_digits_chars [OF \<open>c \<in> _\<close>] by blast
    moreover from this have "k = 0 \<or> k = 1 \<or> k = 2 \<or> k = 3 \<or> k = 4 \<or> k = 5 \<or> k = 6 \<or> k = 7 \<or> k = 8 \<or> k = 9" by arith
    ultimately show ?thesis using l by (elim disjE) (simp_all add: lower_ok_def char_of_def bit_0)
  qed
  then show ?thesis by (simp add: map_idI)
qed

lemma lower_suffix: "lower_ok lower \<Longrightarrow> map lower (name_suffix type arg) = name_suffix type arg"
  by (cases type) (simp_all add: name_suffix_def lower_digits, simp_all add: lower_ok_def)

lemma name_suffix_inject:
  assumes "argument_ok (type, arg, col)" "argument_ok (type', arg', col')" "name_suffix type arg = name_suffix type' arg'"
  shows "type = type' \<and> arg = arg'"
  using assms nat_digits_not_Nil
  by (cases type; cases type') (simp_all add: name_suffix_def argument_ok_def has_argument_def nat_digits_inject)

lemma same_name_same_transform:
  assumes "columns_ok rel" "lower_ok lower" "analyzed (ri_columns rel) i t" "analyzed (ri_columns rel) j u"
    "elem_id (sourceField t) = elem_id (sourceField u)" "map lower (partitionFieldName t) = map lower (partitionFieldName u)"
  shows "t\<lparr>partitionFieldId := 0\<rparr> = u\<lparr>partitionFieldId := 0\<rparr>"
proof -
  obtain c type arg res where t: "c \<in> set (ri_columns rel)" "argument_ok (type, arg, ci_name c)"
    "GetTransformResultPGType (base_transform c type arg) = Inr res" "t = full_transform c type arg i res"
    using assms(3) by (auto simp: analyzed_def)
  obtain c' type' arg' res' where u: "c' \<in> set (ri_columns rel)" "argument_ok (type', arg', ci_name c')"
    "GetTransformResultPGType (base_transform c' type' arg') = Inr res'" "u = full_transform c' type' arg' j res'"
    using assms(4) by (auto simp: analyzed_def)
  have "distinct (map (\<lambda>c. elem_id (ci_field c)) (ri_columns rel))" using assms(1) by (simp add: columns_ok_def)
  moreover have "elem_id (ci_field c) = elem_id (ci_field c')" using assms(5) t(4) u(4) by simp
  ultimately have "c = c'" using t(1) u(1) by (auto simp: distinct_map inj_on_def)
  moreover from this have "name_suffix type arg = name_suffix type' arg'"
    using assms(6) t(4) u(4) lower_suffix [OF assms(2)] by (simp add: name_with_suffix)
  ultimately show ?thesis using name_suffix_inject [OF t(2) u(2)] t(3,4) u(3,4) by (simp add: full_transform_def)
qed


section \<open>Setting the spec of a table\<close>

text \<open>Every field row of the table is the row of a transform the analysis accepted, under a spec that exists and is not the
  default one; field ids are unique and larger than the start.\<close>

definition spec_catalog_ok :: "relation_info \<Rightarrow> spec_catalog \<Rightarrow> bool" where
  "spec_catalog_ok rel cat \<longleftrightarrow>
     default_specs cat (ri_oid rel) \<noteq> None \<and> distinct (table_specs cat (ri_oid rel)) \<and>
     (\<forall>sid \<in> set (table_specs cat (ri_oid rel)). 0 \<le> sid) \<and> distinct (map pfr_field_id (table_fields cat (ri_oid rel))) \<and>
     (\<forall>r \<in> set (table_fields cat (ri_oid rel)).
        pfr_spec_id r \<in> set (table_specs cat (ri_oid rel)) \<and> pfr_spec_id r \<noteq> DEFAULT_SPEC_ID \<and>
        ICEBERG_PARTITION_FIELD_ID_START < pfr_field_id r \<and>
        (\<exists>t. analyzed (ri_columns rel) (pfr_field_id r) t \<and> r = row_of (ri_oid rel) (pfr_spec_id r) t)) \<and>
     (GetCurrentSpecId cat (ri_oid rel) = DEFAULT_SPEC_ID \<or> GetCurrentSpecId cat (ri_oid rel) \<in> set (table_specs cat (ri_oid rel)))"

definition without_id :: "IcebergPartitionTransform \<Rightarrow> IcebergPartitionTransform" where
  "without_id t = t\<lparr>partitionFieldId := 0\<rparr>"

lemma table_simps [simp]:
  "table_fields (UpdateDefaultPartitionSpecId cat oid sid) = table_fields cat"
  "table_specs (UpdateDefaultPartitionSpecId cat oid sid) = table_specs cat"
  "table_fields (cat\<lparr>spec_rows := rows\<rparr>) = table_fields cat"
  "table_specs (cat\<lparr>field_rows := frows\<rparr>) = table_specs cat"
  "GetIcebergSpecPartitionFieldsFromCatalog (UpdateDefaultPartitionSpecId cat oid sid) = GetIcebergSpecPartitionFieldsFromCatalog cat"
  by (simp_all add: fun_eq_iff table_fields_def table_specs_def UpdateDefaultPartitionSpecId_def GetIcebergSpecPartitionFieldsFromCatalog_def)

lemma GetCurrentSpecId_Update:
  "default_specs cat oid \<noteq> None \<Longrightarrow> GetCurrentSpecId (UpdateDefaultPartitionSpecId cat oid sid) oid = sid"
  by (simp add: GetCurrentSpecId_def UpdateDefaultPartitionSpecId_def)

lemma default_specs_Update: "default_specs (UpdateDefaultPartitionSpecId cat oid sid) r = None \<longleftrightarrow> default_specs cat r = None"
  by (auto simp: UpdateDefaultPartitionSpecId_def)

lemma spec_catalog_ok_Update:
  assumes "spec_catalog_ok rel cat" "sid = DEFAULT_SPEC_ID \<or> sid \<in> set (table_specs cat (ri_oid rel))"
  shows "spec_catalog_ok rel (UpdateDefaultPartitionSpecId cat (ri_oid rel) sid)"
  using assms GetCurrentSpecId_Update [of cat "ri_oid rel" sid] by (simp add: spec_catalog_ok_def default_specs_Update)

lemma spec_rows_transforms:
  assumes "spec_catalog_ok rel cat" "\<And>r. r \<in> set rows \<Longrightarrow> r \<in> set (table_fields cat (ri_oid rel))"
  shows "\<exists>ts. map field_of_row rows = map spec_field_of_transform ts \<and> (\<forall>t \<in> set ts. \<exists>i. analyzed (ri_columns rel) i t)"
  using assms(2)
proof (induction rows)
  case (Cons r rows)
  then obtain ts where ts: "map field_of_row rows = map spec_field_of_transform ts" "\<forall>t \<in> set ts. \<exists>i. analyzed (ri_columns rel) i t" by auto
  obtain t where "analyzed (ri_columns rel) (pfr_field_id r) t" "r = row_of (ri_oid rel) (pfr_spec_id r) t"
    using assms(1) Cons.prems [of r] unfolding spec_catalog_ok_def by auto
  moreover from this(2) have "field_of_row r = spec_field_of_transform t" using field_of_row_row_of by metis
  ultimately show ?case using ts by (intro exI [of _ "t # ts"]) auto
qed simp

lemma stored_spec_transforms:
  assumes "spec_catalog_ok rel cat"
  obtains ts where "GetIcebergSpecPartitionFieldsFromCatalog cat (ri_oid rel) sid = map spec_field_of_transform ts"
    "\<And>t. t \<in> set ts \<Longrightarrow> \<exists>i. analyzed (ri_columns rel) i t"
proof -
  have rows: "\<And>r. r \<in> set (sort_key pfr_field_id (filter (\<lambda>r. pfr_spec_id r = sid) (table_fields cat (ri_oid rel)))) \<Longrightarrow>
      r \<in> set (table_fields cat (ri_oid rel))" by auto
  obtain ts where "map field_of_row (sort_key pfr_field_id (filter (\<lambda>r. pfr_spec_id r = sid) (table_fields cat (ri_oid rel)))) =
      map spec_field_of_transform ts" "\<forall>t \<in> set ts. \<exists>i. analyzed (ri_columns rel) i t"
    using spec_rows_transforms [OF assms rows] by blast
  then show ?thesis using that by (simp add: GetIcebergSpecPartitionFieldsFromCatalog_def)
qed

lemma default_spec_no_fields: "spec_catalog_ok rel cat \<Longrightarrow> GetIcebergSpecPartitionFieldsFromCatalog cat (ri_oid rel) DEFAULT_SPEC_ID = []"
  by (auto simp: spec_catalog_ok_def GetIcebergSpecPartitionFieldsFromCatalog_def filter_empty_conv)

lemma CurrentPartitionTransformList_fields:
  assumes "columns_ok rel" "strtoint_ok env" "spec_catalog_ok rel cat"
    "GetIcebergSpecPartitionFieldsFromCatalog cat (ri_oid rel) (GetCurrentSpecId cat (ri_oid rel)) = map spec_field_of_transform ts"
    "\<And>t. t \<in> set ts \<Longrightarrow> \<exists>i. analyzed (ri_columns rel) i t"
  shows "CurrentPartitionTransformList env cat rel = Inr ts"
proof (cases "GetCurrentSpecId cat (ri_oid rel) = DEFAULT_SPEC_ID")
  case True
  then show ?thesis using assms(3,4) default_spec_no_fields by (simp add: CurrentPartitionTransformList_def)
next
  case False
  then show ?thesis using GetPartitionTransformsFromSpecFields_analyzed [OF assms(1,2,5)] assms(4)
    by (simp add: CurrentPartitionTransformList_def)
qed

lemma equal_transforms:
  assumes "columns_ok rel" "lower_ok lower"
    "list_all2 (\<lambda>specField transform.
         source_id specField = elem_id (sourceField transform) \<and>
         map lower (psf_name specField) = map lower (partitionFieldName transform)) (map spec_field_of_transform us) ts"
    "\<And>t. t \<in> set us \<Longrightarrow> \<exists>i. analyzed (ri_columns rel) i t" "\<And>t. t \<in> set ts \<Longrightarrow> \<exists>i. analyzed (ri_columns rel) i t"
  shows "map without_id us = map without_id ts"
  using assms(3-)
proof (induction us arbitrary: ts)
  case (Cons u us)
  obtain t rest where ts: "ts = t # rest" using Cons.prems(1) by (cases ts) auto
  obtain i where i: "analyzed (ri_columns rel) i u" using Cons.prems(2) [of u] by auto
  obtain j where j: "analyzed (ri_columns rel) j t" using Cons.prems(3) [of t] ts by auto
  have "elem_id (sourceField u) = elem_id (sourceField t)" "map lower (partitionFieldName u) = map lower (partitionFieldName t)"
    using Cons.prems(1) by (simp_all add: ts spec_field_of_transform_def)
  from same_name_same_transform [OF assms(1,2) i j this] have "without_id u = without_id t" by (simp add: without_id_def)
  moreover have "map without_id us = map without_id rest"
    by (rule Cons.IH) (use Cons.prems in \<open>simp_all add: ts\<close>)
  ultimately show ?case by (simp add: ts)
qed simp

lemma max_or_ge: "x \<in> set xs \<Longrightarrow> x \<le> max_or d xs"
  by (auto simp: max_or_def)

lemma max_or_bound: "b \<le> d \<Longrightarrow> (\<And>x. x \<in> set xs \<Longrightarrow> b \<le> x) \<Longrightarrow> b \<le> max_or d xs"
  by (auto simp: max_or_def)

lemma GetLargestSpecId_ge: "sid \<in> set (table_specs cat oid) \<Longrightarrow> sid \<le> GetLargestSpecId cat oid"
  using max_or_ge [of sid "table_specs cat oid"] by (simp add: GetLargestSpecId_def table_specs_def)

lemma GetLargestPartitionFieldId_ge: "r \<in> set (table_fields cat oid) \<Longrightarrow> pfr_field_id r \<le> GetLargestPartitionFieldId cat oid"
  by (simp add: GetLargestPartitionFieldId_def max_or_ge)

lemma largest_nonneg:
  assumes "spec_catalog_ok rel cat"
  shows "0 \<le> GetLargestSpecId cat (ri_oid rel)" "ICEBERG_PARTITION_FIELD_ID_START \<le> GetLargestPartitionFieldId cat (ri_oid rel)"
proof -
  have "0 \<le> max_or DEFAULT_SPEC_ID (table_specs cat (ri_oid rel))"
    using assms by (intro max_or_bound) (simp_all add: spec_catalog_ok_def DEFAULT_SPEC_ID_def)
  then show "0 \<le> GetLargestSpecId cat (ri_oid rel)" by (simp add: GetLargestSpecId_def table_specs_def)
  show "ICEBERG_PARTITION_FIELD_ID_START \<le> GetLargestPartitionFieldId cat (ri_oid rel)"
    unfolding GetLargestPartitionFieldId_def using assms by (intro max_or_bound) (auto simp: spec_catalog_ok_def)
qed

lemma analyzed_from_ids:
  "analyzed_from cols n ts \<Longrightarrow> sorted (map partitionFieldId ts) \<and> distinct (map partitionFieldId ts) \<and> (\<forall>t \<in> set ts. n < partitionFieldId t)"
proof (induction ts arbitrary: n)
  case (Cons t ts)
  then have "partitionFieldId t = n + 1" "\<forall>u \<in> set ts. n + 1 < partitionFieldId u" by (auto dest: analyzed_fieldId)
  then show ?case using Cons by fastforce
qed simp

lemma analyzed_from_rows:
  "analyzed_from cols n ts \<Longrightarrow> t \<in> set ts \<Longrightarrow> analyzed cols (partitionFieldId t) t"
  using analyzed_from_all [of cols n ts t] analyzed_fieldId [of cols _ t] by metis

text \<open>The catalog after a new spec is written.\<close>

definition spec_written :: "relation_info \<Rightarrow> spec_catalog \<Rightarrow> int \<Rightarrow> IcebergPartitionTransform list \<Rightarrow> spec_catalog" where
  "spec_written rel cat sid ts =
     cat\<lparr>spec_rows := spec_rows cat @ [(ri_oid rel, sid)], field_rows := field_rows cat @ map (row_of (ri_oid rel) sid) ts\<rparr>"

lemma spec_written_sel [simp]:
  "table_specs (spec_written rel cat sid ts) (ri_oid rel) = table_specs cat (ri_oid rel) @ [sid]"
  "table_fields (spec_written rel cat sid ts) (ri_oid rel) = table_fields cat (ri_oid rel) @ map (row_of (ri_oid rel) sid) ts"
  "default_specs (spec_written rel cat sid ts) = default_specs cat"
  "GetCurrentSpecId (spec_written rel cat sid ts) = GetCurrentSpecId cat"
  by (simp_all add: spec_written_def table_specs_def table_fields_def GetCurrentSpecId_def fun_eq_iff filter_map o_def)

lemma InsertPartitionSpec_written:
  assumes "columns_ok rel" "analyzed_from (ri_columns rel) n ts" "\<And>r. r \<in> set (table_fields cat (ri_oid rel)) \<Longrightarrow> pfr_field_id r \<le> n"
    "sid \<notin> set (table_specs cat (ri_oid rel))" "default_specs cat (ri_oid rel) \<noteq> None"
  shows "InsertPartitionSpecAndPartitionFields rel cat \<lparr>spec_id = sid, spec_fields = map spec_field_of_transform ts\<rparr> =
    Inr (spec_written rel cat sid ts)"
proof -
  let ?cat = "cat\<lparr>spec_rows := spec_rows cat @ [(ri_oid rel, sid)]\<rparr>"
  have "(ri_oid rel, sid) \<notin> set (spec_rows cat)" using assms(4) by (force simp: table_specs_def)
  then have "InsertIcebergPartitionSpec cat (ri_oid rel) \<lparr>spec_id = sid, spec_fields = map spec_field_of_transform ts\<rparr> = Inr ?cat"
    using assms(5) by (auto simp: InsertIcebergPartitionSpec_def)
  moreover have "insert_fields rel ?cat sid (map spec_field_of_transform ts) =
      Inr (?cat\<lparr>field_rows := field_rows ?cat @ map (row_of (ri_oid rel) sid) ts\<rparr>)"
    using assms by (intro insert_fields_analyzed) auto
  ultimately show ?thesis by (simp add: InsertPartitionSpecAndPartitionFields_def spec_written_def)
qed

lemma spec_written_fields:
  assumes "spec_catalog_ok rel cat" "sid \<notin> set (table_specs cat (ri_oid rel))" "analyzed_from (ri_columns rel) n ts"
  shows "GetIcebergSpecPartitionFieldsFromCatalog (spec_written rel cat sid ts) (ri_oid rel) sid = map spec_field_of_transform ts"
proof -
  have "filter (\<lambda>r. pfr_spec_id r = sid) (table_fields cat (ri_oid rel)) = []"
    using assms(1,2) by (auto simp: spec_catalog_ok_def filter_empty_conv)
  moreover have "sort_key pfr_field_id (map (row_of (ri_oid rel) sid) ts) = map (row_of (ri_oid rel) sid) ts"
    using analyzed_from_ids [OF assms(3)] by (intro sort_key_id_if_sorted) (simp add: o_def)
  ultimately show ?thesis by (simp add: GetIcebergSpecPartitionFieldsFromCatalog_def filter_map o_def field_of_row_row_of)
qed

lemma spec_written_ok:
  assumes "spec_catalog_ok rel cat" "sid \<notin> set (table_specs cat (ri_oid rel))" "0 \<le> sid" "ts \<noteq> [] \<Longrightarrow> sid \<noteq> DEFAULT_SPEC_ID"
    "analyzed_from (ri_columns rel) (GetLargestPartitionFieldId cat (ri_oid rel)) ts"
  shows "spec_catalog_ok rel (spec_written rel cat sid ts)"
proof -
  note ids = analyzed_from_ids [OF assms(5)]
  have d: "distinct (map pfr_field_id (table_fields cat (ri_oid rel) @ map (row_of (ri_oid rel) sid) ts))"
    using assms(1) ids GetLargestPartitionFieldId_ge [of _ cat "ri_oid rel"] by (fastforce simp: spec_catalog_ok_def o_def)
  have new: "pfr_spec_id r = sid \<and> pfr_spec_id r \<noteq> DEFAULT_SPEC_ID \<and> ICEBERG_PARTITION_FIELD_ID_START < pfr_field_id r \<and>
      (\<exists>t. analyzed (ri_columns rel) (pfr_field_id r) t \<and> r = row_of (ri_oid rel) (pfr_spec_id r) t)"
    if r: "r \<in> set (map (row_of (ri_oid rel) sid) ts)" for r
  proof -
    obtain t where t: "t \<in> set ts" "r = row_of (ri_oid rel) sid t" using r by auto
    then have "analyzed (ri_columns rel) (pfr_field_id r) t" "sid \<noteq> DEFAULT_SPEC_ID"
      using analyzed_from_rows [OF assms(5)] assms(4) by (simp, fastforce)
    then show ?thesis using t ids largest_nonneg(2) [OF assms(1)] by force
  qed
  show ?thesis unfolding spec_catalog_ok_def spec_written_sel
  proof (intro conjI ballI)
    fix r assume "r \<in> set (table_fields cat (ri_oid rel) @ map (row_of (ri_oid rel) sid) ts)"
    then consider "r \<in> set (table_fields cat (ri_oid rel))" | "r \<in> set (map (row_of (ri_oid rel) sid) ts)" by auto
    then have "(pfr_spec_id r \<in> set (table_specs cat (ri_oid rel)) \<or> pfr_spec_id r = sid) \<and> pfr_spec_id r \<noteq> DEFAULT_SPEC_ID \<and>
      ICEBERG_PARTITION_FIELD_ID_START < pfr_field_id r \<and>
      (\<exists>t. analyzed (ri_columns rel) (pfr_field_id r) t \<and> r = row_of (ri_oid rel) (pfr_spec_id r) t)"
    proof cases
      case 1
      then show ?thesis using assms(1) by (simp add: spec_catalog_ok_def)
    qed (use new in blast)
    then show "pfr_spec_id r \<in> set (table_specs cat (ri_oid rel) @ [sid])" "pfr_spec_id r \<noteq> DEFAULT_SPEC_ID"
      "ICEBERG_PARTITION_FIELD_ID_START < pfr_field_id r"
      "\<exists>t. analyzed (ri_columns rel) (pfr_field_id r) t \<and> r = row_of (ri_oid rel) (pfr_spec_id r) t" by auto
  qed (use assms(1-3) d in \<open>auto simp: spec_catalog_ok_def\<close>)
qed


lemma spec_field_lists:
  "PartitionTransformsEqual lower (spec_of cat oid sid) ts \<longleftrightarrow>
    list_all2 (\<lambda>specField transform.
         source_id specField = elem_id (sourceField transform) \<and>
         map lower (psf_name specField) = map lower (partitionFieldName transform))
       (GetIcebergSpecPartitionFieldsFromCatalog cat oid sid) ts"
  by (auto simp: PartitionTransformsEqual_def spec_of_def dest: list_all2_lengthD)

lemma SetPartitionBy_reuse:
  assumes "columns_ok rel" "strtoint_ok env" "lower_ok lower" "spec_catalog_ok rel cat" "sid \<in> set (table_specs cat (ri_oid rel))"
    "PartitionTransformsEqual lower (spec_of cat (ri_oid rel) sid) ts" "\<And>t. t \<in> set ts \<Longrightarrow> \<exists>i. analyzed (ri_columns rel) i t"
  shows "\<exists>us. CurrentPartitionTransformList env (UpdateDefaultPartitionSpecId cat (ri_oid rel) sid) rel = Inr us \<and>
    map without_id us = map without_id ts"
proof -
  let ?cat = "UpdateDefaultPartitionSpecId cat (ri_oid rel) sid"
  obtain us where us: "GetIcebergSpecPartitionFieldsFromCatalog cat (ri_oid rel) sid = map spec_field_of_transform us"
    "\<And>t. t \<in> set us \<Longrightarrow> \<exists>i. analyzed (ri_columns rel) i t" using stored_spec_transforms [OF assms(4)] by blast
  have "GetCurrentSpecId ?cat (ri_oid rel) = sid" using assms(4) by (intro GetCurrentSpecId_Update) (simp add: spec_catalog_ok_def)
  then have "CurrentPartitionTransformList env ?cat rel = Inr us"
    using us assms(5) by (intro CurrentPartitionTransformList_fields [OF assms(1,2) spec_catalog_ok_Update [OF assms(4)]]) auto
  moreover have "map without_id us = map without_id ts"
    using assms(6) us by (intro equal_transforms [OF assms(1,3) _ us(2) assms(7)]) (simp_all add: spec_field_lists)
  ultimately show ?thesis by blast
qed

lemma SetPartitionBy_new:
  assumes "columns_ok rel" "strtoint_ok env" "spec_catalog_ok rel cat" "sid \<notin> set (table_specs cat (ri_oid rel))" "0 \<le> sid"
    "ts \<noteq> [] \<Longrightarrow> sid \<noteq> DEFAULT_SPEC_ID" "ts = [] \<Longrightarrow> sid = DEFAULT_SPEC_ID"
    "analyzed_from (ri_columns rel) (GetLargestPartitionFieldId cat (ri_oid rel)) ts"
  shows "\<exists>cat'. InsertPartitionSpecAndPartitionFields rel (UpdateDefaultPartitionSpecId cat (ri_oid rel) sid)
      \<lparr>spec_id = sid, spec_fields = map spec_field_of_transform ts\<rparr> = Inr cat' \<and>
    spec_catalog_ok rel cat' \<and> CurrentPartitionTransformList env cat' rel = Inr ts"
proof -
  let ?upd = "UpdateDefaultPartitionSpecId cat (ri_oid rel) sid" and ?w = "spec_written rel cat sid ts"
  let ?cat' = "spec_written rel ?upd sid ts"
  have d: "default_specs cat (ri_oid rel) \<noteq> None" using assms(3) by (simp add: spec_catalog_ok_def)
  have ins: "InsertPartitionSpecAndPartitionFields rel ?upd \<lparr>spec_id = sid, spec_fields = map spec_field_of_transform ts\<rparr> = Inr ?cat'"
    using assms(4,8) d by (intro InsertPartitionSpec_written [OF assms(1)]) (auto simp: default_specs_Update GetLargestPartitionFieldId_ge)
  have eq: "?cat' = UpdateDefaultPartitionSpecId ?w (ri_oid rel) sid"
    by (cases cat) (simp add: spec_written_def UpdateDefaultPartitionSpecId_def cong: if_cong)
  have ok: "spec_catalog_ok rel ?cat'"
    unfolding eq using spec_written_ok [OF assms(3-6,8)] by (intro spec_catalog_ok_Update) simp_all
  have "GetCurrentSpecId ?cat' (ri_oid rel) = sid" unfolding eq using d by (intro GetCurrentSpecId_Update) simp
  moreover have "GetIcebergSpecPartitionFieldsFromCatalog ?cat' (ri_oid rel) sid = map spec_field_of_transform ts"
    unfolding eq using spec_written_fields [OF assms(3,4,8)] by simp
  ultimately have "CurrentPartitionTransformList env ?cat' rel = Inr ts"
    using analyzed_from_all [OF assms(8)] by (intro CurrentPartitionTransformList_fields [OF assms(1,2) ok]) auto
  then show ?thesis using ins ok by blast
qed

lemma SetPartitionBy_absent:
  assumes "columns_ok rel" "strtoint_ok env" "spec_catalog_ok rel cat" "GetLargestSpecId cat (ri_oid rel) < INT32_MAX"
    "analyzed_from (ri_columns rel) (GetLargestPartitionFieldId cat (ri_oid rel)) ts"
    "\<And>sid. sid \<in> set (table_specs cat (ri_oid rel)) \<Longrightarrow> \<not> PartitionTransformsEqual lower (spec_of cat (ri_oid rel) sid) ts"
    "spec = BuildPartitionSpecFromPartitionTransforms ts (GetLargestSpecId cat (ri_oid rel))"
  shows "\<exists>cat'. InsertPartitionSpecAndPartitionFields rel (UpdateDefaultPartitionSpecId cat (ri_oid rel) (spec_id spec)) spec = Inr cat' \<and>
    spec_catalog_ok rel cat' \<and> CurrentPartitionTransformList env cat' rel = Inr ts"
proof -
  define sid where "sid = spec_id spec"
  have spec: "spec = \<lparr>spec_id = sid, spec_fields = map spec_field_of_transform ts\<rparr>"
    using assms(7) by (simp add: sid_def BuildPartitionSpecFromPartitionTransforms_def)
  have "is_i32 (GetLargestSpecId cat (ri_oid rel) + 1)"
    using largest_nonneg(1) [OF assms(3)] assms(4) by (simp add: is_i32_def int_limits)
  then have sid: "sid = (if ts = [] then DEFAULT_SPEC_ID else GetLargestSpecId cat (ri_oid rel) + 1)"
    using assms(7) by (simp add: sid_def BuildPartitionSpecFromPartitionTransforms_def)
  have facts: "0 \<le> sid" "ts \<noteq> [] \<Longrightarrow> sid \<noteq> DEFAULT_SPEC_ID" "ts = [] \<Longrightarrow> sid = DEFAULT_SPEC_ID"
    using sid largest_nonneg(1) [OF assms(3)] by (auto simp: DEFAULT_SPEC_ID_def)
  have new: "sid \<notin> set (table_specs cat (ri_oid rel))"
  proof (cases "ts = []")
    case True
    then have "PartitionTransformsEqual lower (spec_of cat (ri_oid rel) sid) ts"
      using default_spec_no_fields [OF assms(3)] sid by (simp add: spec_field_lists)
    then show ?thesis using assms(6) by blast
  qed (use sid GetLargestSpecId_ge [of sid cat "ri_oid rel"] in auto)
  show ?thesis using SetPartitionBy_new [OF assms(1-3) new facts assms(5)] spec by simp
qed

text \<open>C15: setting the \<^verbatim>\<open>partition_by\<close> option takes effect.  For every option text the parser and the analysis accept, the catalog
  change succeeds, the transforms then read back for the table are the analyzed ones in that order (up to the field ids when an
  earlier spec is found and used again), and the catalog stays consistent: unique spec and field ids, every stored field that of
  an accepted transform under an existing spec.\<close>

theorem SetPartitionBy_current:
  assumes "columns_ok rel" "strtoint_ok env" "lower_ok lower" "\<And>xs. set (hash_seq xs) = set xs" "spec_catalog_ok rel cat"
    "ParseIcebergTablePartitionBy tolower partitionByOption = Inr parsedTransforms"
    "AnalyzeIcebergTablePartitionBy (ri_columns rel) (GetLargestPartitionFieldId cat (ri_oid rel)) parsedTransforms = Inr ts"
    "GetLargestPartitionFieldId cat (ri_oid rel) + int (length parsedTransforms) \<le> INT32_MAX" "GetLargestSpecId cat (ri_oid rel) < INT32_MAX"
  shows "\<exists>cat' spec us. SetPartitionBy lower hash_seq rel cat parsedTransforms = Inr (cat', spec) \<and> spec_catalog_ok rel cat' \<and>
    CurrentPartitionTransformList env cat' rel = Inr us \<and> map without_id us = map without_id ts"
proof -
  let ?largest = "GetLargestPartitionFieldId cat (ri_oid rel)"
  obtain xs where xs: "parsedTransforms = map parsed xs" "list_all argument_ok xs" using ParseIcebergTablePartitionBy_parsed [OF assms(6)] by blast
  have ts: "analyzed_from (ri_columns rel) ?largest ts"
    using assms(7,8) xs largest_nonneg(2) [OF assms(5)]
    by (intro Analyze_from [of _ _ xs]) (simp_all add: ICEBERG_PARTITION_FIELD_ID_START_def)
  have found: "set (hash_seq (GetAllPartitionSpecsFromCatalog cat (ri_oid rel))) = spec_of cat (ri_oid rel) ` set (table_specs cat (ri_oid rel))"
    using assms(4,5) GetAllPartitionSpecsFromCatalog_specs by (simp add: spec_catalog_ok_def)
  show ?thesis
  proof (cases "GetPartitionSpecIfAlreadyExist lower hash_seq cat (ri_oid rel) ts")
    case (Some spec)
    then have "spec \<in> set (hash_seq (GetAllPartitionSpecsFromCatalog cat (ri_oid rel)))" "PartitionTransformsEqual lower spec ts"
      by (auto simp: GetPartitionSpecIfAlreadyExist_def find_Some_iff)
    then obtain sid where sid: "sid \<in> set (table_specs cat (ri_oid rel))" "spec = spec_of cat (ri_oid rel) sid"
      "PartitionTransformsEqual lower (spec_of cat (ri_oid rel) sid) ts" using found by auto
    have "SetPartitionBy lower hash_seq rel cat parsedTransforms = Inr (UpdateDefaultPartitionSpecId cat (ri_oid rel) sid, spec)"
      using Some assms(7) sid(2) by (simp add: SetPartitionBy_def spec_of_def Let_def)
    moreover have "spec_catalog_ok rel (UpdateDefaultPartitionSpecId cat (ri_oid rel) sid)"
      using sid(1) by (intro spec_catalog_ok_Update [OF assms(5)]) simp
    ultimately show ?thesis using SetPartitionBy_reuse [OF assms(1-3,5) sid(1,3) analyzed_from_all [OF ts]] by blast
  next
    case None
    then have none: "\<not> PartitionTransformsEqual lower (spec_of cat (ri_oid rel) sid) ts" if "sid \<in> set (table_specs cat (ri_oid rel))" for sid
      using that found by (auto simp: GetPartitionSpecIfAlreadyExist_def find_None_iff)
    let ?spec = "BuildPartitionSpecFromPartitionTransforms ts (GetLargestSpecId cat (ri_oid rel))"
    obtain cat' where "InsertPartitionSpecAndPartitionFields rel (UpdateDefaultPartitionSpecId cat (ri_oid rel) (spec_id ?spec)) ?spec = Inr cat'"
        "spec_catalog_ok rel cat'" "CurrentPartitionTransformList env cat' rel = Inr ts"
      using SetPartitionBy_absent [OF assms(1,2,5,9) ts none refl] by blast
    moreover from this(1) have "SetPartitionBy lower hash_seq rel cat parsedTransforms = Inr (cat', ?spec)"
      using None assms(7) by (simp add: SetPartitionBy_def Let_def)
    ultimately show ?thesis by blast
  qed
qed

lemma DropPartitionBy_ok:
  assumes "spec_catalog_ok rel cat"
  shows "spec_catalog_ok rel (fst (DropPartitionBy rel cat)) \<and> CurrentPartitionTransformList env (fst (DropPartitionBy rel cat)) rel = Inr []"
  using spec_catalog_ok_Update [OF assms, of DEFAULT_SPEC_ID] GetCurrentSpecId_Update [of cat "ri_oid rel" DEFAULT_SPEC_ID] assms
  by (simp add: DropPartitionBy_def CurrentPartitionTransformList_def spec_catalog_ok_def)

lemma strtoint_ok_sample: "strtoint_ok sample_env"
  by (simp add: strtoint_ok_def sample_env_def dec_value_nat_digits)

definition sample_relation :: relation_info where
  "sample_relation =
     \<lparr>ri_oid = 7, IsIcebergTable = True, IsInternalIcebergTable = True,
      ri_columns = [\<lparr>ci_name = ''a'', ci_attnum = 1, ci_type = MakePGType INT4OID (- 1), ci_plain_collation = True,
        ci_field = FieldStructElement 1 ''a'' False None None None None (FieldScalar ''int'')\<rparr>],
      ri_mappings = [(1, 1)], ri_external_schema = [], ri_external_specs = []\<rparr>"

definition sample_specs :: spec_catalog where
  "sample_specs = \<lparr>spec_rows = [], field_rows = [], default_specs = [7 \<mapsto> 0]\<rparr>"

theorem SetPartitionBy_current_witness:
  "\<exists>cat' spec us. SetPartitionBy (\<lambda>c. c) (\<lambda>xs. xs) sample_relation sample_specs [parsed (PARTITION_TRANSFORM_BUCKET, 16, ''a'')] = Inr (cat', spec) \<and>
     spec_catalog_ok sample_relation cat' \<and> CurrentPartitionTransformList sample_env cat' sample_relation = Inr us \<and>
     map transform_arg us = [16]"
proof -
  let ?c = "\<lparr>ci_name = ''a'', ci_attnum = 1, ci_type = MakePGType INT4OID (- 1), ci_plain_collation = True,
        ci_field = FieldStructElement 1 ''a'' False None None None None (FieldScalar ''int'')\<rparr>"
  let ?t = "full_transform ?c PARTITION_TRANSFORM_BUCKET 16 1000 (MakePGType INT4OID (- 1))"
  have parse: "ParseIcebergTablePartitionBy pg_tolower (Some ''bucket(16, a)'') = Inr [parsed (PARTITION_TRANSFORM_BUCKET, 16, ''a'')]"
    by code_simp
  have largest: "GetLargestPartitionFieldId sample_specs (ri_oid sample_relation) = 999" "GetLargestSpecId sample_specs (ri_oid sample_relation) = 0"
    by (simp_all add: GetLargestPartitionFieldId_def GetLargestSpecId_def table_fields_def sample_specs_def max_or_def
        ICEBERG_PARTITION_FIELD_ID_START_def DEFAULT_SPEC_ID_def)
  have "wrap32 1000 = 1000" by (simp add: is_i32_def int_limits)
  then have analyze: "AnalyzeIcebergTablePartitionBy (ri_columns sample_relation) 999 [parsed (PARTITION_TRANSFORM_BUCKET, 16, ''a'')] = Inr [?t]"
    by (simp add: AnalyzeIcebergTablePartitionBy_def analyze_transform_def sample_relation_def EnsureTransformSourceColumnExists_def parsed_def
        GetTransformResultPGType_def EnsureTransformSourceColumnScalar_def EnsureValidTypeForTransform_def EnsureValidTypeForBucketTransform_def
        MakePGType_def full_transform_def base_transform_def generated_names zero_transform_def Let_def)
      (simp add: GenerateTransformName_def GeneratePartitionFieldName_def)
  have "\<exists>cat' spec us. SetPartitionBy (\<lambda>c. c) (\<lambda>xs. xs) sample_relation sample_specs [parsed (PARTITION_TRANSFORM_BUCKET, 16, ''a'')] = Inr (cat', spec) \<and>
     spec_catalog_ok sample_relation cat' \<and> CurrentPartitionTransformList sample_env cat' sample_relation = Inr us \<and>
     map without_id us = map without_id [?t]"
  proof (rule SetPartitionBy_current [OF _ strtoint_ok_sample _ _ _ parse])
    show "spec_catalog_ok sample_relation sample_specs"
      by (simp add: spec_catalog_ok_def sample_relation_def sample_specs_def table_specs_def table_fields_def GetCurrentSpecId_def DEFAULT_SPEC_ID_def)
  qed (use analyze largest in \<open>simp_all add: columns_ok_def sample_relation_def lower_ok_def int_limits\<close>)
  then obtain cat' spec us where "SetPartitionBy (\<lambda>c. c) (\<lambda>xs. xs) sample_relation sample_specs [parsed (PARTITION_TRANSFORM_BUCKET, 16, ''a'')] = Inr (cat', spec)"
     "spec_catalog_ok sample_relation cat'" "CurrentPartitionTransformList sample_env cat' sample_relation = Inr us"
     "map without_id us = map without_id [?t]" by blast
  moreover from this(4) have "map transform_arg us = map transform_arg [?t]"
  proof -
    have "map transform_arg (map without_id us) = map transform_arg (map without_id [?t])" using \<open>map without_id us = _\<close> by simp
    then show ?thesis by (simp add: without_id_def o_def)
  qed
  ultimately show ?thesis by (intro exI [of _ cat'] exI [of _ spec] exI [of _ us]) simp
qed

end
