(* ===== verification/Files_Catalog.thy ===== *)
theory Files_Catalog
  imports Partition_Spec_Catalog
begin

text \<open>
  \<^verbatim>\<open>pg_lake_table/src/fdw/data_files_catalog.c\<close>, \<^verbatim>\<open>data_files_catalog_batch.c\<close> and \<^verbatim>\<open>catalog/row_id_mappings.c\<close>: the catalog of the
  files of a table.  The tables of \<^verbatim>\<open>pg_lake_table--3.0.sql\<close> are lists of rows; inserting a row checks the keys, the foreign keys and
  the exclusion constraint of its table, and deleting a file removes the rows that refer to it, as their \<^verbatim>\<open>ON DELETE CASCADE\<close> says.
\<close>

section \<open>Tables\<close>

record file_row =
  fr_id :: int
  fr_table :: nat
  fr_path :: string
  fr_row_count :: int
  fr_updated_time :: int
  fr_file_size :: int
  fr_content :: DataFileContent
  fr_deleted_row_count :: int
  fr_first_row_id :: "int option"

record deletion_map_row =
  dm_table :: nat
  dm_path :: string
  dm_deleted_from :: string

record column_stat_row =
  cs_table :: nat
  cs_path :: string
  cs_field_id :: int
  cs_lower_bound :: "bytes option"
  cs_upper_bound :: "bytes option"

record partition_value_row =
  pv_table :: nat
  pv_id :: int
  pv_field_id :: int
  pv_value :: "bytes option"

record row_id_row =
  rm_table :: nat
  rm_file_id :: int
  rm_start :: int
  rm_end :: int
  rm_file_row_number :: int

record files_catalog =
  fc_files :: "file_row list"
  fc_next_id :: int
  fc_deletion_map :: "deletion_map_row list"
  fc_column_stats :: "column_stat_row list"
  fc_partition_values :: "partition_value_row list"
  fc_row_ids :: "row_id_row list"
  fc_tx_files :: "int list"

text \<open>What the operations read besides: the partition specs, the relation, the clock, the answer of \<^verbatim>\<open>PgLakeAddDataFileHook\<close> when it
  is set, and the leaf fields registered for columns that are not dropped.\<close>

record catalog_ctx =
  cx_env :: transform_env
  cx_specs :: spec_catalog
  cx_rel :: relation_info
  cx_now :: int
  cx_hook :: "bool option"
  cx_leaf :: "int \<Rightarrow> LeafField option"

definition INVALID_ROW_ID :: int where "INVALID_ROW_ID = 0"

fun insert_all :: "('s \<Rightarrow> 'r \<Rightarrow> 's result) \<Rightarrow> 's \<Rightarrow> 'r list \<Rightarrow> 's result" where
  "insert_all ins s [] = Inr s"
| "insert_all ins s (r # rs) = result_bind (ins s r) (\<lambda>s. insert_all ins s rs)"

definition insert_file_row :: "files_catalog \<Rightarrow> file_row \<Rightarrow> files_catalog result" where
  "insert_file_row cat row =
     (if fr_file_size row < 0 then Inl (InternalError ''file_size >= 0'')
      else if list_ex (\<lambda>r. fr_table r = fr_table row \<and> fr_path r = fr_path row) (fc_files cat)
      then Inl (DuplicateObject ''files_pkey'')
      else Inr (cat\<lparr>fc_files := fc_files cat @ [row\<lparr>fr_id := fc_next_id cat\<rparr>], fc_next_id := fc_next_id cat + 1\<rparr>))"

definition has_file :: "files_catalog \<Rightarrow> nat \<Rightarrow> string \<Rightarrow> bool" where
  "has_file cat table path = list_ex (\<lambda>r. fr_table r = table \<and> fr_path r = path) (fc_files cat)"

definition has_file_id :: "files_catalog \<Rightarrow> int \<Rightarrow> bool" where
  "has_file_id cat i = list_ex (\<lambda>r. fr_id r = i) (fc_files cat)"

definition insert_stat_row :: "files_catalog \<Rightarrow> column_stat_row \<Rightarrow> files_catalog result" where
  "insert_stat_row cat row =
     (if list_ex (\<lambda>r. cs_table r = cs_table row \<and> cs_field_id r = cs_field_id row \<and> cs_path r = cs_path row) (fc_column_stats cat)
      then Inl (DuplicateObject ''data_file_column_stats_pkey'')
      else if \<not> has_file cat (cs_table row) (cs_path row) then Inl (InternalError ''foreign key'')
      else Inr (cat\<lparr>fc_column_stats := fc_column_stats cat @ [row]\<rparr>))"

definition insert_value_row :: "spec_catalog \<Rightarrow> files_catalog \<Rightarrow> partition_value_row \<Rightarrow> files_catalog result" where
  "insert_value_row specs cat row =
     (if list_ex (\<lambda>r. pv_table r = pv_table row \<and> pv_id r = pv_id row \<and> pv_field_id r = pv_field_id row) (fc_partition_values cat)
      then Inl (DuplicateObject ''unique_partition_field_value'')
      else if \<not> has_file_id cat (pv_id row) then Inl (InternalError ''data_file_id_p_fk'')
      else if \<not> list_ex (\<lambda>f. pfr_table f = pv_table row \<and> pfr_field_id f = pv_field_id row) (field_rows specs)
      then Inl (InternalError ''partition_field_fk'')
      else Inr (cat\<lparr>fc_partition_values := fc_partition_values cat @ [row]\<rparr>))"

definition insert_tracked :: "files_catalog \<Rightarrow> int \<Rightarrow> files_catalog result" where
  "insert_tracked cat i =
     (if i \<in> set (fc_tx_files cat) then Inl (DuplicateObject ''tx_data_file_ids_pkey'')
      else Inr (cat\<lparr>fc_tx_files := fc_tx_files cat @ [i]\<rparr>))"

text \<open>Deleting files with the rows that refer to them.\<close>

definition delete_files :: "(file_row \<Rightarrow> bool) \<Rightarrow> files_catalog \<Rightarrow> files_catalog" where
  "delete_files P cat =
     (let gone = filter P (fc_files cat) in
      cat\<lparr>fc_files := filter (\<lambda>r. \<not> P r) (fc_files cat),
          fc_deletion_map := filter (\<lambda>m. \<not> list_ex (\<lambda>r. fr_table r = dm_table m \<and> (fr_path r = dm_path m \<or> fr_path r = dm_deleted_from m)) gone)
            (fc_deletion_map cat),
          fc_column_stats := filter (\<lambda>s. \<not> list_ex (\<lambda>r. fr_table r = cs_table s \<and> fr_path r = cs_path s) gone) (fc_column_stats cat),
          fc_partition_values := filter (\<lambda>v. \<not> list_ex (\<lambda>r. fr_id r = pv_id v) gone) (fc_partition_values cat),
          fc_row_ids := filter (\<lambda>m. \<not> list_ex (\<lambda>r. fr_id r = rm_file_id m) gone) (fc_row_ids cat)\<rparr>)"


section \<open>Adding files in bulk\<close>

definition new_file_row :: "catalog_ctx \<Rightarrow> TableMetadataOperation \<Rightarrow> file_row" where
  "new_file_row cx operation =
     \<lparr>fr_id = 0, fr_table = ri_oid (cx_rel cx), fr_path = op_path operation, fr_row_count = rowCount (dataFileStats operation),
      fr_updated_time = cx_now cx, fr_file_size = fileSize (dataFileStats operation), fr_content = op_content operation,
      fr_deleted_row_count = 0,
      fr_first_row_id = (if rowIdStart (dataFileStats operation) = INVALID_ROW_ID then None else Some (rowIdStart (dataFileStats operation)))\<rparr>"

definition BulkInsertDataFiles :: "catalog_ctx \<Rightarrow> files_catalog \<Rightarrow> TableMetadataOperation list \<Rightarrow> files_catalog result" where
  "BulkInsertDataFiles cx cat addOps = insert_all insert_file_row cat (map (new_file_row cx) addOps)"

text \<open>The hash table of the returned paths and ids: the rows the statement added.\<close>

definition path_to_file_id :: "files_catalog \<Rightarrow> files_catalog \<Rightarrow> string \<Rightarrow> int option" where
  "path_to_file_id cat cat' path =
     map_of (map (\<lambda>r. (fr_path r, fr_id r)) (drop (length (fc_files cat)) (fc_files cat'))) path"

fun AppendColumnStatsForFile :: "nat \<Rightarrow> string \<Rightarrow> DataFileColumnStats list \<Rightarrow> column_stat_row list" where
  "AppendColumnStatsForFile table path [] = []"
| "AppendColumnStatsForFile table path (s # stats) =
     (if lowerBoundText s = None then AppendColumnStatsForFile table path stats
      else \<lparr>cs_table = table, cs_path = path, cs_field_id = leaf_fieldId (leafField s), cs_lower_bound = lowerBoundText s,
            cs_upper_bound = upperBoundText s\<rparr> # AppendColumnStatsForFile table path stats)"

definition BulkInsertDataFileColumnStats :: "catalog_ctx \<Rightarrow> files_catalog \<Rightarrow> TableMetadataOperation list \<Rightarrow> files_catalog result" where
  "BulkInsertDataFileColumnStats cx cat addOps =
     insert_all insert_stat_row cat
       (concat (map (\<lambda>operation.
          if op_content operation \<noteq> CONTENT_DATA then []
          else AppendColumnStatsForFile (ri_oid (cx_rel cx)) (op_path operation) (columnStats (dataFileStats operation))) addOps))"

definition AddOpHasPartitionValues :: "TableMetadataOperation \<Rightarrow> bool" where
  "AddOpHasPartitionValues operation =
     (case op_partition operation of
        None \<Rightarrow> False
      | Some pfs \<Rightarrow> pfs \<noteq> [] \<and> (op_content operation = CONTENT_DATA \<or> op_content operation = CONTENT_POSITION_DELETES))"

fun AppendPartitionValuesForFile ::
  "catalog_ctx \<Rightarrow> IcebergPartitionTransform list \<Rightarrow> int \<Rightarrow> Partition \<Rightarrow> partition_value_row list result" where
  "AppendPartitionValuesForFile cx transforms fileId [] = Inr []"
| "AppendPartitionValuesForFile cx transforms fileId (field # rest) =
     result_bind (FindPartitionTransformById transforms (pf_field_id field) True) (\<lambda>transform.
     case transform of
       None \<Rightarrow> Inl Trap
     | Some transform \<Rightarrow>
         result_bind (SerializePartitionValueToPGText (cx_env cx) (pf_value field) transform) (\<lambda>partitionValue.
         result_bind (AppendPartitionValuesForFile cx transforms fileId rest) (\<lambda>rows.
         Inr (\<lparr>pv_table = ri_oid (cx_rel cx), pv_id = fileId, pv_field_id = pf_field_id field, pv_value = partitionValue\<rparr> # rows))))"

fun partition_rows ::
  "catalog_ctx \<Rightarrow> (string \<Rightarrow> int option) \<Rightarrow> IcebergPartitionTransform list \<Rightarrow> TableMetadataOperation list \<Rightarrow> partition_value_row list result" where
  "partition_rows cx pathToFileId transforms [] = Inr []"
| "partition_rows cx pathToFileId transforms (operation # addOps) =
     (if \<not> AddOpHasPartitionValues operation then partition_rows cx pathToFileId transforms addOps
      else case pathToFileId (op_path operation) of
        None \<Rightarrow> Inl Trap
      | Some fileId \<Rightarrow>
          result_bind (AppendPartitionValuesForFile cx transforms fileId (the (op_partition operation))) (\<lambda>rows.
          result_bind (partition_rows cx pathToFileId transforms addOps) (\<lambda>rest. Inr (rows @ rest))))"

definition BulkInsertDataFilePartitionValues ::
  "catalog_ctx \<Rightarrow> files_catalog \<Rightarrow> TableMetadataOperation list \<Rightarrow> (string \<Rightarrow> int option) \<Rightarrow> files_catalog result" where
  "BulkInsertDataFilePartitionValues cx cat addOps pathToFileId =
     (if \<not> list_ex AddOpHasPartitionValues addOps then Inr cat
      else result_bind (AllPartitionTransformList (cx_env cx) (cx_specs cx) (cx_rel cx)) (\<lambda>transforms.
           result_bind (partition_rows cx pathToFileId transforms addOps) (\<lambda>rows.
           insert_all (insert_value_row (cx_specs cx)) cat rows)))"

definition tracked_ids :: "(string \<Rightarrow> int option) \<Rightarrow> TableMetadataOperation list \<Rightarrow> int list" where
  "tracked_ids pathToFileId addOps =
     List.map_filter (\<lambda>operation. if op_content operation \<noteq> CONTENT_DATA then None else pathToFileId (op_path operation)) addOps"

definition BulkInsertTrackedFileIds ::
  "catalog_ctx \<Rightarrow> files_catalog \<Rightarrow> TableMetadataOperation list \<Rightarrow> (string \<Rightarrow> int option) \<Rightarrow> files_catalog result" where
  "BulkInsertTrackedFileIds cx cat addOps pathToFileId =
     (case cx_hook cx of
        None \<Rightarrow> Inr cat
      | Some False \<Rightarrow> Inr cat
      | Some True \<Rightarrow> insert_all insert_tracked cat (tracked_ids pathToFileId addOps))"

definition FlushDataFileAddBatch :: "catalog_ctx \<Rightarrow> files_catalog \<Rightarrow> TableMetadataOperation list \<Rightarrow> files_catalog result" where
  "FlushDataFileAddBatch cx cat addOps =
     (if addOps = [] then Inr cat
      else result_bind (BulkInsertDataFiles cx cat addOps) (\<lambda>cat1.
           let pathToFileId = path_to_file_id cat cat1 in
           result_bind (BulkInsertDataFileColumnStats cx cat1 addOps) (\<lambda>cat2.
           result_bind (BulkInsertDataFilePartitionValues cx cat2 addOps pathToFileId) (\<lambda>cat3.
           BulkInsertTrackedFileIds cx cat3 addOps pathToFileId))))"


section \<open>Single operations\<close>

definition AddDeletionFileMapping :: "nat \<Rightarrow> files_catalog \<Rightarrow> string \<Rightarrow> string option \<Rightarrow> files_catalog result" where
  "AddDeletionFileMapping relationId cat deletionFilePath sourcePath =
     (case sourcePath of
        None \<Rightarrow> Inl Trap
      | Some from \<Rightarrow>
          if list_ex (\<lambda>m. dm_table m = relationId \<and> dm_deleted_from m = from \<and> dm_path m = deletionFilePath) (fc_deletion_map cat)
          then Inl (DuplicateObject ''deletion_file_map_pkey'')
          else if \<not> has_file cat relationId from \<or> \<not> has_file cat relationId deletionFilePath then Inl (InternalError ''foreign key'')
          else Inr (cat\<lparr>fc_deletion_map := fc_deletion_map cat @
                 [\<lparr>dm_table = relationId, dm_path = deletionFilePath, dm_deleted_from = from\<rparr>]\<rparr>))"

definition GetFileIdForPath :: "files_catalog \<Rightarrow> nat \<Rightarrow> string \<Rightarrow> int result" where
  "GetFileIdForPath cat relationId path =
     (case find (\<lambda>r. fr_table r = relationId \<and> fr_path r = path) (fc_files cat) of
        None \<Rightarrow> Inl (InternalError ''could not find data file for path'')
      | Some r \<Rightarrow> Inr (fr_id r))"

text \<open>An empty range overlaps nothing; its bounds are not kept, which the check constraint on the bounds refuses.\<close>

definition InsertSingleRowMapping :: "nat \<Rightarrow> files_catalog \<Rightarrow> int \<Rightarrow> int \<Rightarrow> int \<Rightarrow> int \<Rightarrow> files_catalog result" where
  "InsertSingleRowMapping relationId cat fileNumber startId endId rowNumberStart =
     (if endId < startId then Inl (InternalError ''range lower bound must be less than or equal to range upper bound'')
      else if startId = endId then Inl (InternalError ''row_id_mappings_row_id_range_check'')
      else if list_ex (\<lambda>m. rm_table m = relationId \<and> rm_start m < endId \<and> startId < rm_end m) (fc_row_ids cat)
      then Inl (InternalError ''row_id_mapping_no_overlap'')
      else if \<not> has_file_id cat fileNumber then Inl (InternalError ''foreign key'')
      else Inr (cat\<lparr>fc_row_ids := fc_row_ids cat @
             [\<lparr>rm_table = relationId, rm_file_id = fileNumber, rm_start = startId, rm_end = endId, rm_file_row_number = rowNumberStart\<rparr>]\<rparr>))"

definition AddNewRowIdMapping :: "nat \<Rightarrow> files_catalog \<Rightarrow> string \<Rightarrow> RowIdRangeMapping list \<Rightarrow> files_catalog result" where
  "AddNewRowIdMapping relationId cat path ranges =
     result_bind (GetFileIdForPath cat relationId path) (\<lambda>fileId.
     insert_all (\<lambda>cat range.
       InsertSingleRowMapping relationId cat fileId (rowStartId range) (wrap64 (rowStartId range + numRows range)) (rowStartNum range))
       cat ranges)"

definition UpdateDeletedRowCount :: "nat \<Rightarrow> files_catalog \<Rightarrow> string \<Rightarrow> int \<Rightarrow> files_catalog" where
  "UpdateDeletedRowCount relationId cat path deleted =
     cat\<lparr>fc_files := map (\<lambda>r. if fr_table r = relationId \<and> fr_path r = path then r\<lparr>fr_deleted_row_count := deleted\<rparr> else r) (fc_files cat)\<rparr>"

definition UpdateDataFileFirstRowId :: "nat \<Rightarrow> files_catalog \<Rightarrow> int \<Rightarrow> int \<Rightarrow> files_catalog" where
  "UpdateDataFileFirstRowId relationId cat fileId firstRowId =
     cat\<lparr>fc_files := map (\<lambda>r. if fr_table r = relationId \<and> fr_id r = fileId
        then r\<lparr>fr_first_row_id := (if firstRowId = INVALID_ROW_ID then None else Some firstRowId)\<rparr> else r) (fc_files cat)\<rparr>"

text \<open>The three parts of the statement read the same state: the mappings of the file that goes, the file itself, and the deletion
  files of those mappings that no other mapping needs.\<close>

definition RemoveDataFileFromTable :: "nat \<Rightarrow> files_catalog \<Rightarrow> string \<Rightarrow> files_catalog" where
  "RemoveDataFileFromTable relationId cat path =
     (let deletion_files = map dm_path (filter (\<lambda>m. dm_table m = relationId \<and> dm_deleted_from m = path) (fc_deletion_map cat));
          unneeded = (\<lambda>p. p \<in> set deletion_files \<and>
            \<not> list_ex (\<lambda>m. dm_table m = relationId \<and> dm_deleted_from m \<noteq> path \<and> dm_path m = p) (fc_deletion_map cat))
      in delete_files (\<lambda>r. fr_table r = relationId \<and> (fr_path r = path \<or> unneeded (fr_path r)))
           (cat\<lparr>fc_deletion_map := filter (\<lambda>m. \<not> (dm_table m = relationId \<and> dm_deleted_from m = path)) (fc_deletion_map cat)\<rparr>))"

definition RemoveAllDataFilesFromCatalog :: "nat \<Rightarrow> files_catalog \<Rightarrow> files_catalog" where
  "RemoveAllDataFilesFromCatalog relationId cat = delete_files (\<lambda>r. fr_table r = relationId) cat"

definition ApplySingleOp :: "nat \<Rightarrow> files_catalog \<Rightarrow> TableMetadataOperation \<Rightarrow> files_catalog result" where
  "ApplySingleOp relationId cat operation =
     (case op_type operation of
        DATA_FILE_ADD_DELETE_MAPPING \<Rightarrow> AddDeletionFileMapping relationId cat (op_path operation) (deletedFrom operation)
      | DATA_FILE_ADD_ROW_ID_MAPPING \<Rightarrow> AddNewRowIdMapping relationId cat (op_path operation) (rowIdRanges operation)
      | DATA_FILE_REMOVE \<Rightarrow> Inr (RemoveDataFileFromTable relationId cat (op_path operation))
      | DATA_FILE_REMOVE_ALL \<Rightarrow> Inr (RemoveAllDataFilesFromCatalog relationId cat)
      | DATA_FILE_DROP_TABLE \<Rightarrow> Inr (RemoveAllDataFilesFromCatalog relationId cat)
      | DATA_FILE_UPDATE_DELETED_ROW_COUNT \<Rightarrow>
          Inr (UpdateDeletedRowCount relationId cat (op_path operation) (deletedRowCount (dataFileStats operation)))
      | _ \<Rightarrow> Inr cat)"

definition BatchableType :: "TableMetadataOperationType \<Rightarrow> bool" where
  "BatchableType type \<longleftrightarrow> type = DATA_FILE_ADD"

definition ApplyDataFileBatch ::
  "catalog_ctx \<Rightarrow> files_catalog \<Rightarrow> TableMetadataOperationType \<Rightarrow> TableMetadataOperation list \<Rightarrow> files_catalog result" where
  "ApplyDataFileBatch cx cat type batch =
     (if batch = [] then Inr cat
      else case type of DATA_FILE_ADD \<Rightarrow> FlushDataFileAddBatch cx cat batch | _ \<Rightarrow> Inr cat)"

definition CollectAdjacentOpsOfType ::
  "TableMetadataOperation list \<Rightarrow> TableMetadataOperationType \<Rightarrow> TableMetadataOperation list \<times> TableMetadataOperation list" where
  "CollectAdjacentOpsOfType operations runType =
     (takeWhile (\<lambda>op. op_type op = runType) operations, dropWhile (\<lambda>op. op_type op = runType) operations)"

function ApplyDataFileCatalogChanges :: "catalog_ctx \<Rightarrow> files_catalog \<Rightarrow> TableMetadataOperation list \<Rightarrow> files_catalog result" where
  "ApplyDataFileCatalogChanges cx cat [] = Inr cat"
| "ApplyDataFileCatalogChanges cx cat (currentOp # operations) =
     (if BatchableType (op_type currentOp) then
        (case CollectAdjacentOpsOfType (currentOp # operations) (op_type currentOp) of
           (adjacentOps, rest) \<Rightarrow>
             result_bind (ApplyDataFileBatch cx cat (op_type currentOp) adjacentOps) (\<lambda>cat. ApplyDataFileCatalogChanges cx cat rest))
      else result_bind (ApplySingleOp (ri_oid (cx_rel cx)) cat currentOp) (\<lambda>cat. ApplyDataFileCatalogChanges cx cat operations))"
  by pat_completeness auto
termination
  by (relation "measure (\<lambda>(cx, cat, ops). length ops)") (auto simp: CollectAdjacentOpsOfType_def length_dropWhile_le le_imp_less_Suc)

declare ApplyDataFileCatalogChanges.simps [simp del]


section \<open>Inserting many rows\<close>

text \<open>What every table of the catalog promises of its insertion: it succeeds exactly when the key of the row is new and what the row refers
  to exists, and it adds the key and nothing that later rows refer to.\<close>

locale keyed_table =
  fixes keys :: "'s \<Rightarrow> 'k set" and key :: "'r \<Rightarrow> 'k" and refs_ok :: "'s \<Rightarrow> 'r \<Rightarrow> bool" and add :: "'s \<Rightarrow> 'r \<Rightarrow> 's"
    and ins :: "'s \<Rightarrow> 'r \<Rightarrow> 's result"
  assumes ins_iff: "ins s r = Inr s' \<longleftrightarrow> key r \<notin> keys s \<and> refs_ok s r \<and> s' = add s r"
    and keys_add: "refs_ok s r \<Longrightarrow> keys (add s r) = insert (key r) (keys s)"
    and refs_add: "refs_ok (add s r) r' \<longleftrightarrow> refs_ok s r'"
begin

lemma insert_all_iff:
  "insert_all ins s rs = Inr s' \<longleftrightarrow>
     distinct (map key rs) \<and> key ` set rs \<inter> keys s = {} \<and> list_all (refs_ok s) rs \<and> s' = foldl add s rs"
proof (induction rs arbitrary: s)
  case (Cons r rs)
  show ?case
  proof (cases "key r \<notin> keys s \<and> refs_ok s r")
    case True
    then have "ins s r = Inr (add s r)" using ins_iff by blast
    moreover have "list_all (refs_ok (add s r)) rs = list_all (refs_ok s) rs" by (simp add: list_all_iff refs_add)
    ultimately show ?thesis using Cons.IH True keys_add [of s r] by auto
  next
    case False
    then have "\<nexists>x. ins s r = Inr x" using ins_iff by blast
    then have "insert_all ins s (r # rs) \<noteq> Inr s'" by (auto simp: result_bind_Inr_iff)
    then show ?thesis using False by auto
  qed
qed auto

end

definition file_key :: "file_row \<Rightarrow> nat \<times> string" where
  "file_key r = (fr_table r, fr_path r)"

definition add_file :: "files_catalog \<Rightarrow> file_row \<Rightarrow> files_catalog" where
  "add_file cat row = cat\<lparr>fc_files := fc_files cat @ [row\<lparr>fr_id := fc_next_id cat\<rparr>], fc_next_id := fc_next_id cat + 1\<rparr>"

interpretation files: keyed_table "\<lambda>cat. file_key ` set (fc_files cat)" file_key "\<lambda>_ row. 0 \<le> fr_file_size row" add_file insert_file_row
proof
  fix s s' :: files_catalog and r :: file_row
  have "list_ex (\<lambda>x. fr_table x = fr_table r \<and> fr_path x = fr_path r) (fc_files s) \<longleftrightarrow> file_key r \<in> file_key ` set (fc_files s)"
    by (auto simp: list_ex_iff file_key_def image_iff) metis
  then show "insert_file_row s r = Inr s' \<longleftrightarrow> file_key r \<notin> file_key ` set (fc_files s) \<and> 0 \<le> fr_file_size r \<and> s' = add_file s r"
    by (auto simp: insert_file_row_def add_file_def)
qed (auto simp: add_file_def file_key_def)

definition stat_key :: "column_stat_row \<Rightarrow> nat \<times> int \<times> string" where
  "stat_key r = (cs_table r, cs_field_id r, cs_path r)"

definition add_stat :: "files_catalog \<Rightarrow> column_stat_row \<Rightarrow> files_catalog" where
  "add_stat cat row = cat\<lparr>fc_column_stats := fc_column_stats cat @ [row]\<rparr>"

interpretation stats: keyed_table "\<lambda>cat. stat_key ` set (fc_column_stats cat)" stat_key "\<lambda>cat row. has_file cat (cs_table row) (cs_path row)"
  add_stat insert_stat_row
proof
  fix s s' :: files_catalog and r :: column_stat_row
  have "list_ex (\<lambda>x. cs_table x = cs_table r \<and> cs_field_id x = cs_field_id r \<and> cs_path x = cs_path r) (fc_column_stats s) \<longleftrightarrow>
      stat_key r \<in> stat_key ` set (fc_column_stats s)"
    by (auto simp: list_ex_iff stat_key_def image_iff) metis
  then show "insert_stat_row s r = Inr s' \<longleftrightarrow>
      stat_key r \<notin> stat_key ` set (fc_column_stats s) \<and> has_file s (cs_table r) (cs_path r) \<and> s' = add_stat s r"
    by (auto simp: insert_stat_row_def add_stat_def)
qed (auto simp: add_stat_def has_file_def)

definition value_key :: "partition_value_row \<Rightarrow> nat \<times> int \<times> int" where
  "value_key r = (pv_table r, pv_id r, pv_field_id r)"

definition add_value :: "files_catalog \<Rightarrow> partition_value_row \<Rightarrow> files_catalog" where
  "add_value cat row = cat\<lparr>fc_partition_values := fc_partition_values cat @ [row]\<rparr>"

definition value_field_ok :: "spec_catalog \<Rightarrow> partition_value_row \<Rightarrow> bool" where
  "value_field_ok specs row = list_ex (\<lambda>f. pfr_table f = pv_table row \<and> pfr_field_id f = pv_field_id row) (field_rows specs)"

interpretation vals: keyed_table "\<lambda>cat. value_key ` set (fc_partition_values cat)" value_key
  "\<lambda>cat row. has_file_id cat (pv_id row) \<and> value_field_ok specs row" add_value "insert_value_row specs" for specs
proof
  fix s s' :: files_catalog and r :: partition_value_row
  have "list_ex (\<lambda>x. pv_table x = pv_table r \<and> pv_id x = pv_id r \<and> pv_field_id x = pv_field_id r) (fc_partition_values s) \<longleftrightarrow>
      value_key r \<in> value_key ` set (fc_partition_values s)"
    by (auto simp: list_ex_iff value_key_def image_iff) metis
  then show "insert_value_row specs s r = Inr s' \<longleftrightarrow>
      value_key r \<notin> value_key ` set (fc_partition_values s) \<and> (has_file_id s (pv_id r) \<and> value_field_ok specs r) \<and> s' = add_value s r"
    by (auto simp: insert_value_row_def add_value_def value_field_ok_def)
qed (auto simp: add_value_def has_file_id_def value_field_ok_def)

definition add_tracked :: "files_catalog \<Rightarrow> int \<Rightarrow> files_catalog" where
  "add_tracked cat i = cat\<lparr>fc_tx_files := fc_tx_files cat @ [i]\<rparr>"

interpretation tracked: keyed_table "\<lambda>cat. set (fc_tx_files cat)" "\<lambda>i. i" "\<lambda>_ _. True" add_tracked insert_tracked
  by unfold_locales (auto simp: insert_tracked_def add_tracked_def)

text \<open>The states after the insertions.\<close>

fun numbered :: "int \<Rightarrow> file_row list \<Rightarrow> file_row list" where
  "numbered n [] = []"
| "numbered n (r # rs) = r\<lparr>fr_id := n\<rparr> # numbered (n + 1) rs"

lemma foldl_add_file:
  "foldl add_file cat rows = cat\<lparr>fc_files := fc_files cat @ numbered (fc_next_id cat) rows, fc_next_id := fc_next_id cat + int (length rows)\<rparr>"
  by (induction rows arbitrary: cat) (simp_all add: add_file_def)

lemma foldl_add_stat: "foldl add_stat cat rows = cat\<lparr>fc_column_stats := fc_column_stats cat @ rows\<rparr>"
  by (induction rows arbitrary: cat) (simp_all add: add_stat_def)

lemma foldl_add_value: "foldl add_value cat rows = cat\<lparr>fc_partition_values := fc_partition_values cat @ rows\<rparr>"
  by (induction rows arbitrary: cat) (simp_all add: add_value_def)

lemma foldl_add_tracked: "foldl add_tracked cat ids = cat\<lparr>fc_tx_files := fc_tx_files cat @ ids\<rparr>"
  by (induction ids arbitrary: cat) (simp_all add: add_tracked_def)


section \<open>A batch of additions\<close>

definition op_stats :: "catalog_ctx \<Rightarrow> TableMetadataOperation list \<Rightarrow> column_stat_row list" where
  "op_stats cx addOps =
     concat (map (\<lambda>operation.
       if op_content operation \<noteq> CONTENT_DATA then []
       else AppendColumnStatsForFile (ri_oid (cx_rel cx)) (op_path operation) (columnStats (dataFileStats operation))) addOps)"

text \<open>The partition rows and tracked ids of a batch whose files get the ids from \<open>n\<close>.\<close>

fun value_rows :: "catalog_ctx \<Rightarrow> IcebergPartitionTransform list \<Rightarrow> int \<Rightarrow> TableMetadataOperation list \<Rightarrow> partition_value_row list result" where
  "value_rows cx transforms n [] = Inr []"
| "value_rows cx transforms n (operation # addOps) =
     (if \<not> AddOpHasPartitionValues operation then value_rows cx transforms (n + 1) addOps
      else result_bind (AppendPartitionValuesForFile cx transforms n (the (op_partition operation))) (\<lambda>rows.
           result_bind (value_rows cx transforms (n + 1) addOps) (\<lambda>rest. Inr (rows @ rest))))"

definition batch_values :: "catalog_ctx \<Rightarrow> int \<Rightarrow> TableMetadataOperation list \<Rightarrow> partition_value_row list result" where
  "batch_values cx n addOps =
     (if \<not> list_ex AddOpHasPartitionValues addOps then Inr []
      else result_bind (AllPartitionTransformList (cx_env cx) (cx_specs cx) (cx_rel cx)) (\<lambda>transforms. value_rows cx transforms n addOps))"

fun batch_tracked :: "catalog_ctx \<Rightarrow> int \<Rightarrow> TableMetadataOperation list \<Rightarrow> int list" where
  "batch_tracked cx n [] = []"
| "batch_tracked cx n (operation # addOps) =
     (if cx_hook cx = Some True \<and> op_content operation = CONTENT_DATA then [n] else []) @ batch_tracked cx (n + 1) addOps"

lemma value_rows_none: "\<not> list_ex AddOpHasPartitionValues ops \<Longrightarrow> value_rows cx tr n ops = Inr []"
  by (induction ops arbitrary: n) auto

lemma batch_values_Cons:
  "batch_values cx n (op # ops) = Inr v \<longleftrightarrow>
     (\<exists>v1 v2. batch_values cx n [op] = Inr v1 \<and> batch_values cx (n + 1) ops = Inr v2 \<and> v = v1 @ v2)"
proof (cases "AddOpHasPartitionValues op")
  case True
  show ?thesis
  proof (cases "list_ex AddOpHasPartitionValues ops")
    case False
    then show ?thesis using True by (auto simp: batch_values_def value_rows_none result_bind_Inr_iff)
  qed (use True in \<open>auto simp: batch_values_def result_bind_Inr_iff\<close>)
next
  case False
  then show ?thesis by (auto simp: batch_values_def)
qed

lemma AppendPartitionValues_ids: "AppendPartitionValuesForFile cx tr n fs = Inr rows \<Longrightarrow> r \<in> set rows \<Longrightarrow> pv_id r = n"
  by (induction fs arbitrary: rows) (auto simp: result_bind_Inr_iff split: option.splits)

lemma value_rows_ids: "value_rows cx tr n ops = Inr rows \<Longrightarrow> r \<in> set rows \<Longrightarrow> n \<le> pv_id r \<and> pv_id r < n + int (length ops)"
proof (induction ops arbitrary: n rows)
  case (Cons op ops)
  show ?case
  proof (cases "AddOpHasPartitionValues op")
    case True
    then obtain a b where ab: "AppendPartitionValuesForFile cx tr n (the (op_partition op)) = Inr a" "value_rows cx tr (n + 1) ops = Inr b" "rows = a @ b"
      using Cons.prems(1) by (auto simp: result_bind_Inr_iff)
    consider "r \<in> set a" | "r \<in> set b" using Cons.prems(2) ab(3) by auto
    then show ?thesis
    proof cases
      case 1
      then show ?thesis using AppendPartitionValues_ids [OF ab(1)] by simp
    next
      case 2
      then show ?thesis using Cons.IH [OF ab(2)] by simp
    qed
  next
    case False
    then show ?thesis using Cons.IH [of "n + 1" rows] Cons.prems by simp
  qed
qed simp

lemma batch_values_ids: "batch_values cx n ops = Inr rows \<Longrightarrow> r \<in> set rows \<Longrightarrow> n \<le> pv_id r \<and> pv_id r < n + int (length ops)"
  using value_rows_ids by (auto simp: batch_values_def result_bind_Inr_iff split: if_splits)

lemma batch_tracked_ids: "i \<in> set (batch_tracked cx n ops) \<Longrightarrow> n \<le> i \<and> i < n + int (length ops)"
  by (induction ops arbitrary: n) (fastforce split: if_splits)+

lemma batch_tracked_distinct: "distinct (batch_tracked cx n ops)"
  using batch_tracked_ids [of _ cx] by (induction ops arbitrary: n) fastforce+

text \<open>The hash table gives each operation the id its file got.\<close>

definition ids_of :: "int \<Rightarrow> TableMetadataOperation list \<Rightarrow> (string \<times> int) list" where
  "ids_of n ops = zip (map op_path ops) (map (\<lambda>i. n + int i) [0..<length ops])"

lemma numbered_paths: "map (\<lambda>r. (fr_path r, fr_id r)) (numbered n (map (new_file_row cx) ops)) = ids_of n ops"
proof (induction ops arbitrary: n)
  case (Cons op ops)
  have "map (\<lambda>i. n + int i) [0..<Suc (length ops)] = n # map (\<lambda>i. n + 1 + int i) [0..<length ops]"
    by (simp add: upt_conv_Cons map_Suc_upt [symmetric] del: upt_Suc)
  then show ?case using Cons.IH [of "n + 1"] by (simp add: ids_of_def new_file_row_def del: upt_Suc)
qed (simp add: ids_of_def)

lemma ids_of_lookup:
  assumes "distinct (map op_path (pre @ op # ops))"
  shows "map_of (ids_of m (pre @ op # ops)) (op_path op) = Some (m + int (length pre))"
proof -
  have "ids_of m (pre @ op # ops) ! length pre = (op_path op, m + int (length pre))" by (simp add: ids_of_def nth_append)
  moreover have "length pre < length (ids_of m (pre @ op # ops))" by (simp add: ids_of_def)
  ultimately have "(op_path op, m + int (length pre)) \<in> set (ids_of m (pre @ op # ops))" by (metis nth_mem)
  moreover have "distinct (map fst (ids_of m (pre @ op # ops)))" using assms by (simp add: ids_of_def)
  ultimately show ?thesis by simp
qed

lemma partition_rows_eq:
  "distinct (map op_path (pre @ ops)) \<Longrightarrow> h = map_of (ids_of m (pre @ ops)) \<Longrightarrow> n = m + int (length pre) \<Longrightarrow>
    partition_rows cx h tr ops = value_rows cx tr n ops"
proof (induction ops arbitrary: pre n)
  case (Cons op ops)
  have "h (op_path op) = Some n" using ids_of_lookup [of pre op ops m] Cons.prems by simp
  moreover have "partition_rows cx h tr ops = value_rows cx tr (n + 1) ops"
    using Cons.IH [of "pre @ [op]" "n + 1"] Cons.prems by simp
  ultimately show ?case by simp
qed simp

lemma tracked_ids_eq:
  "distinct (map op_path (pre @ ops)) \<Longrightarrow> h = map_of (ids_of m (pre @ ops)) \<Longrightarrow> n = m + int (length pre) \<Longrightarrow> cx_hook cx = Some True \<Longrightarrow>
    tracked_ids h ops = batch_tracked cx n ops"
proof (induction ops arbitrary: pre n)
  case (Cons op ops)
  have "h (op_path op) = Some n" using ids_of_lookup [of pre op ops m] Cons.prems by simp
  moreover have "tracked_ids h ops = batch_tracked cx (n + 1) ops"
    using Cons.IH [of "pre @ [op]" "n + 1"] Cons.prems by simp
  ultimately show ?case using Cons.prems(4) by (simp add: tracked_ids_def List.map_filter_def)
qed (simp add: tracked_ids_def List.map_filter_def)


definition files_added :: "catalog_ctx \<Rightarrow> files_catalog \<Rightarrow> TableMetadataOperation list \<Rightarrow> files_catalog" where
  "files_added cx cat ops =
     cat\<lparr>fc_files := fc_files cat @ numbered (fc_next_id cat) (map (new_file_row cx) ops), fc_next_id := fc_next_id cat + int (length ops)\<rparr>"

definition new_files_ok :: "catalog_ctx \<Rightarrow> files_catalog \<Rightarrow> TableMetadataOperation list \<Rightarrow> bool" where
  "new_files_ok cx cat ops \<longleftrightarrow> distinct (map op_path ops) \<and>
     (\<forall>op \<in> set ops. \<not> has_file cat (ri_oid (cx_rel cx)) (op_path op) \<and> 0 \<le> fileSize (dataFileStats op))"

definition new_stats_ok :: "catalog_ctx \<Rightarrow> files_catalog \<Rightarrow> TableMetadataOperation list \<Rightarrow> bool" where
  "new_stats_ok cx cat ops \<longleftrightarrow>
     distinct (map stat_key (op_stats cx ops)) \<and> stat_key ` set (op_stats cx ops) \<inter> stat_key ` set (fc_column_stats cat) = {}"

definition new_values_ok :: "catalog_ctx \<Rightarrow> files_catalog \<Rightarrow> partition_value_row list \<Rightarrow> bool" where
  "new_values_ok cx cat v \<longleftrightarrow>
     distinct (map value_key v) \<and> value_key ` set v \<inter> value_key ` set (fc_partition_values cat) = {} \<and> list_all (value_field_ok (cx_specs cx)) v"

definition batch_result :: "catalog_ctx \<Rightarrow> files_catalog \<Rightarrow> TableMetadataOperation list \<Rightarrow> partition_value_row list \<Rightarrow> files_catalog" where
  "batch_result cx cat ops v =
     (files_added cx cat ops)\<lparr>fc_column_stats := fc_column_stats cat @ op_stats cx ops, fc_partition_values := fc_partition_values cat @ v,
        fc_tx_files := fc_tx_files cat @ batch_tracked cx (fc_next_id cat) ops\<rparr>"

definition batch_ok :: "catalog_ctx \<Rightarrow> files_catalog \<Rightarrow> TableMetadataOperation list \<Rightarrow> partition_value_row list \<Rightarrow> bool" where
  "batch_ok cx cat ops v \<longleftrightarrow>
     new_files_ok cx cat ops \<and> new_stats_ok cx cat ops \<and> batch_values cx (fc_next_id cat) ops = Inr v \<and> new_values_ok cx cat v \<and>
     set (batch_tracked cx (fc_next_id cat) ops) \<inter> set (fc_tx_files cat) = {}"

lemma numbered_simps [simp]:
  "length (numbered n rows) = length rows" "map file_key (numbered n rows) = map file_key rows"
  by (induction rows arbitrary: n) (simp_all add: file_key_def)

lemma numbered_keys [simp]: "file_key ` set (numbered n rows) = file_key ` set rows"
  by (metis list.set_map numbered_simps(2))

lemma numbered_ids: "map fr_id (numbered n rows) = map (\<lambda>i. n + int i) [0..<length rows]"
proof (induction rows arbitrary: n)
  case (Cons r rows)
  have "map (\<lambda>i. n + int i) [0..<Suc (length rows)] = n # map (\<lambda>i. n + 1 + int i) [0..<length rows]"
    by (simp add: upt_conv_Cons map_Suc_upt [symmetric] del: upt_Suc)
  then show ?case using Cons.IH [of "n + 1"] by (simp del: upt_Suc)
qed simp

lemma has_file_key: "has_file cat table path \<longleftrightarrow> (table, path) \<in> file_key ` set (fc_files cat)"
  by (auto simp: has_file_def list_ex_iff file_key_def image_iff)

lemma new_row_key [simp]: "file_key (new_file_row cx op) = (ri_oid (cx_rel cx), op_path op)"
  by (simp add: file_key_def new_file_row_def)

lemma BulkInsertDataFiles_iff:
  "BulkInsertDataFiles cx cat ops = Inr c \<longleftrightarrow> new_files_ok cx cat ops \<and> c = files_added cx cat ops"
proof -
  have "distinct (map (\<lambda>op. (ri_oid (cx_rel cx), op_path op)) ops) \<longleftrightarrow> distinct (map op_path ops)"
    by (simp add: distinct_map inj_on_def)
  moreover have "file_key ` new_file_row cx ` set ops \<inter> file_key ` set (fc_files cat) = {} \<longleftrightarrow>
      (\<forall>op \<in> set ops. \<not> has_file cat (ri_oid (cx_rel cx)) (op_path op))"
    by (auto simp: has_file_key image_image)
  moreover have "list_all (\<lambda>row. 0 \<le> fr_file_size row) (map (new_file_row cx) ops) \<longleftrightarrow> (\<forall>op \<in> set ops. 0 \<le> fileSize (dataFileStats op))"
    by (simp add: list_all_iff new_file_row_def)
  ultimately show ?thesis
    unfolding BulkInsertDataFiles_def files.insert_all_iff new_files_ok_def files_added_def
    by (auto simp: foldl_add_file o_def)
qed

lemma hash_files_added: "path_to_file_id cat (files_added cx cat ops) = map_of (ids_of (fc_next_id cat) ops)"
  by (simp add: fun_eq_iff path_to_file_id_def files_added_def numbered_paths)

lemma has_new_file: "op \<in> set ops \<Longrightarrow> has_file (files_added cx cat ops) (ri_oid (cx_rel cx)) (op_path op)"
  by (auto simp: has_file_key files_added_def image_Un image_image)

lemma has_new_id: "fc_next_id cat \<le> i \<Longrightarrow> i < fc_next_id cat + int (length ops) \<Longrightarrow> has_file_id (files_added cx cat ops) i"
proof -
  assume i: "fc_next_id cat \<le> i" "i < fc_next_id cat + int (length ops)"
  have "i \<in> (\<lambda>k. fc_next_id cat + int k) ` {0..<length ops}" by (rule image_eqI [of _ _ "nat (i - fc_next_id cat)"]) (use i in auto)
  then have "i \<in> set (map fr_id (numbered (fc_next_id cat) (map (new_file_row cx) ops)))" by (simp add: numbered_ids)
  then show ?thesis by (auto simp: has_file_id_def list_ex_iff files_added_def)
qed

lemma AppendColumnStats_path: "s \<in> set (AppendColumnStatsForFile table path stats) \<Longrightarrow> cs_table s = table \<and> cs_path s = path"
  by (induction stats) (auto split: if_splits)

lemma op_stats_path: "s \<in> set (op_stats cx ops) \<Longrightarrow> cs_table s = ri_oid (cx_rel cx) \<and> cs_path s \<in> op_path ` set ops"
  by (auto simp: op_stats_def dest!: AppendColumnStats_path split: if_splits)

lemma BulkInsertDataFileColumnStats_iff:
  "BulkInsertDataFileColumnStats cx (files_added cx cat ops) ops = Inr c \<longleftrightarrow>
    new_stats_ok cx cat ops \<and> c = (files_added cx cat ops)\<lparr>fc_column_stats := fc_column_stats cat @ op_stats cx ops\<rparr>"
proof -
  have "list_all (\<lambda>s. has_file (files_added cx cat ops) (cs_table s) (cs_path s)) (op_stats cx ops)"
    using op_stats_path [of _ cx ops] has_new_file [of _ ops cx cat] by (fastforce simp: list_all_iff)
  moreover have "fc_column_stats (files_added cx cat ops) = fc_column_stats cat" by (simp add: files_added_def)
  ultimately show ?thesis
    unfolding BulkInsertDataFileColumnStats_def op_stats_def [symmetric] stats.insert_all_iff new_stats_ok_def
    by (auto simp: foldl_add_stat)
qed

lemma BulkInsertDataFilePartitionValues_iff:
  assumes "distinct (map op_path ops)"
  shows "BulkInsertDataFilePartitionValues cx ((files_added cx cat ops)\<lparr>fc_column_stats := st\<rparr>) ops (map_of (ids_of (fc_next_id cat) ops)) = Inr c \<longleftrightarrow>
    (\<exists>v. batch_values cx (fc_next_id cat) ops = Inr v \<and> new_values_ok cx cat v \<and>
       c = (files_added cx cat ops)\<lparr>fc_column_stats := st, fc_partition_values := fc_partition_values cat @ v\<rparr>)"
proof (cases "list_ex AddOpHasPartitionValues ops")
  case False
  then show ?thesis by (auto simp: BulkInsertDataFilePartitionValues_def batch_values_def new_values_ok_def files_added_def)
next
  case True
  let ?cat = "(files_added cx cat ops)\<lparr>fc_column_stats := st\<rparr>"
  have rows: "partition_rows cx (map_of (ids_of (fc_next_id cat) ops)) tr ops = value_rows cx tr (fc_next_id cat) ops" for tr
    using partition_rows_eq [of "[]" ops _ "fc_next_id cat" "fc_next_id cat" cx tr] assms by simp
  have refs: "list_all (\<lambda>r. has_file_id ?cat (pv_id r)) v" if "value_rows cx tr (fc_next_id cat) ops = Inr v" for tr v
    using value_rows_ids [OF that] has_new_id [of cat _ ops cx] by (auto simp: list_all_iff has_file_id_def)
  have ins: "insert_all (insert_value_row (cx_specs cx)) ?cat v = Inr c \<longleftrightarrow> new_values_ok cx cat v \<and>
      c = (files_added cx cat ops)\<lparr>fc_column_stats := st, fc_partition_values := fc_partition_values cat @ v\<rparr>"
    if "value_rows cx tr (fc_next_id cat) ops = Inr v" for tr v
    using refs [OF that] unfolding vals.insert_all_iff new_values_ok_def foldl_add_value
    by (auto simp: list_all_iff files_added_def)
  show ?thesis using True ins by (auto simp: BulkInsertDataFilePartitionValues_def batch_values_def rows result_bind_Inr_iff)
qed

lemma BulkInsertTrackedFileIds_iff:
  assumes "distinct (map op_path ops)" "fc_tx_files cat' = fc_tx_files cat"
  shows "BulkInsertTrackedFileIds cx cat' ops (map_of (ids_of (fc_next_id cat) ops)) = Inr c \<longleftrightarrow>
    set (batch_tracked cx (fc_next_id cat) ops) \<inter> set (fc_tx_files cat) = {} \<and>
    c = cat'\<lparr>fc_tx_files := fc_tx_files cat @ batch_tracked cx (fc_next_id cat) ops\<rparr>"
proof (cases "cx_hook cx = Some True")
  case True
  have "tracked_ids (map_of (ids_of (fc_next_id cat) ops)) ops = batch_tracked cx (fc_next_id cat) ops"
    using tracked_ids_eq [of "[]" ops _ "fc_next_id cat" "fc_next_id cat" cx] assms(1) True by simp
  then show ?thesis using True assms(2) batch_tracked_distinct
    by (auto simp: BulkInsertTrackedFileIds_def tracked.insert_all_iff foldl_add_tracked list_all_iff)
next
  case False
  have "batch_tracked cx n ops = []" for n by (induction ops arbitrary: n) (simp_all add: False)
  then show ?thesis using False assms(2) by (auto simp: BulkInsertTrackedFileIds_def split: option.splits bool.splits)
qed

lemma Flush_iff:
  assumes "ops \<noteq> []"
  shows "FlushDataFileAddBatch cx cat ops = Inr c \<longleftrightarrow> (\<exists>v. batch_ok cx cat ops v \<and> c = batch_result cx cat ops v)"
proof (cases "new_files_ok cx cat ops")
  case False
  then have "\<nexists>c. BulkInsertDataFiles cx cat ops = Inr c" using BulkInsertDataFiles_iff by blast
  then show ?thesis using assms False by (auto simp: FlushDataFileAddBatch_def result_bind_Inr_iff batch_ok_def)
next
  case True
  then have f: "BulkInsertDataFiles cx cat ops = Inr (files_added cx cat ops)" and d: "distinct (map op_path ops)"
    using BulkInsertDataFiles_iff by (auto simp: new_files_ok_def)
  have tx: "fc_tx_files ((files_added cx cat ops)\<lparr>fc_column_stats := st, fc_partition_values := vs\<rparr>) = fc_tx_files cat" for st vs
    by (simp add: files_added_def)
  show ?thesis using assms True
    by (auto simp: FlushDataFileAddBatch_def Let_def f hash_files_added result_bind_Inr_iff BulkInsertDataFileColumnStats_iff
        BulkInsertDataFilePartitionValues_iff [OF d] BulkInsertTrackedFileIds_iff [OF d tx] batch_ok_def batch_result_def)
qed


lemma batch_result_sel [simp]:
  "fc_next_id (batch_result cx cat ops v) = fc_next_id cat + int (length ops)"
  "fc_column_stats (batch_result cx cat ops v) = fc_column_stats cat @ op_stats cx ops"
  "fc_partition_values (batch_result cx cat ops v) = fc_partition_values cat @ v"
  "fc_tx_files (batch_result cx cat ops v) = fc_tx_files cat @ batch_tracked cx (fc_next_id cat) ops"
  "fc_files (batch_result cx cat ops v) = fc_files cat @ numbered (fc_next_id cat) (map (new_file_row cx) ops)"
  "fc_deletion_map (batch_result cx cat ops v) = fc_deletion_map cat" "fc_row_ids (batch_result cx cat ops v) = fc_row_ids cat"
  by (simp_all add: batch_result_def files_added_def)

lemma new_files_ok_Cons:
  "new_files_ok cx cat (op # ops) \<longleftrightarrow> new_files_ok cx cat [op] \<and> new_files_ok cx (batch_result cx cat [op] v) ops"
proof -
  have "has_file (batch_result cx cat [op] v) (ri_oid (cx_rel cx)) p \<longleftrightarrow> has_file cat (ri_oid (cx_rel cx)) p \<or> p = op_path op" for p
    by (auto simp: has_file_def new_file_row_def)
  moreover have "op_path op \<notin> op_path ` set ops \<longleftrightarrow> (\<forall>o' \<in> set ops. op_path o' \<noteq> op_path op)" by (metis imageE image_eqI)
  ultimately show ?thesis by (auto simp: new_files_ok_def)
qed

lemma op_stats_Cons: "op_stats cx (op # ops) = op_stats cx [op] @ op_stats cx ops"
  by (simp add: op_stats_def)

lemma new_stats_ok_Cons:
  "new_stats_ok cx cat (op # ops) \<longleftrightarrow> new_stats_ok cx cat [op] \<and> new_stats_ok cx (batch_result cx cat [op] v) ops"
  unfolding new_stats_ok_def op_stats_Cons [of cx op ops] by (auto simp: image_Un)

lemma new_values_ok_append:
  "new_values_ok cx cat (v @ w) \<longleftrightarrow> new_values_ok cx cat v \<and> new_values_ok cx (batch_result cx cat ops v) w"
  by (auto simp: new_values_ok_def image_Un)

lemma batch_tracked_Cons:
  "set (batch_tracked cx n (op # ops)) \<inter> S = {} \<longleftrightarrow>
     set (batch_tracked cx n [op]) \<inter> S = {} \<and> set (batch_tracked cx (n + 1) ops) \<inter> (S \<union> set (batch_tracked cx n [op])) = {}"
  using batch_tracked_ids [of n cx "n + 1" ops] by auto

lemma batch_result_Cons:
  "batch_result cx cat (op # ops) (v @ w) = batch_result cx (batch_result cx cat [op] v) ops w"
  by (simp add: batch_result_def files_added_def op_stats_Cons [of cx op ops])

lemma batch_ok_values: "batch_ok cx cat ops v \<Longrightarrow> batch_values cx (fc_next_id cat) ops = Inr v"
  by (simp add: batch_ok_def)

lemma batch_ok_append:
  assumes v1: "batch_values cx (fc_next_id cat) [op] = Inr v1" and v2: "batch_values cx (fc_next_id cat + 1) ops = Inr v2"
  shows "batch_ok cx cat (op # ops) (v1 @ v2) \<longleftrightarrow> batch_ok cx cat [op] v1 \<and> batch_ok cx (batch_result cx cat [op] v1) ops v2"
proof -
  let ?n = "fc_next_id cat" and ?t = "set (fc_tx_files cat)"
  have t: "(set (batch_tracked cx ?n (op # ops)) \<inter> ?t = {}) = (set (batch_tracked cx ?n [op]) \<inter> ?t = {} \<and>
      set (batch_tracked cx (?n + 1) ops) \<inter> set (fc_tx_files (batch_result cx cat [op] v1)) = {})"
    unfolding batch_tracked_Cons [of cx ?n op ops ?t] batch_result_sel set_append ..
  have v: "batch_values cx ?n (op # ops) = Inr (v1 @ v2)" unfolding batch_values_Cons [of cx ?n op ops] using v1 v2 by blast
  have n: "fc_next_id (batch_result cx cat [op] v1) = ?n + 1" by simp
  show ?thesis
    unfolding batch_ok_def new_files_ok_Cons [of cx cat op ops v1] new_stats_ok_Cons [of cx cat op ops v1]
      new_values_ok_append [of cx cat v1 v2 "[op]"] t v v1 v2 n by blast
qed

lemma batch_ok_Cons:
  "batch_ok cx cat (op # ops) v \<longleftrightarrow>
    (\<exists>v1 v2. v = v1 @ v2 \<and> batch_ok cx cat [op] v1 \<and> batch_ok cx (batch_result cx cat [op] v1) ops v2)"
proof
  assume ok: "batch_ok cx cat (op # ops) v"
  then obtain v1 v2 where v: "batch_values cx (fc_next_id cat) [op] = Inr v1" "batch_values cx (fc_next_id cat + 1) ops = Inr v2" "v = v1 @ v2"
    using batch_ok_values [OF ok] batch_values_Cons [of cx "fc_next_id cat" op ops v] by blast
  then show "\<exists>v1 v2. v = v1 @ v2 \<and> batch_ok cx cat [op] v1 \<and> batch_ok cx (batch_result cx cat [op] v1) ops v2"
    using ok batch_ok_append [OF v(1,2)] by blast
next
  assume "\<exists>v1 v2. v = v1 @ v2 \<and> batch_ok cx cat [op] v1 \<and> batch_ok cx (batch_result cx cat [op] v1) ops v2"
  then obtain v1 v2 where v: "v = v1 @ v2" and ok: "batch_ok cx cat [op] v1" "batch_ok cx (batch_result cx cat [op] v1) ops v2" by blast
  have "batch_values cx (fc_next_id cat + 1) ops = Inr v2" using batch_ok_values [OF ok(2)] by simp
  then show "batch_ok cx cat (op # ops) v" using v ok batch_ok_append [OF batch_ok_values [OF ok(1)]] by blast
qed

lemma batch_Cons:
  "(\<exists>v. batch_ok cx cat (op # ops) v \<and> c = batch_result cx cat (op # ops) v) \<longleftrightarrow>
   (\<exists>v. batch_ok cx cat [op] v \<and> (\<exists>w. batch_ok cx (batch_result cx cat [op] v) ops w \<and> c = batch_result cx (batch_result cx cat [op] v) ops w))"
  unfolding batch_ok_Cons [of cx cat op ops] by (metis batch_result_Cons)

lemma Flush_Cons:
  "FlushDataFileAddBatch cx cat (op # ops) = Inr c \<longleftrightarrow>
    (\<exists>c1. FlushDataFileAddBatch cx cat [op] = Inr c1 \<and> FlushDataFileAddBatch cx c1 ops = Inr c)"
proof (cases "ops = []")
  case True
  then show ?thesis by (simp add: FlushDataFileAddBatch_def [of cx _ "[]"])
next
  case False
  have "FlushDataFileAddBatch cx cat (op # ops) = Inr c \<longleftrightarrow> (\<exists>v. batch_ok cx cat (op # ops) v \<and> c = batch_result cx cat (op # ops) v)"
    by (rule Flush_iff) simp
  also have "\<dots> \<longleftrightarrow> (\<exists>c1. FlushDataFileAddBatch cx cat [op] = Inr c1 \<and> FlushDataFileAddBatch cx c1 ops = Inr c)"
    unfolding batch_Cons using Flush_iff [of "[op]" cx cat] Flush_iff [OF False, of cx] by auto
  finally show ?thesis .
qed

text \<open>One operation at a time.\<close>

definition apply_op :: "catalog_ctx \<Rightarrow> files_catalog \<Rightarrow> TableMetadataOperation \<Rightarrow> files_catalog result" where
  "apply_op cx cat op =
     (if op_type op = DATA_FILE_ADD then FlushDataFileAddBatch cx cat [op] else ApplySingleOp (ri_oid (cx_rel cx)) cat op)"

lemma Flush_each:
  "list_all (\<lambda>op. op_type op = DATA_FILE_ADD) ops \<Longrightarrow>
    FlushDataFileAddBatch cx cat ops = Inr c \<longleftrightarrow> insert_all (apply_op cx) cat ops = Inr c"
proof (induction ops arbitrary: cat)
  case Nil
  then show ?case by (simp add: FlushDataFileAddBatch_def)
next
  case (Cons op ops)
  then show ?case using Flush_Cons [of cx cat op ops c] by (auto simp: result_bind_Inr_iff apply_op_def)
qed

lemma insert_all_append: "insert_all f s (xs @ ys) = result_bind (insert_all f s xs) (\<lambda>s. insert_all f s ys)"
proof (induction xs arbitrary: s)
  case (Cons x xs)
  then show ?case by (cases "f s x") simp_all
qed simp

lemma ApplyDataFileCatalogChanges_each:
  "ApplyDataFileCatalogChanges cx cat ops = Inr c \<longleftrightarrow> insert_all (apply_op cx) cat ops = Inr c"
proof (induction cx cat ops rule: ApplyDataFileCatalogChanges.induct)
  case (2 cx cat op ops)
  show ?case
  proof (cases "op_type op = DATA_FILE_ADD")
    case True
    let ?run = "takeWhile (\<lambda>o'. op_type o' = DATA_FILE_ADD) (op # ops)" and ?rest = "dropWhile (\<lambda>o'. op_type o' = DATA_FILE_ADD) (op # ops)"
    have run: "list_all (\<lambda>op. op_type op = DATA_FILE_ADD) ?run" by (auto simp: list_all_iff dest: set_takeWhileD)
    have ne: "?run \<noteq> []" using True by simp
    have coll: "CollectAdjacentOpsOfType (op # ops) DATA_FILE_ADD = (?run, ?rest)" by (simp add: CollectAdjacentOpsOfType_def)
    have step: "ApplyDataFileCatalogChanges cx cat (op # ops) =
        result_bind (FlushDataFileAddBatch cx cat ?run) (\<lambda>cat. ApplyDataFileCatalogChanges cx cat ?rest)"
      using True ne by (subst ApplyDataFileCatalogChanges.simps) (simp add: BatchableType_def coll ApplyDataFileBatch_def del: takeWhile.simps dropWhile.simps)
    have IH: "ApplyDataFileCatalogChanges cx c1 ?rest = Inr c \<longleftrightarrow> insert_all (apply_op cx) c1 ?rest = Inr c" for c1
      using 2(1) [of ?run ?rest c1] True coll by (simp add: BatchableType_def del: takeWhile.simps dropWhile.simps)
    have "insert_all (apply_op cx) cat (?run @ ?rest) = Inr c \<longleftrightarrow> ApplyDataFileCatalogChanges cx cat (op # ops) = Inr c"
      unfolding step insert_all_append result_bind_Inr_iff using IH Flush_each [OF run, of cx cat] by blast
    then show ?thesis by (simp only: takeWhile_dropWhile_id)
  next
    case False
    then show ?thesis using 2(2) by (subst ApplyDataFileCatalogChanges.simps) (auto simp: BatchableType_def apply_op_def [of cx cat op] result_bind_Inr_iff)
  qed
qed (simp add: ApplyDataFileCatalogChanges.simps)


section \<open>Integrity of the catalog\<close>

definition disjoint_ranges :: "row_id_row \<Rightarrow> row_id_row \<Rightarrow> bool" where
  "disjoint_ranges m n \<longleftrightarrow> rm_table m = rm_table n \<longrightarrow> rm_end m \<le> rm_start n \<or> rm_end n \<le> rm_start m"

definition files_ok :: "files_catalog \<Rightarrow> bool" where
  "files_ok cat \<longleftrightarrow> distinct (map fr_id (fc_files cat)) \<and> distinct (map file_key (fc_files cat)) \<and>
     list_all (\<lambda>r. fr_id r < fc_next_id cat \<and> 0 \<le> fr_file_size r) (fc_files cat)"

definition mappings_ok :: "files_catalog \<Rightarrow> bool" where
  "mappings_ok cat \<longleftrightarrow> distinct (fc_deletion_map cat) \<and>
     list_all (\<lambda>m. has_file cat (dm_table m) (dm_path m) \<and> has_file cat (dm_table m) (dm_deleted_from m)) (fc_deletion_map cat)"

definition stats_ok :: "files_catalog \<Rightarrow> bool" where
  "stats_ok cat \<longleftrightarrow> distinct (map stat_key (fc_column_stats cat)) \<and>
     list_all (\<lambda>s. has_file cat (cs_table s) (cs_path s)) (fc_column_stats cat)"

definition values_ok :: "spec_catalog \<Rightarrow> files_catalog \<Rightarrow> bool" where
  "values_ok specs cat \<longleftrightarrow> distinct (map value_key (fc_partition_values cat)) \<and>
     list_all (\<lambda>v. has_file_id cat (pv_id v) \<and> value_field_ok specs v) (fc_partition_values cat)"

definition row_ids_ok :: "files_catalog \<Rightarrow> bool" where
  "row_ids_ok cat \<longleftrightarrow> sorted_wrt disjoint_ranges (fc_row_ids cat) \<and>
     list_all (\<lambda>m. rm_start m < rm_end m \<and> has_file_id cat (rm_file_id m)) (fc_row_ids cat)"

definition catalog_ok :: "spec_catalog \<Rightarrow> files_catalog \<Rightarrow> bool" where
  "catalog_ok specs cat \<longleftrightarrow> files_ok cat \<and> mappings_ok cat \<and> stats_ok cat \<and> values_ok specs cat \<and> row_ids_ok cat"

text \<open>The files a state has decide what its other tables may refer to.\<close>

lemma has_file_mono: "has_file cat t p \<Longrightarrow> set (fc_files cat) \<subseteq> set (fc_files cat') \<Longrightarrow> has_file cat' t p"
  by (auto simp: has_file_key)

lemma has_file_id_mono: "has_file_id cat i \<Longrightarrow> set (fc_files cat) \<subseteq> set (fc_files cat') \<Longrightarrow> has_file_id cat' i"
  by (auto simp: has_file_id_def list_ex_iff)

lemma has_file_id_iff: "has_file_id cat i \<longleftrightarrow> i \<in> fr_id ` set (fc_files cat)"
  by (auto simp: has_file_id_def list_ex_iff)

lemma catalog_ok_deletion_map_filter: "catalog_ok specs cat \<Longrightarrow> catalog_ok specs (cat\<lparr>fc_deletion_map := filter Q (fc_deletion_map cat)\<rparr>)"
  by (auto simp: catalog_ok_def files_ok_def mappings_ok_def stats_ok_def values_ok_def row_ids_ok_def list_all_iff has_file_def has_file_id_def)

lemma has_file_delete:
  "has_file cat t p \<Longrightarrow> \<not> list_ex (\<lambda>r. fr_table r = t \<and> fr_path r = p) (filter P (fc_files cat)) \<Longrightarrow> has_file (delete_files P cat) t p"
  by (auto simp: has_file_def delete_files_def Let_def list_ex_iff)

lemma has_file_id_delete:
  "has_file_id cat i \<Longrightarrow> \<not> list_ex (\<lambda>r. fr_id r = i) (filter P (fc_files cat)) \<Longrightarrow> has_file_id (delete_files P cat) i"
  by (auto simp: has_file_id_def delete_files_def Let_def list_ex_iff)

lemma delete_files_sel [simp]:
  "fc_files (delete_files P cat) = filter (\<lambda>r. \<not> P r) (fc_files cat)" "fc_next_id (delete_files P cat) = fc_next_id cat"
  by (simp_all add: delete_files_def Let_def)

lemma delete_files_ok:
  assumes "catalog_ok specs cat"
  shows "catalog_ok specs (delete_files P cat)"
proof -
  have "files_ok (delete_files P cat)" using assms by (auto simp: catalog_ok_def files_ok_def list_all_iff distinct_map_filter)
  moreover have "mappings_ok (delete_files P cat)"
    using assms has_file_delete [of cat _ _ P]
    by (auto simp: catalog_ok_def mappings_ok_def list_all_iff delete_files_def [of P cat] Let_def has_file_def [of "_\<lparr>fc_row_ids := _\<rparr>"] list_ex_iff)
  moreover have "stats_ok (delete_files P cat)"
    using assms has_file_delete [of cat _ _ P] by (auto simp: catalog_ok_def stats_ok_def list_all_iff distinct_map_filter delete_files_def Let_def list_ex_iff)
  moreover have "values_ok specs (delete_files P cat)"
    using assms has_file_id_delete [of cat _ P] by (auto simp: catalog_ok_def values_ok_def list_all_iff distinct_map_filter delete_files_def Let_def list_ex_iff)
  moreover have "row_ids_ok (delete_files P cat)"
    using assms has_file_id_delete [of cat _ P] by (auto simp: catalog_ok_def row_ids_ok_def list_all_iff sorted_wrt_filter delete_files_def Let_def list_ex_iff)
  ultimately show ?thesis by (simp add: catalog_ok_def)
qed

lemma RemoveDataFileFromTable_ok: "catalog_ok specs cat \<Longrightarrow> catalog_ok specs (RemoveDataFileFromTable relationId cat path)"
  unfolding RemoveDataFileFromTable_def Let_def by (intro delete_files_ok catalog_ok_deletion_map_filter)

lemma map_files_ok:
  assumes ok: "catalog_ok specs cat" and g: "\<And>r. fr_id (g r) = fr_id r \<and> file_key (g r) = file_key r \<and> fr_file_size (g r) = fr_file_size r"
  shows "catalog_ok specs (cat\<lparr>fc_files := map g (fc_files cat)\<rparr>)"
proof -
  let ?c = "cat\<lparr>fc_files := map g (fc_files cat)\<rparr>"
  have "files_ok ?c" using ok g by (simp add: catalog_ok_def files_ok_def list_all_iff o_def)
  moreover have "has_file ?c t p = has_file cat t p" "has_file_id ?c i = has_file_id cat i" for t p i
    using g by (simp_all add: has_file_key has_file_id_iff image_image)
  ultimately show ?thesis using ok by (simp add: catalog_ok_def mappings_ok_def stats_ok_def values_ok_def row_ids_ok_def)
qed

lemma UpdateDeletedRowCount_ok: "catalog_ok specs cat \<Longrightarrow> catalog_ok specs (UpdateDeletedRowCount relationId cat path d)"
  unfolding UpdateDeletedRowCount_def by (erule map_files_ok) (simp add: file_key_def)

lemma UpdateDataFileFirstRowId_ok: "catalog_ok specs cat \<Longrightarrow> catalog_ok specs (UpdateDataFileFirstRowId relationId cat fileId rowId)"
  unfolding UpdateDataFileFirstRowId_def by (erule map_files_ok) (simp add: file_key_def)

lemma has_file_update [simp]:
  "has_file (cat\<lparr>fc_deletion_map := ms\<rparr>) t p = has_file cat t p" "has_file_id (cat\<lparr>fc_deletion_map := ms\<rparr>) i = has_file_id cat i"
  "has_file (cat\<lparr>fc_row_ids := rs\<rparr>) t p = has_file cat t p" "has_file_id (cat\<lparr>fc_row_ids := rs\<rparr>) i = has_file_id cat i"
  by (simp_all add: has_file_def has_file_id_def)

lemma AddDeletionFileMapping_ok:
  assumes ok: "catalog_ok specs cat" and c: "AddDeletionFileMapping relationId cat path from = Inr c"
  shows "catalog_ok specs c"
proof -
  obtain f where f: "from = Some f" "has_file cat relationId f" "has_file cat relationId path"
      "\<lparr>dm_table = relationId, dm_path = path, dm_deleted_from = f\<rparr> \<notin> set (fc_deletion_map cat)"
      "c = cat\<lparr>fc_deletion_map := fc_deletion_map cat @ [\<lparr>dm_table = relationId, dm_path = path, dm_deleted_from = f\<rparr>]\<rparr>"
    using c by (force simp: AddDeletionFileMapping_def list_ex_iff split: option.splits if_splits)
  then show ?thesis using ok by (simp add: catalog_ok_def files_ok_def mappings_ok_def stats_ok_def values_ok_def row_ids_ok_def)
qed

lemma InsertSingleRowMapping_ok:
  assumes "catalog_ok specs cat" "InsertSingleRowMapping relationId cat fileNumber startId endId n = Inr c"
  shows "catalog_ok specs c"
  using assms
  by (auto simp: InsertSingleRowMapping_def catalog_ok_def files_ok_def mappings_ok_def stats_ok_def values_ok_def row_ids_ok_def
      sorted_wrt_append disjoint_ranges_def list_all_iff list_ex_iff not_less split: if_splits)

lemma insert_all_preserves:
  "(\<And>s r s'. I s \<Longrightarrow> f s r = Inr s' \<Longrightarrow> I s') \<Longrightarrow> I s \<Longrightarrow> insert_all f s rs = Inr s' \<Longrightarrow> I s'"
  by (induction rs arbitrary: s) (auto simp: result_bind_Inr_iff)

lemma AddNewRowIdMapping_ok:
  assumes "catalog_ok specs cat" "AddNewRowIdMapping relationId cat path ranges = Inr c"
  shows "catalog_ok specs c"
proof -
  obtain i where "insert_all (\<lambda>cat range. InsertSingleRowMapping relationId cat i (rowStartId range) (wrap64 (rowStartId range + numRows range))
      (rowStartNum range)) cat ranges = Inr c"
    using assms(2) by (auto simp: AddNewRowIdMapping_def result_bind_Inr_iff)
  from insert_all_preserves [of "catalog_ok specs", OF InsertSingleRowMapping_ok assms(1) this] show ?thesis by simp
qed

lemma batch_result_ok:
  assumes ok: "catalog_ok (cx_specs cx) cat" and b: "batch_ok cx cat [op] v"
  shows "catalog_ok (cx_specs cx) (batch_result cx cat [op] v)"
proof -
  let ?c = "batch_result cx cat [op] v"
  have sub: "set (fc_files cat) \<subseteq> set (fc_files ?c)" by (simp add: subset_insertI)
  note mono = has_file_mono [OF _ sub] has_file_id_mono [OF _ sub]
  have new: "has_file ?c (ri_oid (cx_rel cx)) (op_path op)" "has_file_id ?c (fc_next_id cat)"
    by (simp_all add: has_file_def has_file_id_def new_file_row_def)
  have "files_ok ?c" using ok b
    by (auto simp: catalog_ok_def files_ok_def batch_ok_def new_files_ok_def list_all_iff has_file_key file_key_def new_file_row_def)
  moreover have "mappings_ok ?c" using ok mono(1) by (auto simp: catalog_ok_def mappings_ok_def list_all_iff)
  moreover have "stats_ok ?c" using ok b mono(1) new(1) op_stats_path [of _ cx "[op]"]
    by (auto simp: catalog_ok_def stats_ok_def batch_ok_def new_stats_ok_def list_all_iff)
  moreover have "values_ok (cx_specs cx) ?c"
  proof -
    have "pv_id r = fc_next_id cat" if "r \<in> set v" for r
      using b batch_values_ids [of cx "fc_next_id cat" "[op]" v r] that by (simp add: batch_ok_def)
    then show ?thesis using ok b mono(2) new(2) by (auto simp: catalog_ok_def values_ok_def batch_ok_def new_values_ok_def list_all_iff)
  qed
  moreover have "row_ids_ok ?c" using ok mono(2) by (auto simp: catalog_ok_def row_ids_ok_def list_all_iff)
  ultimately show ?thesis by (simp add: catalog_ok_def)
qed

lemma apply_op_ok:
  assumes "catalog_ok (cx_specs cx) cat" "apply_op cx cat op = Inr c"
  shows "catalog_ok (cx_specs cx) c"
proof (cases "op_type op = DATA_FILE_ADD")
  case True
  then show ?thesis using assms Flush_iff [of "[op]" cx cat c] batch_result_ok by (auto simp: apply_op_def)
next
  case False
  then show ?thesis using assms
    by (auto simp: apply_op_def ApplySingleOp_def RemoveAllDataFilesFromCatalog_def split: TableMetadataOperationType.splits
        intro: AddDeletionFileMapping_ok AddNewRowIdMapping_ok RemoveDataFileFromTable_ok delete_files_ok UpdateDeletedRowCount_ok)
qed


section \<open>Removing a file\<close>

text \<open>Every deletion file of the table has a mapping, and no file both deletes and is deleted from.\<close>

definition deletes_mapped :: "nat \<Rightarrow> files_catalog \<Rightarrow> bool" where
  "deletes_mapped relationId cat =
     (list_all (\<lambda>r. fr_table r = relationId \<and> fr_content r = CONTENT_POSITION_DELETES \<longrightarrow>
         list_ex (\<lambda>m. dm_table m = relationId \<and> dm_path m = fr_path r) (fc_deletion_map cat)) (fc_files cat) \<and>
      list_all (\<lambda>m. list_all (\<lambda>n. dm_table m = relationId \<and> dm_table n = relationId \<longrightarrow> dm_path m \<noteq> dm_deleted_from n)
         (fc_deletion_map cat)) (fc_deletion_map cat))"

text \<open>The deletion files that only the rows of \<open>path\<close> need.\<close>

definition only_deletes_from :: "nat \<Rightarrow> files_catalog \<Rightarrow> string \<Rightarrow> string \<Rightarrow> bool" where
  "only_deletes_from relationId cat path p \<longleftrightarrow>
     (\<lparr>dm_table = relationId, dm_path = p, dm_deleted_from = path\<rparr> \<in> set (fc_deletion_map cat) \<and>
      list_all (\<lambda>m. dm_table m = relationId \<and> dm_path m = p \<longrightarrow> dm_deleted_from m = path) (fc_deletion_map cat))"

lemma only_deletes_from_unneeded:
  "only_deletes_from relationId cat path p \<longleftrightarrow>
     p \<in> set (map dm_path (filter (\<lambda>m. dm_table m = relationId \<and> dm_deleted_from m = path) (fc_deletion_map cat))) \<and>
     \<not> list_ex (\<lambda>m. dm_table m = relationId \<and> dm_deleted_from m \<noteq> path \<and> dm_path m = p) (fc_deletion_map cat)"
proof -
  have "\<lparr>dm_table = relationId, dm_path = p, dm_deleted_from = path\<rparr> \<in> set (fc_deletion_map cat) \<longleftrightarrow>
      p \<in> set (map dm_path (filter (\<lambda>m. dm_table m = relationId \<and> dm_deleted_from m = path) (fc_deletion_map cat)))"
  proof
    assume "p \<in> set (map dm_path (filter (\<lambda>m. dm_table m = relationId \<and> dm_deleted_from m = path) (fc_deletion_map cat)))"
    then obtain m where m: "m \<in> set (fc_deletion_map cat)" "dm_table m = relationId" "dm_deleted_from m = path" "dm_path m = p" by auto
    have "m = \<lparr>dm_table = relationId, dm_path = p, dm_deleted_from = path\<rparr>" using m(2-4) by simp
    then show "\<lparr>dm_table = relationId, dm_path = p, dm_deleted_from = path\<rparr> \<in> set (fc_deletion_map cat)" using m(1) by simp
  qed (auto intro!: image_eqI)
  then show ?thesis by (auto simp: only_deletes_from_def list_all_iff list_ex_iff)
qed

lemma Remove_eq:
  "RemoveDataFileFromTable relationId cat path =
    delete_files (\<lambda>r. fr_table r = relationId \<and> (fr_path r = path \<or> only_deletes_from relationId cat path (fr_path r)))
      (cat\<lparr>fc_deletion_map := filter (\<lambda>m. \<not> (dm_table m = relationId \<and> dm_deleted_from m = path)) (fc_deletion_map cat)\<rparr>)"
  by (simp add: RemoveDataFileFromTable_def only_deletes_from_unneeded Let_def)

lemma Remove_mappings:
  "m \<in> set (fc_deletion_map (RemoveDataFileFromTable relationId cat path)) \<longleftrightarrow>
    m \<in> set (fc_deletion_map cat) \<and> \<not> (dm_table m = relationId \<and> dm_deleted_from m = path) \<and>
    \<not> (\<exists>r \<in> set (fc_files cat). fr_table r = relationId \<and> (fr_path r = path \<or> only_deletes_from relationId cat path (fr_path r)) \<and>
        dm_table m = relationId \<and> (fr_path r = dm_path m \<or> fr_path r = dm_deleted_from m))"
  by (auto simp: Remove_eq delete_files_def Let_def list_ex_iff)

lemma deletes_mapped_Remove:
  assumes ok: "deletes_mapped relationId cat"
  shows "deletes_mapped relationId (RemoveDataFileFromTable relationId cat path)"
proof -
  let ?cat = "RemoveDataFileFromTable relationId cat path"
  have disj: "dm_path m \<noteq> dm_deleted_from n"
    if "m \<in> set (fc_deletion_map cat)" "n \<in> set (fc_deletion_map cat)" "dm_table m = relationId" "dm_table n = relationId" for m n
    using ok that by (auto simp: deletes_mapped_def list_all_iff)
  have "\<exists>m \<in> set (fc_deletion_map ?cat). dm_table m = relationId \<and> dm_path m = fr_path r"
    if r: "r \<in> set (fc_files ?cat)" "fr_table r = relationId" "fr_content r = CONTENT_POSITION_DELETES" for r
  proof -
    have in_cat: "r \<in> set (fc_files cat)" and keep: "fr_path r \<noteq> path" "\<not> only_deletes_from relationId cat path (fr_path r)"
      using r by (auto simp: Remove_eq)
    obtain m where m: "m \<in> set (fc_deletion_map cat)" "dm_table m = relationId" "dm_path m = fr_path r"
      using ok in_cat r by (auto simp: deletes_mapped_def list_all_iff list_ex_iff)
    obtain n where n: "n \<in> set (fc_deletion_map cat)" "dm_table n = relationId" "dm_path n = fr_path r" "dm_deleted_from n \<noteq> path"
    proof (cases "dm_deleted_from m = path")
      case True
      then have "\<lparr>dm_table = relationId, dm_path = fr_path r, dm_deleted_from = path\<rparr> = m" using m by (cases m) simp
      then show ?thesis using keep(2) m(1) that by (auto simp: only_deletes_from_def list_all_iff)
    qed (use m that in blast)
    have "\<not> only_deletes_from relationId cat path (dm_deleted_from n)"
      using disj [of "\<lparr>dm_table = relationId, dm_path = dm_deleted_from n, dm_deleted_from = path\<rparr>", OF _ n(1) _ n(2)]
      by (auto simp: only_deletes_from_def)
    then have "n \<in> set (fc_deletion_map ?cat)" using n keep by (auto simp: Remove_mappings)
    then show ?thesis using n by blast
  qed
  moreover have "set (fc_deletion_map ?cat) \<subseteq> set (fc_deletion_map cat)" using Remove_mappings by blast
  ultimately show ?thesis using disj unfolding deletes_mapped_def list_all_iff list_ex_iff by blast
qed

lemma has_file_Remove:
  "has_file (RemoveDataFileFromTable relationId cat path) table p \<longleftrightarrow>
    has_file cat table p \<and> \<not> (table = relationId \<and> (p = path \<or> only_deletes_from relationId cat path p))"
  by (auto simp: Remove_eq has_file_def list_ex_iff)


section \<open>Properties\<close>

text \<open>C9: applying the operations of a transaction in batches changes the catalog exactly as applying them one after another does,
  each added file being inserted alone, and fails exactly when that fails.\<close>

theorem ApplyDataFileCatalogChanges_op_by_op:
  "ApplyDataFileCatalogChanges cx cat ops = Inr c \<longleftrightarrow> insert_all (apply_op cx) cat ops = Inr c"
  by (rule ApplyDataFileCatalogChanges_each)


definition sample_ctx :: catalog_ctx where
  "sample_ctx = \<lparr>cx_env = sample_env, cx_specs = sample_specs, cx_rel = sample_relation, cx_now = 5, cx_hook = Some True, cx_leaf = (\<lambda>_. None)\<rparr>"

definition empty_catalog :: files_catalog where
  "empty_catalog = \<lparr>fc_files = [], fc_next_id = 1, fc_deletion_map = [], fc_column_stats = [], fc_partition_values = [], fc_row_ids = [], fc_tx_files = []\<rparr>"

definition sample_ops :: "TableMetadataOperation list" where
  "sample_ops =
     [zero_operation\<lparr>op_path := ''a''\<rparr>, zero_operation\<lparr>op_path := ''b''\<rparr>,
      zero_operation\<lparr>op_type := DATA_FILE_ADD_ROW_ID_MAPPING, op_path := ''a'', rowIdRanges := [\<lparr>rowStartId = 1, rowStartNum = 0, numRows = 7\<rparr>]\<rparr>,
      zero_operation\<lparr>op_path := ''d'', op_content := CONTENT_POSITION_DELETES\<rparr>,
      zero_operation\<lparr>op_type := DATA_FILE_ADD_DELETE_MAPPING, op_path := ''d'', deletedFrom := Some ''a''\<rparr>,
      zero_operation\<lparr>op_type := DATA_FILE_ADD_DELETE_MAPPING, op_path := ''d'', deletedFrom := Some ''b''\<rparr>]"

lemma result_bind_Inr_eval: "m = Inr x \<Longrightarrow> result_bind m f = f x"
  by simp

lemma sample_changes:
  "\<exists>c. ApplyDataFileCatalogChanges sample_ctx empty_catalog sample_ops = Inr c \<and> map rm_end (fc_row_ids c) = [8]"
  by (simp add: sample_ctx_def empty_catalog_def sample_ops_def zero_operation_def empty_stats_def sample_relation_def sample_specs_def
      ApplyDataFileCatalogChanges.simps BatchableType_def ApplyDataFileBatch_def CollectAdjacentOpsOfType_def FlushDataFileAddBatch_def
      BulkInsertDataFiles_def insert_file_row_def new_file_row_def BulkInsertDataFileColumnStats_def BulkInsertDataFilePartitionValues_def
      AddOpHasPartitionValues_def BulkInsertTrackedFileIds_def tracked_ids_def List.map_filter_def path_to_file_id_def insert_tracked_def
      ApplySingleOp_def AddNewRowIdMapping_def GetFileIdForPath_def InsertSingleRowMapping_def has_file_id_def AddDeletionFileMapping_def
      has_file_def is_i64_def int_limits)


text \<open>C11: removing a data file removes from its table that file and the deletion files that no other data file needs, and nothing else;
  when every deletion file of the table had a data file before, every one that stays still has one, so none is left behind.\<close>

theorem RemoveDataFileFromTable_no_orphans:
  assumes "deletes_mapped relationId cat"
  shows "deletes_mapped relationId (RemoveDataFileFromTable relationId cat path) \<and>
    (has_file (RemoveDataFileFromTable relationId cat path) table p \<longleftrightarrow>
      has_file cat table p \<and> \<not> (table = relationId \<and> (p = path \<or> only_deletes_from relationId cat path p)))"
  using deletes_mapped_Remove [OF assms] has_file_Remove by blast

definition sample_catalog :: files_catalog where
  "sample_catalog = empty_catalog\<lparr>
     fc_files := map (\<lambda>(i, p, c). \<lparr>fr_id = i, fr_table = 7, fr_path = p, fr_row_count = 4, fr_updated_time = 0, fr_file_size = 10, fr_content = c,
       fr_deleted_row_count = 1, fr_first_row_id = None\<rparr>) [(1, ''a'', CONTENT_DATA), (2, ''b'', CONTENT_DATA), (3, ''d'', CONTENT_POSITION_DELETES), (4, ''e'', CONTENT_POSITION_DELETES)],
     fc_deletion_map := map (\<lambda>(p, f). \<lparr>dm_table = 7, dm_path = p, dm_deleted_from = f\<rparr>) [(''d'', ''a''), (''d'', ''b''), (''e'', ''a'')]\<rparr>"

theorem RemoveDataFileFromTable_no_orphans_witness:
  "deletes_mapped 7 (RemoveDataFileFromTable 7 sample_catalog ''a'') \<and>
   has_file (RemoveDataFileFromTable 7 sample_catalog ''a'') 7 ''d'' \<and> \<not> has_file (RemoveDataFileFromTable 7 sample_catalog ''a'') 7 ''e''"
proof -
  have ok: "deletes_mapped 7 sample_catalog" by (simp add: deletes_mapped_def sample_catalog_def empty_catalog_def)
  have "has_file sample_catalog 7 ''d''" "only_deletes_from 7 sample_catalog ''a'' ''e''" "\<not> only_deletes_from 7 sample_catalog ''a'' ''d''"
    by (simp_all add: has_file_def only_deletes_from_def sample_catalog_def empty_catalog_def)
  then show ?thesis
    using RemoveDataFileFromTable_no_orphans [OF ok, of "''a''" 7 "''d''"] RemoveDataFileFromTable_no_orphans [OF ok, of "''a''" 7 "''e''"] by simp
qed

end
