(* ===== verification/Duck_Types.thy ===== *)
theory Duck_Types
  imports Partition_Transform
begin

text \<open>
  \<^verbatim>\<open>pg_lake_engine/src/pgduck/type.c\<close>: the types of DuckDB, their names and aliases, and the PostgreSQL types they stand for.

  A PostgreSQL type is the tree that the system catalog describes: arrays, composite types, domains and the map types of \<^verbatim>\<open>pg_map\<close> over
  base types.  A position in a C string is a number; reading past the terminating zero is \<open>Trap\<close>.
\<close>

section \<open>Types\<close>

abbreviation CHAROID :: pg_oid where "CHAROID \<equiv> OTHEROID 18"
abbreviation NAMEOID :: pg_oid where "NAMEOID \<equiv> OTHEROID 19"
abbreviation OIDOID :: pg_oid where "OIDOID \<equiv> OTHEROID 26"
abbreviation JSONOID :: pg_oid where "JSONOID \<equiv> OTHEROID 114"
abbreviation UNKNOWNOID :: pg_oid where "UNKNOWNOID \<equiv> OTHEROID 705"
abbreviation INTERVALOID :: pg_oid where "INTERVALOID \<equiv> OTHEROID 1186"
abbreviation BITOID :: pg_oid where "BITOID \<equiv> OTHEROID 1560"
abbreviation RECORDOID :: pg_oid where "RECORDOID \<equiv> OTHEROID 2249"
abbreviation ANYARRAYOID :: pg_oid where "ANYARRAYOID \<equiv> OTHEROID 2277"
abbreviation JSONBOID :: pg_oid where "JSONBOID \<equiv> OTHEROID 3802"

datatype pg_type =
    Base (base_oid: pg_oid)
  | Array pg_type
  | Composite "pg_attribute list"
  | MapType pg_type int pg_type int
  | Domain pg_type int
and pg_attribute =
    Attribute (attname: string) (atttype: pg_type) (atttypmod: int) (attnotnull: bool) (attisdropped: bool) (attdefault: "string option")

definition get_element_type :: "pg_type \<Rightarrow> pg_type option" where
  "get_element_type t = (case t of Array e \<Rightarrow> Some e | _ \<Rightarrow> None)"

definition IsMapTypeOid :: "pg_type \<Rightarrow> bool" where
  "IsMapTypeOid t = (case t of MapType _ _ _ _ \<Rightarrow> True | _ \<Rightarrow> False)"

definition is_composite :: "pg_type \<Rightarrow> bool" where
  "is_composite t = (case t of Composite _ \<Rightarrow> True | _ \<Rightarrow> False)"

text \<open>A map type is itself a domain over an array of pairs, which \<^verbatim>\<open>getBaseType\<close> unwraps.\<close>

definition map_pairs :: "pg_type \<Rightarrow> int \<Rightarrow> pg_type \<Rightarrow> int \<Rightarrow> pg_type" where
  "map_pairs k km v vm = Array (Composite [Attribute ''key'' k km False False None, Attribute ''val'' v vm False False None])"

fun getBaseType :: "pg_type \<Rightarrow> pg_type" where
  "getBaseType (Domain t m) = getBaseType t"
| "getBaseType (MapType k km v vm) = map_pairs k km v vm"
| "getBaseType t = t"

definition ResolveDomainBaseType_tree :: "pg_type \<Rightarrow> pg_type" where
  "ResolveDomainBaseType_tree t = (case t of Domain _ _ \<Rightarrow> getBaseType t | _ \<Rightarrow> t)"


section \<open>DuckDB types\<close>

datatype DuckDBType =
    DUCKDB_TYPE_INVALID | DUCKDB_TYPE_BOOLEAN | DUCKDB_TYPE_TINYINT | DUCKDB_TYPE_SMALLINT | DUCKDB_TYPE_INTEGER
  | DUCKDB_TYPE_BIGINT | DUCKDB_TYPE_UTINYINT | DUCKDB_TYPE_USMALLINT | DUCKDB_TYPE_UINTEGER | DUCKDB_TYPE_UBIGINT
  | DUCKDB_TYPE_FLOAT | DUCKDB_TYPE_DOUBLE | DUCKDB_TYPE_TIMESTAMP | DUCKDB_TYPE_DATE | DUCKDB_TYPE_TIME
  | DUCKDB_TYPE_INTERVAL | DUCKDB_TYPE_HUGEINT | DUCKDB_TYPE_VARCHAR | DUCKDB_TYPE_BLOB | DUCKDB_TYPE_DECIMAL
  | DUCKDB_TYPE_TIMESTAMP_S | DUCKDB_TYPE_TIMESTAMP_MS | DUCKDB_TYPE_TIMESTAMP_NS | DUCKDB_TYPE_ENUM | DUCKDB_TYPE_LIST
  | DUCKDB_TYPE_STRUCT | DUCKDB_TYPE_MAP | DUCKDB_TYPE_UUID | DUCKDB_TYPE_UNION | DUCKDB_TYPE_BIT | DUCKDB_TYPE_TIME_TZ
  | DUCKDB_TYPE_TIMESTAMP_TZ | DUCKDB_TYPE_JSON | DUCKDB_TYPE_GEOMETRY

record DuckDBTypeMap =
  duckDBType :: DuckDBType
  duckDBTypeName :: string
  postgresTypeId :: "pg_oid option"
  postgresArrayTypeId :: "pg_type option"
  duckDBTypeAliases :: "string option"

definition type_entry :: "DuckDBType \<Rightarrow> string \<Rightarrow> pg_oid \<Rightarrow> string option \<Rightarrow> DuckDBTypeMap" where
  "type_entry t name oid aliases =
     \<lparr>duckDBType = t, duckDBTypeName = name, postgresTypeId = Some oid,
      postgresArrayTypeId = Some (if oid = ANYARRAYOID then Base ANYARRAYOID else Array (Base oid)), duckDBTypeAliases = aliases\<rparr>"

definition TypeMap :: "DuckDBTypeMap list" where
  "TypeMap =
     [type_entry DUCKDB_TYPE_INVALID ''invalid'' TEXTOID None,
      type_entry DUCKDB_TYPE_BOOLEAN ''BOOLEAN'' BOOLOID (Some ''BOOL#LOGICAL''),
      type_entry DUCKDB_TYPE_TINYINT ''TINYINT'' INT2OID (Some ''INT1''),
      type_entry DUCKDB_TYPE_SMALLINT ''SMALLINT'' INT2OID (Some ''INT2#SHORT''),
      type_entry DUCKDB_TYPE_INTEGER ''INTEGER'' INT4OID (Some ''INT4#INT#SIGNED''),
      type_entry DUCKDB_TYPE_BIGINT ''BIGINT'' INT8OID (Some ''INT8#LONG''),
      type_entry DUCKDB_TYPE_UTINYINT ''UTINYINT'' INT2OID None,
      type_entry DUCKDB_TYPE_USMALLINT ''USMALLINT'' INT4OID None,
      type_entry DUCKDB_TYPE_UINTEGER ''UINTEGER'' INT8OID None,
      type_entry DUCKDB_TYPE_UBIGINT ''UBIGINT'' INT8OID None,
      type_entry DUCKDB_TYPE_FLOAT ''REAL'' FLOAT4OID (Some ''FLOAT#FLOAT4''),
      type_entry DUCKDB_TYPE_DOUBLE ''DOUBLE'' FLOAT8OID (Some ''FLOAT8''),
      type_entry DUCKDB_TYPE_TIMESTAMP ''TIMESTAMP'' TIMESTAMPOID (Some ''DATETIME#TIMESTAMP WITHOUT TIME ZONE''),
      type_entry DUCKDB_TYPE_DATE ''DATE'' DATEOID None,
      type_entry DUCKDB_TYPE_TIME ''TIME'' TIMEOID (Some ''TIME WITHOUT TIME ZONE''),
      type_entry DUCKDB_TYPE_INTERVAL ''INTERVAL'' INTERVALOID None,
      type_entry DUCKDB_TYPE_HUGEINT ''HUGEINT'' TEXTOID None,
      type_entry DUCKDB_TYPE_VARCHAR ''VARCHAR'' TEXTOID (Some ''CHAR#BPCHAR#TEXT#STRING''),
      type_entry DUCKDB_TYPE_BLOB ''BLOB'' BYTEAOID (Some ''BYTEA#BINARY#VARBINARY''),
      type_entry DUCKDB_TYPE_DECIMAL ''DECIMAL'' NUMERICOID (Some ''NUMERIC''),
      type_entry DUCKDB_TYPE_TIMESTAMP_S ''TIMESTAMP_S'' TIMESTAMPOID None,
      type_entry DUCKDB_TYPE_TIMESTAMP_MS ''TIMESTAMP_MS'' TIMESTAMPOID None,
      type_entry DUCKDB_TYPE_TIMESTAMP_NS ''TIMESTAMP_NS'' TIMESTAMPOID None,
      type_entry DUCKDB_TYPE_ENUM ''ENUM'' TEXTOID None,
      type_entry DUCKDB_TYPE_LIST ''LIST'' ANYARRAYOID None,
      type_entry DUCKDB_TYPE_STRUCT ''STRUCT'' RECORDOID None,
      type_entry DUCKDB_TYPE_MAP ''MAP'' RECORDOID None,
      type_entry DUCKDB_TYPE_UUID ''UUID'' UUIDOID None,
      type_entry DUCKDB_TYPE_UNION ''UNION'' TEXTOID None,
      type_entry DUCKDB_TYPE_BIT ''BIT'' BITOID (Some ''BITSTRING''),
      type_entry DUCKDB_TYPE_TIME_TZ ''TIMETZ'' TIMETZOID (Some ''TIME WITH TIME ZONE''),
      type_entry DUCKDB_TYPE_TIMESTAMP_TZ ''TIMESTAMP WITH TIME ZONE'' TIMESTAMPTZOID (Some ''TIMESTAMPTZ''),
      type_entry DUCKDB_TYPE_JSON ''JSON'' JSONBOID None,
      \<lparr>duckDBType = DUCKDB_TYPE_GEOMETRY, duckDBTypeName = ''GEOMETRY'', postgresTypeId = None, postgresArrayTypeId = None,
       duckDBTypeAliases = None\<rparr>]"

text \<open>The value of an enumerator, which indexes the table.\<close>

primrec DuckDBType_index :: "DuckDBType \<Rightarrow> nat" where
  "DuckDBType_index DUCKDB_TYPE_INVALID = 0"
| "DuckDBType_index DUCKDB_TYPE_BOOLEAN = 1"
| "DuckDBType_index DUCKDB_TYPE_TINYINT = 2"
| "DuckDBType_index DUCKDB_TYPE_SMALLINT = 3"
| "DuckDBType_index DUCKDB_TYPE_INTEGER = 4"
| "DuckDBType_index DUCKDB_TYPE_BIGINT = 5"
| "DuckDBType_index DUCKDB_TYPE_UTINYINT = 6"
| "DuckDBType_index DUCKDB_TYPE_USMALLINT = 7"
| "DuckDBType_index DUCKDB_TYPE_UINTEGER = 8"
| "DuckDBType_index DUCKDB_TYPE_UBIGINT = 9"
| "DuckDBType_index DUCKDB_TYPE_FLOAT = 10"
| "DuckDBType_index DUCKDB_TYPE_DOUBLE = 11"
| "DuckDBType_index DUCKDB_TYPE_TIMESTAMP = 12"
| "DuckDBType_index DUCKDB_TYPE_DATE = 13"
| "DuckDBType_index DUCKDB_TYPE_TIME = 14"
| "DuckDBType_index DUCKDB_TYPE_INTERVAL = 15"
| "DuckDBType_index DUCKDB_TYPE_HUGEINT = 16"
| "DuckDBType_index DUCKDB_TYPE_VARCHAR = 17"
| "DuckDBType_index DUCKDB_TYPE_BLOB = 18"
| "DuckDBType_index DUCKDB_TYPE_DECIMAL = 19"
| "DuckDBType_index DUCKDB_TYPE_TIMESTAMP_S = 20"
| "DuckDBType_index DUCKDB_TYPE_TIMESTAMP_MS = 21"
| "DuckDBType_index DUCKDB_TYPE_TIMESTAMP_NS = 22"
| "DuckDBType_index DUCKDB_TYPE_ENUM = 23"
| "DuckDBType_index DUCKDB_TYPE_LIST = 24"
| "DuckDBType_index DUCKDB_TYPE_STRUCT = 25"
| "DuckDBType_index DUCKDB_TYPE_MAP = 26"
| "DuckDBType_index DUCKDB_TYPE_UUID = 27"
| "DuckDBType_index DUCKDB_TYPE_UNION = 28"
| "DuckDBType_index DUCKDB_TYPE_BIT = 29"
| "DuckDBType_index DUCKDB_TYPE_TIME_TZ = 30"
| "DuckDBType_index DUCKDB_TYPE_TIMESTAMP_TZ = 31"
| "DuckDBType_index DUCKDB_TYPE_JSON = 32"
| "DuckDBType_index DUCKDB_TYPE_GEOMETRY = 33"

definition GetDuckDBTypeName :: "DuckDBType \<Rightarrow> string" where
  "GetDuckDBTypeName duckType = duckDBTypeName (TypeMap ! DuckDBType_index duckType)"


section \<open>Finding a type by its name\<close>

definition c_isalnum :: "char \<Rightarrow> bool" where
  "c_isalnum c \<longleftrightarrow> c_isdigit c \<or> (65 \<le> (of_char c :: nat) \<and> (of_char c :: nat) \<le> 90) \<or> (97 \<le> (of_char c :: nat) \<and> (of_char c :: nat) \<le> 122)"

definition strcasecmp_eq :: "string \<Rightarrow> string \<Rightarrow> bool" where
  "strcasecmp_eq s t \<longleftrightarrow> map pg_tolower s = map pg_tolower t"

text \<open>The offset of the first occurrence of \<open>needle\<close>.\<close>

fun strcasestr :: "string \<Rightarrow> string \<Rightarrow> nat option" where
  "strcasestr [] needle = (if needle = [] then Some 0 else None)"
| "strcasestr (c # s) needle =
     (if length needle \<le> length (c # s) \<and> strcasecmp_eq (take (length needle) (c # s)) needle then Some 0
      else map_option Suc (strcasestr s needle))"

function find_alias :: "string \<Rightarrow> string \<Rightarrow> nat \<Rightarrow> bool result" where
  "find_alias aliases checkType foundTypeLocation =
     (if length aliases < foundTypeLocation then Inl Trap
      else case strcasestr (drop foundTypeLocation aliases) checkType of
        None \<Rightarrow> Inr False
      | Some k \<Rightarrow>
          let pos = foundTypeLocation + k;
              next_pos = pos + length checkType
          in if next_pos < length aliases \<and> aliases ! next_pos \<noteq> CHR ''#'' then find_alias aliases checkType (next_pos + 1)
             else if pos = 0 \<or> aliases ! (pos - 1) = CHR ''#'' then Inr True
             else find_alias aliases checkType (next_pos + 1))"
  by pat_completeness auto
termination
  by (relation "measure (\<lambda>(aliases, checkType, p). length aliases + 1 - p)") auto

declare find_alias.simps [simp del]

text \<open>The scan stops at the first character that is neither a space nor alphanumeric, and from there goes back over spaces.\<close>

fun back_up :: "string \<Rightarrow> nat \<Rightarrow> nat" where
  "back_up s 0 = 0"
| "back_up s (Suc n) = (if Suc n < length s \<and> c_isspace (s ! Suc n) then back_up s n else Suc n)"

definition TYPE_NAME_BUFFER_SIZE :: nat where "TYPE_NAME_BUFFER_SIZE = 100"

definition base_type_length :: "string \<Rightarrow> nat" where
  "base_type_length inputType = back_up inputType (length (takeWhile (\<lambda>c. c_isspace c \<or> c_isalnum c) inputType))"

definition IsMatchingTypeNameOrAlias :: "string \<Rightarrow> DuckDBTypeMap \<Rightarrow> bool result" where
  "IsMatchingTypeNameOrAlias inputType typeMap =
     (let typeLen = base_type_length inputType
      in if TYPE_NAME_BUFFER_SIZE \<le> typeLen then Inr False
         else
           let checkType = take typeLen inputType
           in if strcasecmp_eq checkType (duckDBTypeName typeMap) then Inr True
              else case duckDBTypeAliases typeMap of
                None \<Rightarrow> Inr False
              | Some aliases \<Rightarrow> find_alias aliases checkType 0)"

fun find_type_entry :: "DuckDBTypeMap list \<Rightarrow> string \<Rightarrow> DuckDBTypeMap option result" where
  "find_type_entry [] name = Inr None"
| "find_type_entry (e # es) name =
     result_bind (IsMatchingTypeNameOrAlias name e) (\<lambda>b. if b then Inr (Some e) else find_type_entry es name)"

definition GetDuckDBTypeByName :: "string \<Rightarrow> DuckDBType result" where
  "GetDuckDBTypeByName name =
     result_bind (find_type_entry (tl TypeMap) name) (\<lambda>e.
       Inr (case e of None \<Rightarrow> DUCKDB_TYPE_INVALID | Some e \<Rightarrow> duckDBType e))"


section \<open>Type modifiers\<close>

text \<open>The conversion \<^verbatim>\<open>%d\<close> of \<^verbatim>\<open>sscanf\<close>: spaces, a sign and digits.\<close>

definition scan_int :: "string \<Rightarrow> (int \<times> string) option" where
  "scan_int s =
     (let s = SkipWhitespace s;
          neg = (case s of c # _ \<Rightarrow> c = CHR ''-'' | [] \<Rightarrow> False);
          s = (case s of c # r \<Rightarrow> if c = CHR ''-'' \<or> c = CHR ''+'' then r else s | [] \<Rightarrow> s);
          digits = takeWhile isdigit s
      in if digits = [] then None
         else Some ((if neg then - int (dec_value digits) else int (dec_value digits)), drop (length digits) s))"

definition scan_char :: "char \<Rightarrow> string \<Rightarrow> string option" where
  "scan_char c s = (case s of d # r \<Rightarrow> if d = c then Some r else None | [] \<Rightarrow> None)"

text \<open>\<^verbatim>\<open>sscanf(s, "(%d,%d)", ..) == 2\<close>\<close>

definition scan_pair :: "string \<Rightarrow> (int \<times> int) option" where
  "scan_pair s =
     Option.bind (scan_char CHR ''('' s) (\<lambda>s.
     Option.bind (scan_int s) (\<lambda>(precision, s).
     Option.bind (scan_char CHR '','' s) (\<lambda>s.
     map_option (\<lambda>(scale, s). (precision, scale)) (scan_int s))))"

definition ParseDecimalTypeModFromTypeName :: "string \<Rightarrow> int result" where
  "ParseDecimalTypeModFromTypeName tname =
     (let typeModStr = dropWhile (\<lambda>c. c \<noteq> CHR ''('') tname
      in if typeModStr = [] then Inr (- 1)
         else case scan_pair typeModStr of
           None \<Rightarrow> Inl (InternalError ''could not parse decimal type modifier'')
         | Some (precision, scale) \<Rightarrow> Inr (make_numeric_typmod precision scale))"

text \<open>The type, or none for \<^verbatim>\<open>InvalidOid\<close>, with its modifier.\<close>

definition GetPGTypeForDuckDBTypeNameBuiltin :: "string \<Rightarrow> bool \<Rightarrow> (pg_type option \<times> int) result" where
  "GetPGTypeForDuckDBTypeNameBuiltin name isArray =
     result_bind (find_type_entry (tl TypeMap) name) (\<lambda>e.
       case e of
         None \<Rightarrow> Inr (None, - 1)
       | Some e \<Rightarrow>
           if duckDBType e = DUCKDB_TYPE_GEOMETRY
           then Inr (Some (if isArray then Array (Base GEOMETRYOID) else Base GEOMETRYOID), - 1)
           else result_bind (if duckDBType e = DUCKDB_TYPE_DECIMAL then ParseDecimalTypeModFromTypeName name else Inr (- 1)) (\<lambda>typeMod.
             Inr (if isArray then postgresArrayTypeId e else map_option Base (postgresTypeId e), typeMod)))"

definition CheckForComplexTypePrefix :: "string \<Rightarrow> string \<Rightarrow> bool" where
  "CheckForComplexTypePrefix tname typePrefix \<longleftrightarrow>
     pg_strncasecmp_prefix tname typePrefix \<and> length typePrefix < length tname \<and>
     (tname ! length typePrefix = CHR '' '' \<or> tname ! length typePrefix = CHR ''('')"

definition IsMapType :: "string \<Rightarrow> bool" where
  "IsMapType tname = CheckForComplexTypePrefix tname ''MAP''"

definition IsStructType :: "string \<Rightarrow> bool" where
  "IsStructType tname = CheckForComplexTypePrefix tname ''STRUCT''"

definition IsArrayType :: "string \<Rightarrow> bool" where
  "IsArrayType tname \<longleftrightarrow> 2 \<le> length tname \<and> drop (length tname - 2) tname = ''[]''"


section \<open>The DuckDB type of a PostgreSQL type\<close>

definition scalar_duck_type :: "pg_oid \<Rightarrow> DuckDBType" where
  "scalar_duck_type oid =
     (if oid = UNKNOWNOID then DUCKDB_TYPE_VARCHAR
      else if oid = BOOLOID then DUCKDB_TYPE_BOOLEAN
      else if oid = BITOID then DUCKDB_TYPE_VARCHAR
      else if oid = CHAROID then DUCKDB_TYPE_VARCHAR
      else if oid = BYTEAOID then DUCKDB_TYPE_BLOB
      else if oid = DATEOID then DUCKDB_TYPE_DATE
      else if oid = FLOAT4OID then DUCKDB_TYPE_FLOAT
      else if oid = FLOAT8OID then DUCKDB_TYPE_DOUBLE
      else if oid = INT2OID then DUCKDB_TYPE_SMALLINT
      else if oid = INT4OID then DUCKDB_TYPE_INTEGER
      else if oid = INT8OID then DUCKDB_TYPE_BIGINT
      else if oid = INTERVALOID then DUCKDB_TYPE_INTERVAL
      else if oid = NUMERICOID then DUCKDB_TYPE_DECIMAL
      else if oid = OIDOID then DUCKDB_TYPE_UINTEGER
      else if oid = TIMESTAMPOID then DUCKDB_TYPE_TIMESTAMP
      else if oid = TIMESTAMPTZOID then DUCKDB_TYPE_TIMESTAMP_TZ
      else if oid = TIMETZOID then DUCKDB_TYPE_TIME_TZ
      else if oid = TIMEOID then DUCKDB_TYPE_TIME
      else if oid = UUIDOID then DUCKDB_TYPE_UUID
      else if oid = JSONOID \<or> oid = JSONBOID then DUCKDB_TYPE_JSON
      else if oid = BPCHAROID \<or> oid = VARCHAROID \<or> oid = TEXTOID \<or> oid = NAMEOID then DUCKDB_TYPE_VARCHAR
      else if oid = GEOMETRYOID then DUCKDB_TYPE_GEOMETRY
      else DUCKDB_TYPE_INVALID)"

definition GetDuckDBTypeForPGType :: "pg_type \<Rightarrow> DuckDBType" where
  "GetDuckDBTypeForPGType t =
     (case get_element_type t of
        Some elementType \<Rightarrow> if elementType = Base JSONBOID then DUCKDB_TYPE_INVALID else DUCKDB_TYPE_LIST
      | None \<Rightarrow>
          if IsMapTypeOid t then DUCKDB_TYPE_MAP
          else if is_composite t then DUCKDB_TYPE_STRUCT
          else case t of Base oid \<Rightarrow> scalar_duck_type oid | _ \<Rightarrow> DUCKDB_TYPE_INVALID)"


section \<open>Evaluation of characters\<close>

definition upper_bits :: "bool \<Rightarrow> bool \<Rightarrow> bool \<Rightarrow> bool \<Rightarrow> bool \<Rightarrow> bool \<Rightarrow> bool \<Rightarrow> bool \<Rightarrow> bool" where
  "upper_bits b0 b1 b2 b3 b4 b5 b6 b7 \<longleftrightarrow> b6 \<and> \<not> b5 \<and> \<not> b7 \<and> (b0 \<or> b1 \<or> b2 \<or> b3 \<or> b4) \<and> \<not> (b4 \<and> b3 \<and> (b2 \<or> (b1 \<and> b0)))"

lemma upper_bits: "upper_bits b0 b1 b2 b3 b4 b5 b6 b7 \<longleftrightarrow> 65 \<le> (of_char (Char b0 b1 b2 b3 b4 b5 b6 b7) :: nat) \<and> (of_char (Char b0 b1 b2 b3 b4 b5 b6 b7) :: nat) \<le> 90"
  by (cases b0; cases b1; cases b2; cases b3; cases b4; cases b5; cases b6; cases b7) (simp_all add: upper_bits_def)

lemma pg_tolower_code [code]:
  "pg_tolower (Char b0 b1 b2 b3 b4 b5 b6 b7) =
    (if upper_bits b0 b1 b2 b3 b4 b5 b6 b7 then Char b0 b1 b2 b3 b4 True b6 b7 else Char b0 b1 b2 b3 b4 b5 b6 b7)"
proof (cases "upper_bits b0 b1 b2 b3 b4 b5 b6 b7")
  case True
  then have "(of_char (Char b0 b1 b2 b3 b4 b5 b6 b7) + 32 :: nat) = of_char (Char b0 b1 b2 b3 b4 True b6 b7)"
    by (auto simp: upper_bits_def)
  then have "char_of (of_char (Char b0 b1 b2 b3 b4 b5 b6 b7) + 32 :: nat) = Char b0 b1 b2 b3 b4 True b6 b7"
    by (simp only: char_of_char)
  then show ?thesis using True by (simp only: pg_tolower_def upper_bits if_True simp_thms)
next
  case False
  then have "(65 \<le> (of_char (Char b0 b1 b2 b3 b4 b5 b6 b7) :: nat) \<and> (of_char (Char b0 b1 b2 b3 b4 b5 b6 b7) :: nat) \<le> 90) = False"
    unfolding upper_bits by (simp only: simp_thms)
  then show ?thesis unfolding pg_tolower_def upper_bits by (simp only: if_False)
qed

lemma c_isspace_code [code]:
  "c_isspace (Char b0 b1 b2 b3 b4 b5 b6 b7) \<longleftrightarrow>
    \<not> b7 \<and> \<not> b6 \<and> (b5 \<and> \<not> b4 \<and> \<not> b3 \<and> \<not> b2 \<and> \<not> b1 \<and> \<not> b0 \<or> \<not> b5 \<and> \<not> b4 \<and> b3 \<and> (\<not> b2 \<and> (b1 \<or> b0) \<or> b2 \<and> \<not> b1))"
  by (cases b0; cases b1; cases b2; cases b3; cases b4; cases b5; cases b6; cases b7) (simp_all add: c_isspace_def)

lemma c_isdigit_code [code]:
  "c_isdigit (Char b0 b1 b2 b3 b4 b5 b6 b7) \<longleftrightarrow> \<not> b7 \<and> \<not> b6 \<and> b5 \<and> b4 \<and> (\<not> b3 \<or> \<not> b2 \<and> \<not> b1)"
  by (cases b0; cases b1; cases b2; cases b3; cases b4; cases b5; cases b6; cases b7) (simp_all add: c_isdigit_def)

lemma c_isalnum_code [code]:
  "c_isalnum (Char b0 b1 b2 b3 b4 b5 b6 b7) \<longleftrightarrow>
    c_isdigit (Char b0 b1 b2 b3 b4 b5 b6 b7) \<or> upper_bits b0 b1 b2 b3 b4 False b6 b7"
  by (cases b0; cases b1; cases b2; cases b3; cases b4; cases b5; cases b6; cases b7) (simp_all add: c_isalnum_def c_isdigit_def upper_bits_def)


section \<open>Names\<close>

lemma type_names [code]:
  "GetDuckDBTypeName t = (case t of
     DUCKDB_TYPE_INVALID \<Rightarrow> ''invalid'' | DUCKDB_TYPE_BOOLEAN \<Rightarrow> ''BOOLEAN'' | DUCKDB_TYPE_TINYINT \<Rightarrow> ''TINYINT''
   | DUCKDB_TYPE_SMALLINT \<Rightarrow> ''SMALLINT'' | DUCKDB_TYPE_INTEGER \<Rightarrow> ''INTEGER'' | DUCKDB_TYPE_BIGINT \<Rightarrow> ''BIGINT''
   | DUCKDB_TYPE_UTINYINT \<Rightarrow> ''UTINYINT'' | DUCKDB_TYPE_USMALLINT \<Rightarrow> ''USMALLINT'' | DUCKDB_TYPE_UINTEGER \<Rightarrow> ''UINTEGER''
   | DUCKDB_TYPE_UBIGINT \<Rightarrow> ''UBIGINT'' | DUCKDB_TYPE_FLOAT \<Rightarrow> ''REAL'' | DUCKDB_TYPE_DOUBLE \<Rightarrow> ''DOUBLE''
   | DUCKDB_TYPE_TIMESTAMP \<Rightarrow> ''TIMESTAMP'' | DUCKDB_TYPE_DATE \<Rightarrow> ''DATE'' | DUCKDB_TYPE_TIME \<Rightarrow> ''TIME''
   | DUCKDB_TYPE_INTERVAL \<Rightarrow> ''INTERVAL'' | DUCKDB_TYPE_HUGEINT \<Rightarrow> ''HUGEINT'' | DUCKDB_TYPE_VARCHAR \<Rightarrow> ''VARCHAR''
   | DUCKDB_TYPE_BLOB \<Rightarrow> ''BLOB'' | DUCKDB_TYPE_DECIMAL \<Rightarrow> ''DECIMAL'' | DUCKDB_TYPE_TIMESTAMP_S \<Rightarrow> ''TIMESTAMP_S''
   | DUCKDB_TYPE_TIMESTAMP_MS \<Rightarrow> ''TIMESTAMP_MS'' | DUCKDB_TYPE_TIMESTAMP_NS \<Rightarrow> ''TIMESTAMP_NS'' | DUCKDB_TYPE_ENUM \<Rightarrow> ''ENUM''
   | DUCKDB_TYPE_LIST \<Rightarrow> ''LIST'' | DUCKDB_TYPE_STRUCT \<Rightarrow> ''STRUCT'' | DUCKDB_TYPE_MAP \<Rightarrow> ''MAP'' | DUCKDB_TYPE_UUID \<Rightarrow> ''UUID''
   | DUCKDB_TYPE_UNION \<Rightarrow> ''UNION'' | DUCKDB_TYPE_BIT \<Rightarrow> ''BIT'' | DUCKDB_TYPE_TIME_TZ \<Rightarrow> ''TIMETZ''
   | DUCKDB_TYPE_TIMESTAMP_TZ \<Rightarrow> ''TIMESTAMP WITH TIME ZONE'' | DUCKDB_TYPE_JSON \<Rightarrow> ''JSON'' | DUCKDB_TYPE_GEOMETRY \<Rightarrow> ''GEOMETRY'')"
  by (cases t) (simp_all add: GetDuckDBTypeName_def TypeMap_def type_entry_def)

lemma lookup_names_1:
  "list_all (\<lambda>(name, t). GetDuckDBTypeByName name = Inr t)
    [(''invalid'', DUCKDB_TYPE_INVALID), (''BOOLEAN'', DUCKDB_TYPE_BOOLEAN), (''TINYINT'', DUCKDB_TYPE_TINYINT),
     (''SMALLINT'', DUCKDB_TYPE_SMALLINT), (''INTEGER'', DUCKDB_TYPE_INTEGER), (''BIGINT'', DUCKDB_TYPE_BIGINT),
     (''UTINYINT'', DUCKDB_TYPE_UTINYINT), (''USMALLINT'', DUCKDB_TYPE_USMALLINT), (''UINTEGER'', DUCKDB_TYPE_UINTEGER)]"
  by code_simp

lemma lookup_names_2:
  "list_all (\<lambda>(name, t). GetDuckDBTypeByName name = Inr t)
    [(''UBIGINT'', DUCKDB_TYPE_UBIGINT), (''REAL'', DUCKDB_TYPE_FLOAT), (''DOUBLE'', DUCKDB_TYPE_DOUBLE),
     (''TIMESTAMP'', DUCKDB_TYPE_TIMESTAMP), (''DATE'', DUCKDB_TYPE_DATE), (''TIME'', DUCKDB_TYPE_TIME),
     (''INTERVAL'', DUCKDB_TYPE_INTERVAL), (''HUGEINT'', DUCKDB_TYPE_HUGEINT), (''VARCHAR'', DUCKDB_TYPE_VARCHAR)]"
  by code_simp

lemma lookup_names_3:
  "list_all (\<lambda>(name, t). GetDuckDBTypeByName name = Inr t)
    [(''BLOB'', DUCKDB_TYPE_BLOB), (''DECIMAL'', DUCKDB_TYPE_DECIMAL), (''TIMESTAMP_S'', DUCKDB_TYPE_TIMESTAMP),
     (''TIMESTAMP_MS'', DUCKDB_TYPE_TIMESTAMP), (''TIMESTAMP_NS'', DUCKDB_TYPE_TIMESTAMP), (''ENUM'', DUCKDB_TYPE_ENUM),
     (''LIST'', DUCKDB_TYPE_LIST), (''STRUCT'', DUCKDB_TYPE_STRUCT), (''MAP'', DUCKDB_TYPE_MAP)]"
  by code_simp

lemma lookup_names_4:
  "list_all (\<lambda>(name, t). GetDuckDBTypeByName name = Inr t)
    [(''UUID'', DUCKDB_TYPE_UUID), (''UNION'', DUCKDB_TYPE_UNION), (''BIT'', DUCKDB_TYPE_BIT),
     (''TIMETZ'', DUCKDB_TYPE_TIME_TZ), (''TIMESTAMP WITH TIME ZONE'', DUCKDB_TYPE_TIMESTAMP_TZ), (''JSON'', DUCKDB_TYPE_JSON),
     (''GEOMETRY'', DUCKDB_TYPE_GEOMETRY)]"
  by code_simp

lemma type_name_lookup:
  "GetDuckDBTypeByName (GetDuckDBTypeName t) =
     Inr (if t = DUCKDB_TYPE_TIMESTAMP_S \<or> t = DUCKDB_TYPE_TIMESTAMP_MS \<or> t = DUCKDB_TYPE_TIMESTAMP_NS then DUCKDB_TYPE_TIMESTAMP else t)"
  using lookup_names_1 lookup_names_2 lookup_names_3 lookup_names_4 unfolding type_names by (cases t) simp_all

text \<open>C36: looking up the name of a DuckDB type gives that type back, whatever aliases other types have, except that the three
  timestamps of other precisions are taken for a \<^verbatim>\<open>TIMESTAMP\<close>, because the underscore ends the part of the name that is compared.\<close>

theorem GetDuckDBTypeByName_name:
  "GetDuckDBTypeByName (GetDuckDBTypeName t) =
     Inr (if t = DUCKDB_TYPE_TIMESTAMP_S \<or> t = DUCKDB_TYPE_TIMESTAMP_MS \<or> t = DUCKDB_TYPE_TIMESTAMP_NS then DUCKDB_TYPE_TIMESTAMP else t)"
  by (rule type_name_lookup)

end
