(* ===== verification/Parse_Struct.thy ===== *)
theory Parse_Struct
  imports Duck_Types
begin

text \<open>
  \<^verbatim>\<open>pg_lake_engine/src/pgduck/parse_struct.c\<close>, \<^verbatim>\<open>map.c\<close> and \<^verbatim>\<open>keywords.c\<close>: the type names of DuckDB for nested types, and the PostgreSQL
  types that are found or created for them.

  A position in the text of a type is the rest of the text.  The composite types of the catalog are a list of rows in the order a scan finds
  them.  Parameters, in \<open>struct_env\<close>, are functions of PostgreSQL: whether an identifier needs quotes, the conversion to
  \<^verbatim>\<open>name\<close>, the CRC of a name and its column types, whether the server is in recovery and whether
  \<^verbatim>\<open>DefineCompositeType\<close> refuses a definition; and the generated table of DuckDB keywords.
\<close>

section \<open>Identifiers\<close>

record struct_env =
  needs_quote :: "string \<Rightarrow> bool"
  is_keyword :: "string \<Rightarrow> bool"
  namein :: "string \<Rightarrow> string"
  type_crc :: "string \<Rightarrow> pg_type list \<Rightarrow> u32"
  RecoveryInProgress :: bool
  refused :: "string \<Rightarrow> (string \<times> pg_type) list \<Rightarrow> pg_error option"

fun double_quotes :: "string \<Rightarrow> string" where
  "double_quotes [] = []"
| "double_quotes (c # s) = (if c = CHR 34 then [CHR 34, CHR 34] else [c]) @ double_quotes s"

definition ForceQuoteIdentifier :: "string \<Rightarrow> string" where
  "ForceQuoteIdentifier ident = CHR 34 # double_quotes ident @ [CHR 34]"

definition duckdb_quote_identifier :: "struct_env \<Rightarrow> string \<Rightarrow> string" where
  "duckdb_quote_identifier env ident =
     (if needs_quote env ident then ForceQuoteIdentifier ident
      else if is_keyword env ident then ForceQuoteIdentifier ident
      else ident)"

definition QuoteDuckDBFieldName :: "struct_env \<Rightarrow> string \<Rightarrow> string" where
  "QuoteDuckDBFieldName env fieldName = duckdb_quote_identifier env fieldName"


section \<open>Scanning\<close>

definition ParseSkipCasePrefix :: "string \<Rightarrow> string \<Rightarrow> string option" where
  "ParseSkipCasePrefix s prefix =
     (if \<not> pg_strncasecmp_prefix s prefix then None
      else case SkipWhitespace (drop (length prefix) s) of
        [] \<Rightarrow> None
      | c # r \<Rightarrow> if c = CHR ''('' then Some r else None)"

text \<open>A quoted name from after its opening quote, without the doubling, and what follows its closing quote.\<close>

fun scan_quoted_name :: "string \<Rightarrow> (string \<times> string) option" where
  "scan_quoted_name [] = None"
| "scan_quoted_name (c # s) =
     (if c = CHR 34
      then case s of
          d # r \<Rightarrow> if d = CHR 34 then map_option (\<lambda>(n, t). (CHR 34 # n, t)) (scan_quoted_name r) else Some ([], s)
        | [] \<Rightarrow> Some ([], [])
      else map_option (\<lambda>(n, t). (c # n, t)) (scan_quoted_name s))"

declare scan_quoted_name.simps(2) [simp del]

definition ParseDuckDBFieldName :: "string \<Rightarrow> (string \<times> string) option" where
  "ParseDuckDBFieldName s =
     (case s of
        [] \<Rightarrow> None
      | c # r \<Rightarrow>
          if c \<noteq> CHR 34
          then let name = takeWhile (\<lambda>c. c_isalnum c \<or> c = CHR ''_'') s
               in if name = [] then None else Some (name, drop (length name) s)
          else scan_quoted_name r)"

fun skip_quoted :: "string \<Rightarrow> string" where
  "skip_quoted [] = []"
| "skip_quoted (c # s) =
     (if c = CHR 34 then case s of d # r \<Rightarrow> if d = CHR 34 then skip_quoted r else s | [] \<Rightarrow> [] else skip_quoted s)"

declare skip_quoted.simps(2) [simp del]

lemma skip_quoted_length: "length (skip_quoted s) \<le> length s"
proof (induction "length s" arbitrary: s rule: less_induct)
  case less
  show ?case
  proof (cases s)
    case (Cons c t)
    have t: "length (skip_quoted t) \<le> length t" using less [of t] Cons by simp
    show ?thesis
    proof (cases t)
      case Nil
      then show ?thesis using Cons by (simp add: skip_quoted.simps(2) [of c "[]"])
    next
      case (Cons d r)
      have "length (skip_quoted r) \<le> length r" using less [of r] Cons \<open>s = c # t\<close> by simp
      then show ?thesis unfolding \<open>s = c # t\<close> skip_quoted.simps(2) [of c t] using t by (simp add: Cons)
    qed
  qed simp
qed

function skip_nested :: "nat \<Rightarrow> string \<Rightarrow> string" where
  "skip_nested parenDepth s =
     (case s of
        [] \<Rightarrow> []
      | c # r \<Rightarrow>
          if parenDepth = 0 then s
          else if c = CHR 34 then skip_nested parenDepth (skip_quoted r)
          else skip_nested (if c = CHR ''('' then parenDepth + 1 else if c = CHR '')'' then parenDepth - 1 else parenDepth) r)"
  by pat_completeness auto
termination
  by (relation "measure (\<lambda>(d, s). length s)") (auto simp: less_Suc_eq_le skip_quoted_length)

declare skip_nested.simps [simp del]

definition skip_number :: "string \<Rightarrow> string option" where
  "skip_number s =
     (let s = SkipWhitespace s
      in case s of [] \<Rightarrow> None | c # _ \<Rightarrow> if c_isdigit c then Some (SkipWhitespace (dropWhile c_isdigit s)) else None)"

text \<open>The modifier \<^verbatim>\<open>(\d+,\s*\d+)\<close> of a scalar type, from after its opening parenthesis.\<close>

definition skip_modifier :: "string \<Rightarrow> string option" where
  "skip_modifier s =
     Option.bind (skip_number s) (\<lambda>s.
     Option.bind (scan_char CHR '','' s) (\<lambda>s.
     Option.bind (skip_number s) (\<lambda>s. scan_char CHR '')'' s)))"

definition skip_type :: "string \<Rightarrow> string option" where
  "skip_type s =
     (if IsStructType s \<or> IsMapType s
      then map_option (skip_nested 1) (ParseSkipCasePrefix s (if IsStructType s then ''STRUCT'' else ''MAP''))
      else case dropWhile (\<lambda>c. c_isalnum c \<or> c_isspace c) s of
             [] \<Rightarrow> Some []
           | c # r \<Rightarrow> if c = CHR ''('' then skip_modifier r else Some (c # r))"

text \<open>The text of the type, whether \<^verbatim>\<open>[]\<close> follows, and the rest.\<close>

definition ParseDuckDBFieldType :: "string \<Rightarrow> (string \<times> bool \<times> string) option" where
  "ParseDuckDBFieldType s =
     Option.bind (skip_type s) (\<lambda>r.
       if length r = length s then None
       else let ret = take (length s - length r) s
            in if take 2 r = ''[]'' then Some (ret, True, drop 2 r) else Some (ret, False, r))"

definition ParseSkipToNextField :: "string \<Rightarrow> string result" where
  "ParseSkipToNextField s =
     (case SkipWhitespace s of
        [] \<Rightarrow> Inl (SyntaxError ''unexpected end in STRUCT parsing'')
      | c # r \<Rightarrow>
          if c = CHR '')'' then Inr (c # r)
          else if c \<noteq> CHR '','' then Inl (SyntaxError ''expecting comma in STRUCT parsing'')
          else Inr (SkipWhitespace r))"

lemma skip_nested_length: "length (skip_nested d s) \<le> length s"
proof (induction d s rule: skip_nested.induct)
  case (1 d s)
  show ?case
  proof (cases s)
    case (Cons c r)
    have "length (skip_nested d (skip_quoted r)) \<le> length r" if "d \<noteq> 0" "c = CHR 34"
      using 1(1) [OF Cons that] skip_quoted_length [of r] by (rule le_trans)
    moreover have "length (skip_nested (if c = CHR ''('' then d + 1 else if c = CHR '')'' then d - 1 else d) r) \<le> length r"
      if "d \<noteq> 0" "c \<noteq> CHR 34" using 1(2) [OF Cons that] .
    ultimately show ?thesis by (subst skip_nested.simps) (simp add: Cons le_SucI)
  qed (simp add: skip_nested.simps)
qed


section \<open>Parse trees\<close>

datatype CompositeType =
    CompositeType (ct_cols: "CompositeCol list") (ct_isArray: bool)
and CompositeCol =
    CompositeCol (colName: string) (colType: "pg_type option") (colTypeName: string) (col_isArray: bool) (subStruct: "CompositeType option")

record composite_row =
  cr_schema :: string
  cr_typname :: string
  cr_attributes :: "pg_attribute list"

definition STRUCT_TYPES_SCHEMA :: string where "STRUCT_TYPES_SCHEMA = ''lake_struct''"

definition NAMEDATALEN :: nat where "NAMEDATALEN = 64"

text \<open>The array type of a type, or its element type; the pseudo type of all arrays has neither.\<close>

definition GetRelatedTypeOid :: "pg_type \<Rightarrow> bool \<Rightarrow> pg_type option" where
  "GetRelatedTypeOid t getArray =
     (if getArray then case t of Array _ \<Rightarrow> Some t | Base oid \<Rightarrow> Some (if oid = ANYARRAYOID then t else Array t) | _ \<Rightarrow> Some (Array t)
      else case t of Array e \<Rightarrow> Some e | Base oid \<Rightarrow> (if oid = ANYARRAYOID then None else Some t) | _ \<Rightarrow> Some t)"


section \<open>Names of composite types\<close>

definition AssignBaseStructTypeName :: "CompositeCol list \<Rightarrow> string" where
  "AssignBaseStructTypeName cols = concat (map (\<lambda>col. colName col @ ''_'') cols)"

definition hex_digit :: "nat \<Rightarrow> char" where
  "hex_digit n = ''0123456789abcdef'' ! n"

fun hex_digits :: "nat \<Rightarrow> string" where
  "hex_digits n = (if n < 16 then [hex_digit n] else hex_digits (n div 16) @ [hex_digit (n mod 16)])"

declare hex_digits.simps [simp del]

text \<open>\<^verbatim>\<open>%8x\<close>\<close>

definition format_crc :: "u32 \<Rightarrow> string" where
  "format_crc crc = (let d = hex_digits (unat crc) in replicate (8 - length d) CHR '' '' @ d)"

definition is_continuation :: "char \<Rightarrow> bool" where
  "is_continuation c \<longleftrightarrow> 128 \<le> (of_char c :: nat) \<and> (of_char c :: nat) < 192"

text \<open>Back to the start of a character; a step before the start of the text is \<open>Trap\<close>.\<close>

fun character_start :: "string \<Rightarrow> nat \<Rightarrow> nat result" where
  "character_start s 0 = (if is_continuation (s ! 0) then Inl Trap else Inr 0)"
| "character_start s (Suc n) = (if is_continuation (s ! Suc n) then character_start s n else Inr (Suc n))"

definition FinalizeCompositeTypeName :: "struct_env \<Rightarrow> string \<Rightarrow> pg_type list \<Rightarrow> string result" where
  "FinalizeCompositeTypeName env base types =
     (let s = map (\<lambda>c. if c = CHR '' '' then CHR ''_'' else c) (base @ format_crc (type_crc env base types))
      in if NAMEDATALEN < length s
         then result_bind (character_start s (NAMEDATALEN - 11)) (\<lambda>copyDest. Inr (take copyDest s @ drop (length s - 9) s))
         else Inr s)"


section \<open>Finding or creating a composite type\<close>

definition live_attributes :: "composite_row \<Rightarrow> pg_attribute list" where
  "live_attributes r = filter (\<lambda>a. \<not> attisdropped a) (cr_attributes r)"

definition find_composite :: "struct_env \<Rightarrow> (string \<times> pg_type) list \<Rightarrow> composite_row list \<Rightarrow> composite_row option" where
  "find_composite env cols types =
     find (\<lambda>r. map (\<lambda>a. (attname a, atttype a)) (live_attributes r) = map (\<lambda>(n, t). (namein env n, t)) cols \<and>
               cr_schema r \<in> {''pg_catalog'', STRUCT_TYPES_SCHEMA}) types"

definition CreatePGCompositeType ::
  "struct_env \<Rightarrow> string \<Rightarrow> (string \<times> pg_type) list \<Rightarrow> composite_row list \<Rightarrow> (pg_type \<times> composite_row list) result" where
  "CreatePGCompositeType env tname cols types =
     (case refused env tname cols of
        Some e \<Rightarrow> Inl e
      | None \<Rightarrow>
          if list_ex (\<lambda>r. cr_schema r = STRUCT_TYPES_SCHEMA \<and> cr_typname r = namein env tname) types
          then Inl (DuplicateObject ''type already exists'')
          else let as = map (\<lambda>(n, t). Attribute (namein env n) t (- 1) False False None) cols
               in Inr (Composite as, types @ [\<lparr>cr_schema = STRUCT_TYPES_SCHEMA, cr_typname = namein env tname, cr_attributes = as\<rparr>]))"

definition FindOrCreatePGCompositeType ::
  "struct_env \<Rightarrow> string \<Rightarrow> (string \<times> pg_type) list \<Rightarrow> bool \<Rightarrow> composite_row list \<Rightarrow> (pg_type \<times> composite_row list) result" where
  "FindOrCreatePGCompositeType env tname cols isArray types =
     (case find_composite env cols types of
        Some r \<Rightarrow> let t = Composite (cr_attributes r) in Inr (if isArray then Array t else t, types)
      | None \<Rightarrow>
          if RecoveryInProgress env then Inr (Base RECORDOID, types)
          else result_bind (CreatePGCompositeType env tname cols types) (\<lambda>(t, types).
            case GetRelatedTypeOid t isArray of None \<Rightarrow> Inl (InternalError ''no related type'') | Some t \<Rightarrow> Inr (t, types)))"

definition EnsureColumnTypesArePopulated :: "CompositeCol list \<Rightarrow> pg_type option list \<Rightarrow> (string \<times> pg_type) list result" where
  "EnsureColumnTypesArePopulated cols subTypes =
     result_map (\<lambda>(col, sub).
       case colType col of
         Some t \<Rightarrow> Inr (colName col, t)
       | None \<Rightarrow>
           (case Option.bind sub (\<lambda>t. GetRelatedTypeOid t (col_isArray col)) of
              Some t \<Rightarrow> Inr (colName col, t)
            | None \<Rightarrow> Inl (InternalError ''could not find sub-STRUCT link'')))
       (zip cols subTypes)"

text \<open>
  The parser lists the types to create so that the types of the columns come before the type itself; \<^verbatim>\<open>CreateUncreatedTypes\<close> goes through
  that list, which here is the traversal of the tree from its leaves.  The result is the type of the root.
\<close>

fun CreateUncreatedTypes :: "struct_env \<Rightarrow> CompositeType \<Rightarrow> composite_row list \<Rightarrow> (pg_type \<times> composite_row list) result"
  and create_sub_types :: "struct_env \<Rightarrow> CompositeCol list \<Rightarrow> composite_row list \<Rightarrow> (pg_type option list \<times> composite_row list) result" where
  "CreateUncreatedTypes env (CompositeType cols isArray) types =
     result_bind (create_sub_types env cols types) (\<lambda>(subTypes, types).
     result_bind (EnsureColumnTypesArePopulated cols subTypes) (\<lambda>columns.
     result_bind (FinalizeCompositeTypeName env (AssignBaseStructTypeName cols) (map snd columns)) (\<lambda>tname.
     result_bind (FindOrCreatePGCompositeType env tname columns isArray types) (\<lambda>(t, types).
     case GetRelatedTypeOid t isArray of
       None \<Rightarrow> Inl (InternalError ''could not create one or more dependent composite types'')
     | Some t \<Rightarrow> Inr (t, types)))))"
| "create_sub_types env [] types = Inr ([], types)"
| "create_sub_types env (CompositeCol name ct cn arr sub # cols) types =
     (case sub of
        None \<Rightarrow> result_bind (create_sub_types env cols types) (\<lambda>(ts, types). Inr (None # ts, types))
      | Some st \<Rightarrow>
          result_bind (CreateUncreatedTypes env st types) (\<lambda>(t, types).
          result_bind (create_sub_types env cols types) (\<lambda>(ts, types). Inr (Some t # ts, types))))"


section \<open>The type for a name\<close>

lemma result_bind_cong [fundef_cong]:
  assumes "r = r'" "\<And>x. r' = Inr x \<Longrightarrow> f x = g x"
  shows "result_bind r f = result_bind r' g"
  using assms by (cases r') simp_all

text \<open>A column without its sub-structure: name, text of the type, whether it is an array, and the rest.\<close>

definition scan_column :: "string \<Rightarrow> (string \<times> string \<times> bool \<times> string) result" where
  "scan_column s =
     (case ParseDuckDBFieldName s of
        None \<Rightarrow> Inl (SyntaxError ''could not parse STRUCT field name'')
      | Some (fieldName, s) \<Rightarrow>
          (case ParseDuckDBFieldType (SkipWhitespace s) of
             None \<Rightarrow> Inl (SyntaxError ''could not parse STRUCT field type'')
           | Some (fieldType, isArray, s) \<Rightarrow> Inr (fieldName, fieldType, isArray, s)))"

text \<open>The key type, the value type and whether the value is an array.\<close>

definition scan_map :: "string \<Rightarrow> (string \<times> string \<times> bool) result" where
  "scan_map name =
     (if \<not> IsMapType name then Inl (InvalidParameter ''must be called with a valid MAP type name'')
      else case scan_char CHR ''('' (SkipWhitespace (drop 3 name)) of
        None \<Rightarrow> Inl (SyntaxError ''missing opening parenthesis in MAP type definition'')
      | Some s \<Rightarrow>
          (case ParseDuckDBFieldType (SkipWhitespace s) of
             None \<Rightarrow> Inl (SyntaxError ''could not parse key field type in MAP type definition'')
           | Some (keyType, isArray, s) \<Rightarrow>
               if isArray then Inl (SyntaxError ''unsupported array type as key type in MAP definition'')
               else case scan_char CHR '','' (SkipWhitespace s) of
                 None \<Rightarrow> Inl (SyntaxError ''missing comma in MAP type definition'')
               | Some s \<Rightarrow>
                   (case ParseDuckDBFieldType (SkipWhitespace s) of
                      None \<Rightarrow> Inl (SyntaxError ''could not parse value field type in MAP type definition'')
                    | Some (valType, isArray, s) \<Rightarrow>
                        (case scan_char CHR '')'' (SkipWhitespace s) of
                           None \<Rightarrow> Inl (SyntaxError ''missing closing parenthesis in MAP type definition'')
                         | Some s \<Rightarrow> Inr (keyType, valType, isArray)))))"

lemma skip_whitespace_length: "length (SkipWhitespace s) \<le> length s"
  by (simp add: SkipWhitespace_def length_dropWhile_le)

lemma scan_char_length: "scan_char c s = Some r \<Longrightarrow> length s = Suc (length r)"
  by (auto simp: scan_char_def split: list.splits if_splits)

lemma skip_case_prefix_length: "ParseSkipCasePrefix s p = Some r \<Longrightarrow> length r < length s"
  using skip_whitespace_length [of "drop (length p) s"]
  by (auto simp: ParseSkipCasePrefix_def split: list.splits if_splits)

lemma skip_number_length: "skip_number s = Some r \<Longrightarrow> length r \<le> length s"
  using skip_whitespace_length [of s] skip_whitespace_length [of "dropWhile c_isdigit (SkipWhitespace s)"]
    length_dropWhile_le [of c_isdigit "SkipWhitespace s"]
  by (auto simp: skip_number_def Let_def split: list.splits if_splits)

lemma skip_modifier_length: "skip_modifier s = Some r \<Longrightarrow> length r \<le> length s"
  by (auto simp: skip_modifier_def bind_eq_Some_conv dest!: skip_number_length scan_char_length)

lemma skip_type_length:
  assumes "skip_type s = Some r"
  shows "length r \<le> length s"
proof (cases "IsStructType s \<or> IsMapType s")
  case True
  then obtain q where q: "ParseSkipCasePrefix s (if IsStructType s then ''STRUCT'' else ''MAP'') = Some q" "r = skip_nested 1 q"
    using assms by (auto simp: skip_type_def)
  show ?thesis using skip_case_prefix_length [OF q(1)] skip_nested_length [of 1 q] unfolding q(2) by linarith
next
  case False
  define u where "u = dropWhile (\<lambda>c. c_isalnum c \<or> c_isspace c) s"
  have "length u \<le> length s" unfolding u_def by (rule length_dropWhile_le)
  moreover have "length r \<le> length u" using assms False
    by (auto simp: skip_type_def u_def [symmetric] split: list.splits if_splits dest!: skip_modifier_length)
  ultimately show ?thesis by (rule le_trans [rotated])
qed

lemma field_type_length:
  assumes "ParseDuckDBFieldType s = Some (t, a, r)"
  shows "length t \<le> length s" "length r \<le> length s"
  using assms by (auto simp: ParseDuckDBFieldType_def Let_def bind_eq_Some_conv split: if_splits dest: skip_type_length)

lemma scan_quoted_name_length: "scan_quoted_name s = Some (n, r) \<Longrightarrow> length r < length s"
proof (induction "length s" arbitrary: s n r rule: less_induct)
  case less
  show ?case
  proof (cases s)
    case Nil
    then show ?thesis using less(2) by simp
  next
    case (Cons c t)
    note s = this
    have t: "length r < length t" if "scan_quoted_name t = Some (m, r)" for m using less(1) [OF _ that] s by simp
    show ?thesis
    proof (cases t)
      case Nil
      then show ?thesis using less(2) s by (auto simp: scan_quoted_name.simps(2) [of c "[]"] split: if_splits)
    next
      case (Cons d u)
      have "length r < length u" if "scan_quoted_name u = Some (m, r)" for m using less(1) [OF _ that] s Cons by simp
      then show ?thesis using less(2) t unfolding s scan_quoted_name.simps(2) [of c t]
        by (auto simp: Cons less_SucI split: if_splits)
    qed
  qed
qed

lemma field_name_length: "ParseDuckDBFieldName s = Some (n, r) \<Longrightarrow> length r < length s"
  by (auto simp: ParseDuckDBFieldName_def Let_def split: list.splits if_splits dest: scan_quoted_name_length)

lemma scan_column_length:
  assumes "scan_column s = Inr (n, t, a, r)"
  shows "length t < length s \<and> length r < length s"
proof -
  obtain q where q: "ParseDuckDBFieldName s = Some (n, q)" "ParseDuckDBFieldType (SkipWhitespace q) = Some (t, a, r)"
    using assms by (auto simp: scan_column_def split: option.splits)
  show ?thesis
    using field_name_length [OF q(1)] field_type_length [OF q(2)] skip_whitespace_length [of q] by linarith
qed

lemma next_field_length:
  assumes "ParseSkipToNextField s = Inr r"
  shows "length r \<le> length s"
proof -
  obtain c u where u: "SkipWhitespace s = c # u" and "r = c # u \<or> r = SkipWhitespace u"
    using assms by (auto simp: ParseSkipToNextField_def split: list.splits if_splits)
  moreover have "length (c # u) \<le> length s" using skip_whitespace_length [of s] unfolding u .
  ultimately show ?thesis using skip_whitespace_length [of u] by auto
qed

lemma scan_map_length:
  assumes "scan_map s = Inr (k, v, a)"
  shows "length k < length s \<and> length v < length s"
proof -
  obtain p q r u b where "scan_char CHR ''('' (SkipWhitespace (drop 3 s)) = Some p" "ParseDuckDBFieldType (SkipWhitespace p) = Some (k, b, q)"
    "scan_char CHR '','' (SkipWhitespace q) = Some r" "ParseDuckDBFieldType (SkipWhitespace r) = Some (v, a, u)"
    using assms by (auto simp: scan_map_def split: if_splits option.splits)
  note f = this
  show ?thesis
    using scan_char_length [OF f(1)] scan_char_length [OF f(3)] field_type_length [OF f(2)] field_type_length [OF f(4)]
      skip_whitespace_length [of p] skip_whitespace_length [of q] skip_whitespace_length [of r] skip_whitespace_length [of "drop 3 s"]
    by simp linarith
qed

text \<open>
  \<open>parse_columns\<close> is the loop of \<^verbatim>\<open>ParseStructType\<close> with the body of \<^verbatim>\<open>ParseStructColumn\<close>.  A map type of a column is created at
  once, the composite types when the whole text has been parsed.
\<close>

function GetOrCreatePGTypeForDuckDBTypeName ::
    "struct_env \<Rightarrow> string \<Rightarrow> composite_row list \<Rightarrow> (pg_type option \<times> int \<times> composite_row list) result"
  and GetOrCreatePGStructType :: "struct_env \<Rightarrow> string \<Rightarrow> composite_row list \<Rightarrow> (pg_type \<times> composite_row list) result"
  and GetOrCreatePGMapType :: "struct_env \<Rightarrow> string \<Rightarrow> composite_row list \<Rightarrow> (pg_type \<times> composite_row list) result"
  and ParseStructType :: "struct_env \<Rightarrow> string \<Rightarrow> composite_row list \<Rightarrow> (CompositeType \<times> composite_row list) result"
  and parse_columns :: "struct_env \<Rightarrow> string \<Rightarrow> composite_row list \<Rightarrow> (CompositeCol list \<times> string \<times> composite_row list) result" where
  "GetOrCreatePGTypeForDuckDBTypeName env name types =
     (if IsStructType name then result_bind (GetOrCreatePGStructType env name types) (\<lambda>(t, types). Inr (Some t, - 1, types))
      else if IsMapType name then result_bind (GetOrCreatePGMapType env name types) (\<lambda>(t, types). Inr (Some t, - 1, types))
      else result_bind (GetPGTypeForDuckDBTypeNameBuiltin name (IsArrayType name)) (\<lambda>(t, typeMod). Inr (t, typeMod, types)))"
| "GetOrCreatePGStructType env name types =
     result_bind (ParseStructType env name types) (\<lambda>(newType, types). CreateUncreatedTypes env newType types)"
| "GetOrCreatePGMapType env name types =
     result_bind (scan_map name) (\<lambda>(keyType, valType, isArray).
     result_bind (GetOrCreatePGTypeForDuckDBTypeName env keyType types) (\<lambda>(keyOid, _, types).
     result_bind (GetOrCreatePGTypeForDuckDBTypeName env valType types) (\<lambda>(valOid, _, types).
     case (keyOid, valOid) of
       (Some k, Some v) \<Rightarrow>
         (case (if isArray then GetRelatedTypeOid v True else Some v) of
            None \<Rightarrow> Inl (InternalError ''no array type'')
          | Some v \<Rightarrow> Inr (MapType k (- 1) v (- 1), types))
     | _ \<Rightarrow> Inl (InternalError ''could not resolve key or value MAP type as postgres type''))))"
| "ParseStructType env source types =
     (case ParseSkipCasePrefix source ''STRUCT'' of
        None \<Rightarrow> Inl Trap
      | Some s \<Rightarrow>
          result_bind (parse_columns env s types) (\<lambda>(cols, s, types).
          case s of
            [] \<Rightarrow> Inl (SyntaxError ''STRUCT ended before closing paren'')
          | _ # r \<Rightarrow> Inr (CompositeType cols (take 2 r = ''[]''), types)))"
| "parse_columns env s types =
     (if s = [] \<or> hd s = CHR '')'' then Inr ([], s, types)
      else result_bind (scan_column s) (\<lambda>(fieldName, fieldType, isArray, r).
        result_bind (GetPGTypeForDuckDBTypeNameBuiltin fieldType isArray) (\<lambda>(builtin, _).
        result_bind
          (if IsStructType fieldType
           then result_bind (ParseStructType env fieldType types) (\<lambda>(sub, types). Inr (None, Some sub, types))
           else if IsMapType fieldType
           then result_bind (GetOrCreatePGMapType env fieldType types) (\<lambda>(t, types). Inr (Some t, None, types))
           else Inr (builtin, None, types))
          (\<lambda>(ct, sub, types).
        result_bind (ParseSkipToNextField r) (\<lambda>s.
        result_bind (parse_columns env s types) (\<lambda>(cols, s, types).
        Inr (CompositeCol fieldName ct fieldType isArray sub # cols, s, types)))))))"
  by pat_completeness auto
termination
  by (relation "measure (\<lambda>x. case x of
      Inl (Inl (_, s, _)) \<Rightarrow> 5 * length s + 4 | Inl (Inr (_, s, _)) \<Rightarrow> 5 * length s + 3
    | Inr (Inl (_, s, _)) \<Rightarrow> 5 * length s + 3
    | Inr (Inr (Inl (_, s, _))) \<Rightarrow> 5 * length s + 2 | Inr (Inr (Inr (_, s, _))) \<Rightarrow> 5 * length s + 1)")
    (auto dest!: scan_map_length scan_column_length skip_case_prefix_length next_field_length)

declare GetOrCreatePGTypeForDuckDBTypeName.simps [simp del] GetOrCreatePGStructType.simps [simp del] GetOrCreatePGMapType.simps [simp del]
  ParseStructType.simps [simp del] parse_columns.simps [simp del]


section \<open>Printing\<close>

datatype CopyDataFormat =
    DATA_FORMAT_INVALID | DATA_FORMAT_CSV | DATA_FORMAT_JSON | DATA_FORMAT_PARQUET | DATA_FORMAT_ICEBERG | DATA_FORMAT_DELTA
  | DATA_FORMAT_GDAL | DATA_FORMAT_LOG

text \<open>A dropped column is skipped; domains are unwrapped, but not map types.  The name of a type in the catalog is not part of the tree and is left
  empty in the columns; printing does not use it.\<close>

definition column_type :: "pg_type \<Rightarrow> pg_type" where
  "column_type t = (if IsMapTypeOid t then t else getBaseType t)"

fun tree_size :: "pg_type \<Rightarrow> nat" and trees_size :: "pg_attribute list \<Rightarrow> nat" where
  "tree_size (Base oid) = 1"
| "tree_size (Array t) = Suc (tree_size t)"
| "tree_size (Composite as) = Suc (trees_size as)"
| "tree_size (MapType k km v vm) = 6 + tree_size k + tree_size v"
| "tree_size (Domain t m) = Suc (tree_size t)"
| "trees_size [] = 0"
| "trees_size (Attribute n t m nn dr df # as) = 1 + tree_size t + trees_size as"

lemma tree_size_base: "tree_size (getBaseType t) \<le> tree_size t"
  by (induction t rule: getBaseType.induct) (simp_all add: map_pairs_def)

lemma tree_size_column: "tree_size (column_type t) \<le> tree_size t"
  by (simp add: column_type_def tree_size_base)

lemma tree_size_related: "GetRelatedTypeOid t False = Some e \<Longrightarrow> tree_size e \<le> tree_size t"
  by (auto simp: GetRelatedTypeOid_def split: pg_type.splits if_splits)

function GetCompositeTypeForPGType :: "pg_attribute list \<Rightarrow> CompositeType result"
  and composite_columns :: "pg_attribute list \<Rightarrow> CompositeCol list result" where
  "GetCompositeTypeForPGType attributes = result_bind (composite_columns attributes) (\<lambda>cols. Inr (CompositeType cols False))"
| "composite_columns [] = Inr []"
| "composite_columns (Attribute name t typmod notnull dropped dflt # attributes) =
     (if dropped then composite_columns attributes
      else
        let rawTypid = column_type t
        in case GetRelatedTypeOid rawTypid False of
             None \<Rightarrow> Inl (InternalError ''unknown type when constructing CompositeCol'')
           | Some ct \<Rightarrow>
               result_bind (case ct of Composite as \<Rightarrow> result_bind (GetCompositeTypeForPGType as) (\<lambda>sub. Inr (Some sub)) | _ \<Rightarrow> Inr None) (\<lambda>sub.
               result_bind (composite_columns attributes) (\<lambda>cols.
               Inr (CompositeCol name (Some ct) [] (rawTypid \<noteq> ct) sub # cols))))"
  by pat_completeness auto
termination
proof (relation "measure (\<lambda>x. case x of Inl as \<Rightarrow> 2 * trees_size as + 1 | Inr as \<Rightarrow> 2 * trees_size as)", goal_cases)
  case (4 name t typmod notnull dropped dflt attributes rawTypid ct as)
  then show ?case using tree_size_related [of rawTypid ct] tree_size_column [of t] by simp
qed simp_all

fun composite_size :: "CompositeType \<Rightarrow> nat" and columns_size :: "CompositeCol list \<Rightarrow> nat" where
  "composite_size (CompositeType cols arr) = columns_size cols"
| "columns_size [] = 0"
| "columns_size (CompositeCol n ct cn arr sub # cols) =
     1 + (case sub of Some st \<Rightarrow> composite_size st | None \<Rightarrow> (case ct of Some t \<Rightarrow> tree_size t | None \<Rightarrow> 0)) + columns_size cols"

lemma composite_size_bound:
  "GetCompositeTypeForPGType as = Inr c \<Longrightarrow> composite_size c \<le> trees_size as"
  "composite_columns as = Inr cols \<Longrightarrow> columns_size cols \<le> trees_size as"
proof (induction as and as arbitrary: c and cols rule: GetCompositeTypeForPGType_composite_columns.induct)
  case (3 name t typmod notnull dropped dflt attributes)
  show ?case
  proof (cases dropped)
    case True
    then show ?thesis using 3(1) [OF True] 3(4) by fastforce
  next
    case False
    obtain ct sub rest where ct: "GetRelatedTypeOid (column_type t) False = Some ct"
      and sub: "(case ct of Composite as \<Rightarrow> result_bind (GetCompositeTypeForPGType as) (\<lambda>sub. Inr (Some sub)) | _ \<Rightarrow> Inr None) = Inr sub"
      and rest: "composite_columns attributes = Inr rest" and cols: "cols = CompositeCol name (Some ct) [] (column_type t \<noteq> ct) sub # rest"
      using 3(4) False by (auto simp: Let_def result_bind_Inr_iff split: option.splits)
    have "columns_size rest \<le> trees_size attributes" using 3(3) [OF False refl ct sub rest] .
    moreover have "(case sub of Some st \<Rightarrow> composite_size st | None \<Rightarrow> tree_size ct) \<le> tree_size ct"
    proof (cases sub)
      case (Some st)
      then obtain as where "ct = Composite as" "GetCompositeTypeForPGType as = Inr st"
        using sub by (auto simp: result_bind_Inr_iff split: pg_type.splits)
      then show ?thesis using 3(2) [OF False refl ct] Some by fastforce
    qed simp
    ultimately show ?thesis using tree_size_related [OF ct] tree_size_column [of t] unfolding cols by (cases sub) simp_all
  qed
qed (auto simp: result_bind_Inr_iff)

definition scalar_type_text :: "DuckDBType \<Rightarrow> int \<Rightarrow> string" where
  "scalar_type_text myType typmod =
     (let myType = (if myType = DUCKDB_TYPE_INVALID then DUCKDB_TYPE_VARCHAR else myType);
          name = GetDuckDBTypeName myType
      in if myType = DUCKDB_TYPE_DECIMAL \<and> typmod \<noteq> - 1
         then name @ ''('' @ int_digits (numeric_typmod_precision typmod) @ '','' @ int_digits (numeric_typmod_scale typmod) @ '')''
         else name)"

function GetFullDuckDBTypeNameForPGType :: "struct_env \<Rightarrow> pg_type \<Rightarrow> int \<Rightarrow> CopyDataFormat \<Rightarrow> string result"
  and GetDuckDBStructDefinitionForCompositeType :: "struct_env \<Rightarrow> CompositeType \<Rightarrow> CopyDataFormat \<Rightarrow> string result"
  and column_definitions :: "struct_env \<Rightarrow> CompositeCol list \<Rightarrow> CopyDataFormat \<Rightarrow> bool \<Rightarrow> string result" where
  "GetFullDuckDBTypeNameForPGType env t typmod format =
     (let myType = GetDuckDBTypeForPGType t
      in if myType = DUCKDB_TYPE_INTERVAL \<and> format = DATA_FORMAT_ICEBERG
         then Inr ''STRUCT(months BIGINT, days BIGINT, microseconds BIGINT)''
         else case t of
           MapType k km v vm \<Rightarrow>
             result_bind (GetFullDuckDBTypeNameForPGType env k km format) (\<lambda>kn.
             result_bind (GetFullDuckDBTypeNameForPGType env v vm format) (\<lambda>vn.
             Inr (''MAP('' @ kn @ '','' @ vn @ '')'')))
         | Array e \<Rightarrow>
             if myType = DUCKDB_TYPE_LIST
             then result_bind (GetFullDuckDBTypeNameForPGType env e (- 1) format) (\<lambda>n. Inr (n @ ''[]''))
             else Inr (scalar_type_text myType typmod)
         | Composite as \<Rightarrow>
             (case GetCompositeTypeForPGType as of
                Inl e \<Rightarrow> Inl e
              | Inr c \<Rightarrow> GetDuckDBStructDefinitionForCompositeType env c format)
         | _ \<Rightarrow> Inr (scalar_type_text myType typmod))"
| "GetDuckDBStructDefinitionForCompositeType env (CompositeType cols isArray) format =
     result_bind (column_definitions env cols format False) (\<lambda>s.
     Inr (''STRUCT('' @ s @ '')'' @ (if isArray then ''[]'' else [])))"
| "column_definitions env [] format processedOne = Inr []"
| "column_definitions env (CompositeCol name ct cn isArray sub # cols) format processedOne =
     result_bind
       (case sub of
          Some st \<Rightarrow> GetDuckDBStructDefinitionForCompositeType env st format
        | None \<Rightarrow>
            (case ct of
               None \<Rightarrow> Inl (DatatypeMismatch ''composite types with this field cannot be exported to data lake'')
             | Some t \<Rightarrow>
                 (case GetRelatedTypeOid t False of
                    None \<Rightarrow> Inl (DatatypeMismatch ''composite types with this field cannot be exported to data lake'')
                  | Some e \<Rightarrow>
                      if GetDuckDBTypeForPGType e = DUCKDB_TYPE_INVALID
                      then Inl (DatatypeMismatch ''composite types with this field cannot be exported to data lake'')
                      else GetFullDuckDBTypeNameForPGType env e (- 1) format)))
       (\<lambda>text.
     result_bind (column_definitions env cols format True) (\<lambda>rest.
     Inr ((if processedOne then '','' else []) @ QuoteDuckDBFieldName env name @ '' '' @ text @ (if isArray then ''[]'' else []) @ rest)))"
  by pat_completeness auto
termination
  by (relation "measure (\<lambda>x. case x of
    Inl (_, t, _) \<Rightarrow> 2 * tree_size t | Inr (Inl (_, c, _)) \<Rightarrow> 2 * composite_size c + 1 | Inr (Inr (_, cols, _)) \<Rightarrow> 2 * columns_size cols)")
    (auto simp del: GetCompositeTypeForPGType.simps dest!: composite_size_bound(1) tree_size_related split: option.splits)

declare GetFullDuckDBTypeNameForPGType.simps [simp del]


section \<open>Scanning what was printed\<close>

lemma alnum_other:
  "c_isalnum c \<Longrightarrow> c \<noteq> CHR 34 \<and> c \<noteq> CHR ''('' \<and> c \<noteq> CHR '')'' \<and> c \<noteq> CHR '' '' \<and> c \<noteq> CHR '','' \<and> c \<noteq> CHR ''[''"
  by (auto simp: c_isalnum_def c_isdigit_def)

text \<open>A text in which every parenthesis outside quotes is closed.\<close>

definition balanced :: "string \<Rightarrow> bool" where
  "balanced s \<longleftrightarrow> (\<forall>d r. skip_nested (Suc d) (s @ r) = skip_nested (Suc d) r)"

lemma balanced_Nil: "balanced []"
  by (simp add: balanced_def)

lemma balanced_append: "balanced s \<Longrightarrow> balanced t \<Longrightarrow> balanced (s @ t)"
  by (simp add: balanced_def)

lemma balanced_parens:
  assumes "balanced s"
  shows "balanced (CHR ''('' # s @ [CHR '')''])"
  unfolding balanced_def
proof (intro allI)
  fix d r
  have "skip_nested (Suc d) ((CHR ''('' # s @ [CHR '')'']) @ r) = skip_nested (Suc (Suc d)) (s @ CHR '')'' # r)"
    by (subst skip_nested.simps) simp
  also have "\<dots> = skip_nested (Suc (Suc d)) (CHR '')'' # r)" using assms by (simp add: balanced_def)
  also have "\<dots> = skip_nested (Suc d) r" by (subst skip_nested.simps) simp
  finally show "skip_nested (Suc d) ((CHR ''('' # s @ [CHR '')'']) @ r) = skip_nested (Suc d) r" .
qed

lemma balanced_Cons:
  assumes "c \<noteq> CHR 34" "c \<noteq> CHR ''(''" "c \<noteq> CHR '')''" "balanced s"
  shows "balanced (c # s)"
  unfolding balanced_def
proof (intro allI)
  fix d r
  show "skip_nested (Suc d) ((c # s) @ r) = skip_nested (Suc d) r"
    by (subst skip_nested.simps) (use assms in \<open>simp add: balanced_def\<close>)
qed

lemma balanced_plain: "list_all (\<lambda>c. c \<noteq> CHR 34 \<and> c \<noteq> CHR ''('' \<and> c \<noteq> CHR '')'') s \<Longrightarrow> balanced s"
  by (induction s) (auto intro: balanced_Nil balanced_Cons)

lemma skip_quoted_doubled:
  assumes "r = [] \<or> hd r \<noteq> CHR 34"
  shows "skip_quoted (double_quotes n @ CHR 34 # r) = r"
proof (induction n)
  case Nil
  then show ?case using assms by (cases r) (simp_all add: skip_quoted.simps(2) [of "CHR 34"])
next
  case (Cons c n)
  show ?case
  proof (cases "c = CHR 34")
    case True
    then show ?thesis using Cons by (simp add: skip_quoted.simps(2) [of _ "CHR 34 # double_quotes n @ CHR 34 # r"])
  next
    case False
    then show ?thesis using Cons by (simp add: skip_quoted.simps(2) [of c "double_quotes n @ CHR 34 # r"])
  qed
qed

lemma scan_quoted_doubled:
  assumes "r = [] \<or> hd r \<noteq> CHR 34"
  shows "scan_quoted_name (double_quotes n @ CHR 34 # r) = Some (n, r)"
proof (induction n)
  case Nil
  then show ?case using assms by (cases r) (simp_all add: scan_quoted_name.simps(2) [of "CHR 34"])
next
  case (Cons c n)
  show ?case
  proof (cases "c = CHR 34")
    case True
    then show ?thesis using Cons by (simp add: scan_quoted_name.simps(2) [of _ "CHR 34 # double_quotes n @ CHR 34 # r"])
  next
    case False
    then show ?thesis using Cons by (simp add: scan_quoted_name.simps(2) [of c "double_quotes n @ CHR 34 # r"])
  qed
qed

text \<open>What \<^verbatim>\<open>quote_identifier\<close> of PostgreSQL leaves unquoted.\<close>

definition quoting_ok :: "struct_env \<Rightarrow> bool" where
  "quoting_ok env \<longleftrightarrow> (\<forall>n. \<not> needs_quote env n \<longrightarrow> n \<noteq> [] \<and> list_all (\<lambda>c. c_isalnum c \<or> c = CHR ''_'') n)"

lemma balanced_name:
  assumes "quoting_ok env" "c \<noteq> CHR 34" "c \<noteq> CHR ''(''" "c \<noteq> CHR '')''" "balanced s"
  shows "balanced (QuoteDuckDBFieldName env n @ c # s)"
proof (cases "needs_quote env n \<or> is_keyword env n")
  case True
  then have q: "QuoteDuckDBFieldName env n = CHR 34 # double_quotes n @ [CHR 34]"
    by (auto simp: QuoteDuckDBFieldName_def duckdb_quote_identifier_def ForceQuoteIdentifier_def)
  have "skip_nested (Suc d) ((QuoteDuckDBFieldName env n @ c # s) @ r) = skip_nested (Suc d) r" for d r
  proof -
    have "skip_nested (Suc d) ((QuoteDuckDBFieldName env n @ c # s) @ r) = skip_nested (Suc d) ((c # s) @ r)"
      by (subst skip_nested.simps) (use skip_quoted_doubled [of "c # s @ r" n] assms(2) in \<open>simp add: q\<close>)
    then show ?thesis using balanced_Cons [OF assms(2-5)] by (simp add: balanced_def)
  qed
  then show ?thesis by (simp add: balanced_def)
next
  case False
  then have "QuoteDuckDBFieldName env n = n" by (simp add: QuoteDuckDBFieldName_def duckdb_quote_identifier_def)
  moreover have "list_all (\<lambda>c. c \<noteq> CHR 34 \<and> c \<noteq> CHR ''('' \<and> c \<noteq> CHR '')'') n"
    using assms(1) False alnum_other unfolding quoting_ok_def list_all_iff by fastforce
  ultimately show ?thesis using balanced_append [OF balanced_plain balanced_Cons [OF assms(2-5)]] by simp
qed

lemma field_name_printed:
  assumes "quoting_ok env"
  shows "ParseDuckDBFieldName (QuoteDuckDBFieldName env n @ CHR '' '' # r) = Some (n, CHR '' '' # r)"
proof (cases "needs_quote env n \<or> is_keyword env n")
  case True
  then have q: "QuoteDuckDBFieldName env n = CHR 34 # double_quotes n @ [CHR 34]"
    by (auto simp: QuoteDuckDBFieldName_def duckdb_quote_identifier_def ForceQuoteIdentifier_def)
  show ?thesis using scan_quoted_doubled [of "CHR '' '' # r" n] by (simp add: q ParseDuckDBFieldName_def)
next
  case False
  then have q: "QuoteDuckDBFieldName env n = n" by (simp add: QuoteDuckDBFieldName_def duckdb_quote_identifier_def)
  have n: "n \<noteq> []" "\<And>c. c \<in> set n \<Longrightarrow> c_isalnum c \<or> c = CHR ''_''" using assms False by (auto simp: quoting_ok_def list_all_iff)
  have "takeWhile (\<lambda>c. c_isalnum c \<or> c = CHR ''_'') (n @ CHR '' '' # r) = n"
    using n(2) by (subst takeWhile_append2) (auto simp: c_isalnum_def c_isdigit_def)
  moreover have "hd n \<noteq> CHR 34" using n(2) [of "hd n"] n(1) by (auto simp: c_isalnum_def c_isdigit_def)
  ultimately show ?thesis using n(1) unfolding q ParseDuckDBFieldName_def by (cases n) (simp_all add: Let_def)
qed


section \<open>Texts of types\<close>

definition scans :: "string \<Rightarrow> bool" where
  "scans n \<longleftrightarrow> n \<noteq> [] \<and> \<not> c_isspace (hd n) \<and> balanced n \<and>
     (\<forall>r. r \<noteq> [] \<longrightarrow> hd r \<in> {CHR '','', CHR '')'', CHR ''[''} \<longrightarrow> skip_type (n @ r) = Some r)"

lemma skip_whitespace_nonspace: "s = [] \<or> \<not> c_isspace (hd s) \<Longrightarrow> SkipWhitespace s = s"
  by (cases s) (auto simp: SkipWhitespace_def)

lemma field_type_printed:
  assumes "scans n" "r \<noteq> []" "hd r = CHR '','' \<or> hd r = CHR '')''"
  shows "ParseDuckDBFieldType (n @ (if arr then ''[]'' else []) @ r) = Some (n, arr, r)"
proof -
  have "skip_type (n @ (if arr then ''[]'' else []) @ r) = Some ((if arr then ''[]'' else []) @ r)"
    using assms by (auto simp: scans_def)
  moreover have "take 2 r \<noteq> ''[]''" using assms(2,3) by (cases r) auto
  ultimately show ?thesis using assms(1) by (auto simp: ParseDuckDBFieldType_def Let_def scans_def)
qed

lemma skip_nested_close: "balanced s \<Longrightarrow> skip_nested 1 (s @ CHR '')'' # r) = r"
proof -
  assume "balanced s"
  then have "skip_nested 1 (s @ CHR '')'' # r) = skip_nested 1 (CHR '')'' # r)" by (simp add: balanced_def)
  also have "\<dots> = skip_nested 0 r" by (subst skip_nested.simps) simp
  also have "\<dots> = r" by (subst skip_nested.simps) (simp split: list.split)
  finally show ?thesis .
qed

lemma struct_prefix [simp]:
  "IsStructType (''STRUCT('' @ s)" "\<not> IsStructType (''MAP('' @ s)" "IsMapType (''MAP('' @ s)" "\<not> IsMapType (''STRUCT('' @ s)"
  "ParseSkipCasePrefix (''STRUCT('' @ s) ''STRUCT'' = Some s" "ParseSkipCasePrefix (''MAP('' @ s) ''MAP'' = Some s"
  by (simp_all add: IsStructType_def IsMapType_def CheckForComplexTypePrefix_def pg_strncasecmp_prefix_def ParseSkipCasePrefix_def
      SkipWhitespace_def c_isspace_def pg_tolower_def)

lemma scans_struct: "balanced s \<Longrightarrow> scans (''STRUCT('' @ s @ '')'')"
  using skip_nested_close [of s] balanced_append [OF balanced_plain balanced_parens, of "''STRUCT''" s]
  by (auto simp: scans_def skip_type_def c_isspace_def struct_prefix [simplified])

lemma scans_map: "balanced s \<Longrightarrow> scans (''MAP('' @ s @ '')'')"
  using skip_nested_close [of s] balanced_append [OF balanced_plain balanced_parens, of "''MAP''" s]
  by (auto simp: scans_def skip_type_def c_isspace_def struct_prefix [simplified])

definition word_text :: "string \<Rightarrow> bool" where
  "word_text n \<longleftrightarrow> list_all (\<lambda>c. c_isalnum c \<or> c = CHR '' '') n \<and> 2 \<le> length n \<and> c_isalnum (hd n) \<and>
     pg_tolower (hd n) \<noteq> CHR ''m'' \<and> (pg_tolower (hd n) \<noteq> CHR ''s'' \<or> pg_tolower (n ! 1) \<noteq> CHR ''t'')"

lemma lower_letters: "pg_tolower CHR ''S'' = CHR ''s''" "pg_tolower CHR ''T'' = CHR ''t''" "pg_tolower CHR ''M'' = CHR ''m''"
  by code_simp+

lemma word_no_prefix:
  assumes "word_text n"
  shows "\<not> IsStructType (n @ r)" "\<not> IsMapType (n @ r)"
proof -
  obtain a b m where n: "n = a # b # m" using assms by (cases n; cases "tl n") (auto simp: word_text_def)
  show "\<not> IsStructType (n @ r)" "\<not> IsMapType (n @ r)"
    using assms by (auto simp: n word_text_def IsStructType_def IsMapType_def CheckForComplexTypePrefix_def pg_strncasecmp_prefix_def
        lower_letters)
qed

lemma scans_word:
  assumes "word_text n"
  shows "scans n"
proof -
  have c: "c_isalnum c \<or> c = CHR '' ''" if "c \<in> set n" for c using assms that by (auto simp: word_text_def list_all_iff)
  have "skip_type (n @ r) = Some r" if h: "r \<noteq> []" "hd r \<in> {CHR '','', CHR '')'', CHR ''[''}" for r
  proof -
    obtain d u where r: "r = d # u" "d = CHR '','' \<or> d = CHR '')'' \<or> d = CHR ''[''" using h by (cases r) auto
    have "c_isalnum c \<or> c_isspace c" if "c \<in> set n" for c using c [OF that] by (auto simp: c_isspace_def)
    moreover have "\<not> c_isalnum d" "\<not> c_isspace d" using r(2) by (auto simp: c_isspace_def c_isalnum_def c_isdigit_def)
    ultimately have "dropWhile (\<lambda>c. c_isalnum c \<or> c_isspace c) (n @ r) = r"
      unfolding r(1) by (subst dropWhile_append2) simp_all
    then show ?thesis using word_no_prefix [OF assms, of r] r by (auto simp: skip_type_def)
  qed
  moreover have "balanced n" using c alnum_other by (intro balanced_plain) (fastforce simp: list_all_iff)
  moreover have "\<not> c_isspace (hd n)" "n \<noteq> []"
    using assms by (auto simp: word_text_def c_isalnum_def c_isdigit_def c_isspace_def)
  ultimately show ?thesis by (auto simp: scans_def)
qed

section \<open>Types that keep their name\<close>

definition plain_oids :: "pg_oid list" where
  "plain_oids = [BOOLOID, INT2OID, INT4OID, INT8OID, FLOAT4OID, FLOAT8OID, TIMESTAMPOID, DATEOID, TIMEOID, INTERVALOID, TEXTOID, BYTEAOID,
     NUMERICOID, UUIDOID, TIMETZOID, TIMESTAMPTZOID, JSONBOID, GEOMETRYOID]"

lemma plain_names:
  "map (\<lambda>oid. GetDuckDBTypeName (scalar_duck_type oid)) plain_oids =
    [''BOOLEAN'', ''SMALLINT'', ''INTEGER'', ''BIGINT'', ''REAL'', ''DOUBLE'', ''TIMESTAMP'', ''DATE'', ''TIME'', ''INTERVAL'', ''VARCHAR'', ''BLOB'',
     ''DECIMAL'', ''UUID'', ''TIMETZ'', ''TIMESTAMP WITH TIME ZONE'', ''JSON'', ''GEOMETRY'']"
  by (simp add: plain_oids_def scalar_duck_type_def type_names)

lemma plain_words:
  assumes "oid \<in> set plain_oids"
  shows "word_text (GetDuckDBTypeName (scalar_duck_type oid))" "\<not> IsArrayType (GetDuckDBTypeName (scalar_duck_type oid))"
proof -
  have "list_all (\<lambda>n. word_text n \<and> \<not> IsArrayType n) (map (\<lambda>oid. GetDuckDBTypeName (scalar_duck_type oid)) plain_oids)"
    unfolding plain_names by code_simp
  then show "word_text (GetDuckDBTypeName (scalar_duck_type oid))" "\<not> IsArrayType (GetDuckDBTypeName (scalar_duck_type oid))"
    using assms by (simp_all add: list_all_iff)
qed

lemma find_entry_set: "find_type_entry es n = Inr (Some e) \<Longrightarrow> e \<in> set es"
  by (induction es) (auto simp: result_bind_Inr_iff split: if_splits)

lemma entries_at_index: "list_all (\<lambda>e. TypeMap ! DuckDBType_index (duckDBType e) = e) TypeMap"
  by (simp add: TypeMap_def type_entry_def)

lemma entry_of_name:
  assumes "t \<noteq> DUCKDB_TYPE_TIMESTAMP_S" "t \<noteq> DUCKDB_TYPE_TIMESTAMP_MS" "t \<noteq> DUCKDB_TYPE_TIMESTAMP_NS" "t \<noteq> DUCKDB_TYPE_INVALID"
  shows "find_type_entry (tl TypeMap) (GetDuckDBTypeName t) = Inr (Some (TypeMap ! DuckDBType_index t))"
proof -
  obtain e where e: "find_type_entry (tl TypeMap) (GetDuckDBTypeName t) = Inr (Some e)" "duckDBType e = t"
    using type_name_lookup [of t] assms by (auto simp: GetDuckDBTypeByName_def result_bind_Inr_iff split: option.splits)
  have "e \<in> set TypeMap" using find_entry_set [OF e(1)] by (simp add: TypeMap_def)
  then show ?thesis using e entries_at_index by (auto simp: list_all_iff)
qed

lemma plain_entries:
  "list_all (\<lambda>oid. duckDBType (TypeMap ! DuckDBType_index (scalar_duck_type oid)) = scalar_duck_type oid \<and>
     (if oid = GEOMETRYOID then scalar_duck_type oid = DUCKDB_TYPE_GEOMETRY
      else scalar_duck_type oid \<noteq> DUCKDB_TYPE_GEOMETRY \<and> postgresTypeId (TypeMap ! DuckDBType_index (scalar_duck_type oid)) = Some oid \<and>
        postgresArrayTypeId (TypeMap ! DuckDBType_index (scalar_duck_type oid)) = Some (Array (Base oid)))) plain_oids"
  by (simp add: plain_oids_def scalar_duck_type_def TypeMap_def type_entry_def)

lemma plain_lookup: "oid \<in> set plain_oids \<Longrightarrow>
    find_type_entry (tl TypeMap) (GetDuckDBTypeName (scalar_duck_type oid)) = Inr (Some (TypeMap ! DuckDBType_index (scalar_duck_type oid)))"
  by (rule entry_of_name) (auto simp: plain_oids_def scalar_duck_type_def)

lemma plain_builtin:
  assumes "oid \<in> set plain_oids"
  shows "GetPGTypeForDuckDBTypeNameBuiltin (GetDuckDBTypeName (scalar_duck_type oid)) arr =
    Inr (Some (if arr then Array (Base oid) else Base oid), - 1)"
proof -
  have "ParseDecimalTypeModFromTypeName (GetDuckDBTypeName DUCKDB_TYPE_DECIMAL) = Inr (- 1)"
    by (simp add: type_names ParseDecimalTypeModFromTypeName_def)
  then show ?thesis unfolding GetPGTypeForDuckDBTypeNameBuiltin_def plain_lookup [OF assms]
    using plain_entries assms by (auto simp: list_all_iff split: if_splits)
qed

lemma base_length_prefix:
  assumes "list_all c_isalnum p" "\<not> c_isalnum c" "\<not> c_isspace c"
  shows "base_type_length (p @ c # r) = length p" "base_type_length p = length p"
proof -
  have "takeWhile (\<lambda>c. c_isspace c \<or> c_isalnum c) (p @ c # r) = p" "takeWhile (\<lambda>c. c_isspace c \<or> c_isalnum c) p = p"
    using assms by (auto simp: list_all_iff takeWhile_append2)
  then show "base_type_length (p @ c # r) = length p" "base_type_length p = length p"
    using assms(3) unfolding base_type_length_def by (cases p; simp add: nth_append)+
qed

lemma find_entry_prefix:
  assumes "list_all c_isalnum p" "\<not> c_isalnum c" "\<not> c_isspace c"
  shows "find_type_entry es (p @ c # r) = find_type_entry es p"
proof -
  have "IsMatchingTypeNameOrAlias (p @ c # r) e = IsMatchingTypeNameOrAlias p e" for e
    using base_length_prefix [OF assms] by (simp add: IsMatchingTypeNameOrAlias_def Let_def split: option.split)
  then show ?thesis by (induction es) (simp_all cong: if_cong)
qed

lemma nested_entries:
    "\<exists>e. find_type_entry (tl TypeMap) ''STRUCT'' = Inr (Some e) \<and> duckDBType e = DUCKDB_TYPE_STRUCT"
    "\<exists>e. find_type_entry (tl TypeMap) ''MAP'' = Inr (Some e) \<and> duckDBType e = DUCKDB_TYPE_MAP"
  using entry_of_name [of DUCKDB_TYPE_STRUCT] entry_of_name [of DUCKDB_TYPE_MAP] by (simp_all add: type_names TypeMap_def type_entry_def)

definition element_of :: "pg_type \<Rightarrow> pg_type" where
  "element_of t = (case get_element_type t of Some e \<Rightarrow> e | None \<Rightarrow> t)"

lemma element_of_size [termination_simp]: "size (element_of t) \<le> size t"
  by (simp add: element_of_def get_element_type_def split: pg_type.split)

lemma element_of_cases: "t = Array (element_of t) \<and> get_element_type t \<noteq> None \<or> t = element_of t \<and> get_element_type t = None"
  by (simp add: element_of_def get_element_type_def split: pg_type.split)

text \<open>
  The types that a name determines: base types that stand for their DuckDB type, and maps of them without modifiers.  \<^verbatim>\<open>jsonb[]\<close>
  has no name of its own, and an interval is a struct in Iceberg.
\<close>

fun plain :: "CopyDataFormat \<Rightarrow> pg_type \<Rightarrow> bool" where
  "plain format (Base oid) \<longleftrightarrow> oid \<in> set plain_oids \<and> (format = DATA_FORMAT_ICEBERG \<longrightarrow> oid \<noteq> INTERVALOID)"
| "plain format (MapType k km v vm) \<longleftrightarrow>
     km = - 1 \<and> vm = - 1 \<and> plain format k \<and> plain format (element_of v) \<and> v \<noteq> Array (Base JSONBOID)"
| "plain format t \<longleftrightarrow> False"

definition denotes :: "struct_env \<Rightarrow> CopyDataFormat \<Rightarrow> pg_type \<Rightarrow> string \<Rightarrow> bool" where
  "denotes env format t n \<longleftrightarrow> GetFullDuckDBTypeNameForPGType env t (- 1) format = Inr n \<and> GetDuckDBTypeForPGType t \<noteq> DUCKDB_TYPE_INVALID \<and>
     scans n \<and> \<not> IsStructType n \<and> IsMapType n = IsMapTypeOid t \<and> (\<forall>arr. \<exists>y. GetPGTypeForDuckDBTypeNameBuiltin n arr = Inr y) \<and>
     (\<forall>T. GetOrCreatePGTypeForDuckDBTypeName env n T = Inr (Some t, - 1, T))"

lemma plain_base_denotes:
  assumes "plain format (Base oid)"
  shows "denotes env format (Base oid) (GetDuckDBTypeName (scalar_duck_type oid))"
proof -
  let ?n = "GetDuckDBTypeName (scalar_duck_type oid)"
  have o: "oid \<in> set plain_oids" "format = DATA_FORMAT_ICEBERG \<longrightarrow> oid \<noteq> INTERVALOID" using assms by simp_all
  note w = plain_words [OF o(1)]
  have b: "GetPGTypeForDuckDBTypeNameBuiltin ?n arr = Inr (Some (if arr then Array (Base oid) else Base oid), - 1)" for arr
    by (rule plain_builtin [OF o(1)])
  have d: "scalar_duck_type oid \<noteq> DUCKDB_TYPE_INVALID" "scalar_duck_type oid = DUCKDB_TYPE_INTERVAL \<longrightarrow> oid = INTERVALOID"
    using o(1) by (auto simp: plain_oids_def scalar_duck_type_def)
  have t: "GetDuckDBTypeForPGType (Base oid) = scalar_duck_type oid"
    by (simp add: GetDuckDBTypeForPGType_def get_element_type_def IsMapTypeOid_def is_composite_def)
  have "GetFullDuckDBTypeNameForPGType env (Base oid) (- 1) format = Inr ?n"
    using d o(2) by (subst GetFullDuckDBTypeNameForPGType.simps) (auto simp: t scalar_type_text_def Let_def)
  then show ?thesis
    using w(2) b d(1) t scans_word [OF w(1)] word_no_prefix [OF w(1), of "[]"]
    by (simp add: denotes_def IsMapTypeOid_def GetOrCreatePGTypeForDuckDBTypeName.simps)
qed

lemma builtin_nested: "\<exists>y. GetPGTypeForDuckDBTypeNameBuiltin (''STRUCT('' @ s) arr = Inr y" "\<exists>y. GetPGTypeForDuckDBTypeNameBuiltin (''MAP('' @ s) arr = Inr y"
proof -
  have p: "\<not> c_isalnum CHR ''(''" "\<not> c_isspace CHR ''(''" "list_all c_isalnum ''STRUCT''" "list_all c_isalnum ''MAP''" by code_simp+
  show "\<exists>y. GetPGTypeForDuckDBTypeNameBuiltin (''STRUCT('' @ s) arr = Inr y"
    using nested_entries(1) find_entry_prefix [OF p(3,1,2), of _ s] by (auto simp: GetPGTypeForDuckDBTypeNameBuiltin_def)
  show "\<exists>y. GetPGTypeForDuckDBTypeNameBuiltin (''MAP('' @ s) arr = Inr y"
    using nested_entries(2) find_entry_prefix [OF p(4,1,2), of _ s] by (auto simp: GetPGTypeForDuckDBTypeNameBuiltin_def)
qed

lemma scan_map_printed:
  assumes "scans k" "scans v"
  shows "scan_map (''MAP('' @ k @ '','' @ v @ (if arr then ''[]'' else []) @ '')'') = Inr (k, v, arr)"
proof -
  have s: "SkipWhitespace (k @ r) = k @ r" "SkipWhitespace (v @ r) = v @ r" for r
    using assms by (auto simp: scans_def intro!: skip_whitespace_nonspace)
  have n: "SkipWhitespace (CHR ''('' # r) = CHR ''('' # r" "SkipWhitespace (CHR '','' # r) = CHR '','' # r" "SkipWhitespace (CHR '')'' # r) = CHR '')'' # r" for r
    by (auto intro!: skip_whitespace_nonspace simp: c_isspace_def)
  define y where "y = v @ (if arr then ''[]'' else []) @ '')''"
  define x where "x = k @ CHR '','' # y"
  have "IsMapType (''MAP('' @ x)" by (rule struct_prefix)
  moreover have "scan_char CHR ''('' (SkipWhitespace (drop 3 (''MAP('' @ x))) = Some x" by (simp add: n scan_char_def)
  moreover have "ParseDuckDBFieldType (SkipWhitespace x) = Some (k, False, CHR '','' # y)"
    using field_type_printed [OF assms(1), of "CHR '','' # y" False] by (simp add: x_def s)
  moreover have "scan_char CHR '','' (SkipWhitespace (CHR '','' # y)) = Some y" by (simp add: n scan_char_def)
  moreover have "ParseDuckDBFieldType (SkipWhitespace y) = Some (v, arr, '')'')"
    unfolding y_def s by (rule field_type_printed [OF assms(2)]) simp_all
  moreover have "scan_char CHR '')'' (SkipWhitespace '')'') = Some []" by (simp add: n scan_char_def)
  ultimately have "scan_map (''MAP('' @ x) = Inr (k, v, arr)"
    by (simp only: scan_map_def if_False if_True simp_thms option.case prod.case)
  then show ?thesis by (simp add: x_def y_def)
qed

lemma plain_related:
  assumes "plain format e"
  shows "GetRelatedTypeOid e True = Some (Array e)" "GetRelatedTypeOid e False = Some e" "GetRelatedTypeOid (Array e) False = Some e"
  using assms by (cases e; auto simp: GetRelatedTypeOid_def plain_oids_def)+

lemma full_name_map:
  "GetFullDuckDBTypeNameForPGType env (MapType k km v vm) typmod format =
     result_bind (GetFullDuckDBTypeNameForPGType env k km format) (\<lambda>kn.
     result_bind (GetFullDuckDBTypeNameForPGType env v vm format) (\<lambda>vn. Inr (''MAP('' @ kn @ '','' @ vn @ '')'')))"
  by (subst GetFullDuckDBTypeNameForPGType.simps) (simp add: GetDuckDBTypeForPGType_def get_element_type_def IsMapTypeOid_def)

lemma plain_denotes:
  assumes "plain format t"
  shows "\<exists>n. denotes env format t n"
  using assms
proof (induction format t rule: plain.induct)
  case (1 format oid)
  then show ?case using plain_base_denotes by blast
next
  case (2 format k km v vm)
  then have p: "km = - 1" "vm = - 1" "plain format k" "plain format (element_of v)" "v \<noteq> Array (Base JSONBOID)" by simp_all
  define arr where "arr \<longleftrightarrow> get_element_type v \<noteq> None"
  define e where "e = element_of v"
  have v: "v = (if arr then Array e else e)" using element_of_cases [of v] by (auto simp: arr_def e_def)
  obtain kn en where k: "denotes env format k kn" and e: "denotes env format e en" using 2 p(3,4) e_def by blast
  have pe: "plain format e" using p(4) e_def by simp
  have j: "arr \<longrightarrow> e \<noteq> Base JSONBOID" using p(5) v by auto
  let ?v = "en @ (if arr then ''[]'' else [])"
  let ?n = "''MAP('' @ kn @ '','' @ ?v @ '')''"
  have "GetFullDuckDBTypeNameForPGType env v (- 1) format = Inr ?v"
    using e j unfolding v by (cases arr)
      (simp_all add: denotes_def GetFullDuckDBTypeNameForPGType.simps [of env "Array e"] GetDuckDBTypeForPGType_def get_element_type_def)
  then have "GetFullDuckDBTypeNameForPGType env (MapType k km v vm) (- 1) format = Inr ?n"
    using k unfolding p(1,2) full_name_map by (simp add: denotes_def)
  moreover have "scans ?n"
  proof -
    have "balanced (kn @ '','' @ en @ (if arr then ''[]'' else []))"
      using k e by (intro balanced_append) (auto simp: denotes_def scans_def intro!: balanced_plain)
    from scans_map [OF this] show ?thesis by simp
  qed
  moreover have "GetOrCreatePGMapType env ?n T = Inr (MapType k (- 1) v (- 1), T)" for T
    using scan_map_printed [of kn en arr] k e plain_related(1) [OF pe] unfolding v
    by (subst GetOrCreatePGMapType.simps) (simp add: denotes_def)
  ultimately have "denotes env format (MapType k km v vm) ?n"
    using struct_prefix(2,3) [of "kn @ '','' @ ?v @ '')''"] builtin_nested(2) [of "kn @ '','' @ ?v @ '')''"] p(1,2)
    by (simp add: denotes_def GetOrCreatePGTypeForDuckDBTypeName.simps IsMapTypeOid_def GetDuckDBTypeForPGType_def get_element_type_def)
  then show ?case by blast
qed simp_all

section \<open>Parsing what was printed\<close>

definition ParseStructString :: "struct_env \<Rightarrow> string \<Rightarrow> composite_row list \<Rightarrow> (CompositeType option \<times> composite_row list) result" where
  "ParseStructString env name types =
     (if \<not> IsStructType name then Inr (None, types)
      else result_bind (ParseStructType env name types) (\<lambda>(t, types). Inr (Some t, types)))"

text \<open>
  The trees the parser gives for printed names.  The type of an array column is the array type, but that of a column of arrays of maps is
  the map type; a column with a sub-structure has no type yet.
\<close>

fun printable :: "struct_env \<Rightarrow> CopyDataFormat \<Rightarrow> CompositeType \<Rightarrow> bool"
  and printable_columns :: "struct_env \<Rightarrow> CopyDataFormat \<Rightarrow> CompositeCol list \<Rightarrow> bool" where
  "printable env format (CompositeType cols isArray) \<longleftrightarrow> printable_columns env format cols"
| "printable_columns env format [] \<longleftrightarrow> True"
| "printable_columns env format (CompositeCol name ct cn isArray sub # cols) \<longleftrightarrow>
     (case sub of
        Some st \<Rightarrow> ct = None \<and> \<not> ct_isArray st \<and> printable env format st \<and> GetDuckDBStructDefinitionForCompositeType env st format = Inr cn
      | None \<Rightarrow>
          (case ct of
             None \<Rightarrow> False
           | Some t \<Rightarrow>
               let e = element_of t
               in plain format e \<and> GetFullDuckDBTypeNameForPGType env e (- 1) format = Inr cn \<and>
                  (if IsMapTypeOid e then t = e else (t = Array e) = isArray))) \<and>
     printable_columns env format cols"

lemma name_start:
  assumes "quoting_ok env"
  obtains c u where "QuoteDuckDBFieldName env n = c # u" "\<not> c_isspace c" "c \<noteq> CHR '')''"
proof (cases "needs_quote env n \<or> is_keyword env n")
  case True
  then have "QuoteDuckDBFieldName env n = CHR 34 # double_quotes n @ [CHR 34]"
    by (auto simp: QuoteDuckDBFieldName_def duckdb_quote_identifier_def ForceQuoteIdentifier_def)
  then show ?thesis by (rule that) (simp_all add: c_isspace_def)
next
  case False
  then obtain c u where n: "n = c # u" "c_isalnum c \<or> c = CHR ''_''" using assms by (cases n) (auto simp: quoting_ok_def)
  moreover have "QuoteDuckDBFieldName env n = n" using False by (simp add: QuoteDuckDBFieldName_def duckdb_quote_identifier_def)
  ultimately show ?thesis by (intro that [of c u]) (auto simp: c_isspace_def c_isalnum_def c_isdigit_def)
qed

lemma comma_first:
  "column_definitions env cols format True =
     result_bind (column_definitions env cols format False) (\<lambda>s. Inr (if cols = [] then [] else CHR '','' # s))"
proof (cases cols)
  case (Cons col cs)
  then show ?thesis by (cases col) (simp add: result_bind_def split: sum.split option.split)
qed simp

text \<open>The column the parser gives for the text of one column, when the text of its type is known.\<close>

lemma scan_column_printed:
  assumes "quoting_ok env" "scans cn" "r \<noteq> []" "hd r = CHR '','' \<or> hd r = CHR '')''"
  shows "scan_column (QuoteDuckDBFieldName env n @ '' '' @ cn @ (if arr then ''[]'' else []) @ r) = Inr (n, cn, arr, r)"
proof -
  have "SkipWhitespace (CHR '' '' # cn @ x) = cn @ x" for x
    using assms(2) skip_whitespace_nonspace [of "cn @ x"] by (auto simp: scans_def SkipWhitespace_def c_isspace_def)
  then show ?thesis
    using field_name_printed [OF assms(1), of n "cn @ (if arr then ''[]'' else []) @ r"] field_type_printed [OF assms(2-4), of arr]
    by (simp add: scan_column_def)
qed

lemma plain_column:
  assumes "plain format (element_of t)" "GetFullDuckDBTypeNameForPGType env (element_of t) (- 1) format = Inr cn"
  shows "scans cn" "\<not> IsStructType cn" "\<exists>y. GetPGTypeForDuckDBTypeNameBuiltin cn arr = Inr y"
    "IsMapTypeOid (element_of t) \<Longrightarrow> IsMapType cn \<and> GetOrCreatePGMapType env cn T = Inr (element_of t, T)"
    "\<not> IsMapTypeOid (element_of t) \<Longrightarrow> \<not> IsMapType cn \<and> (\<exists>m. GetPGTypeForDuckDBTypeNameBuiltin cn arr =
        Inr (Some (if arr then Array (element_of t) else element_of t), m))"
    "GetRelatedTypeOid t False = Some (element_of t)" "GetDuckDBTypeForPGType (element_of t) \<noteq> DUCKDB_TYPE_INVALID"
proof -
  obtain n where "denotes env format (element_of t) n" using plain_denotes [OF assms(1)] by blast
  then have d: "denotes env format (element_of t) cn" using assms(2) by (simp add: denotes_def)
  then show "scans cn" "\<not> IsStructType cn" "\<exists>y. GetPGTypeForDuckDBTypeNameBuiltin cn arr = Inr y"
    "GetDuckDBTypeForPGType (element_of t) \<noteq> DUCKDB_TYPE_INVALID" by (simp_all add: denotes_def)
  have "GetOrCreatePGTypeForDuckDBTypeName env cn T = Inr (Some (element_of t), - 1, T)" using d by (simp add: denotes_def)
  then show "IsMapTypeOid (element_of t) \<Longrightarrow> IsMapType cn \<and> GetOrCreatePGMapType env cn T = Inr (element_of t, T)"
    using d by (auto simp: denotes_def GetOrCreatePGTypeForDuckDBTypeName.simps [of env cn] result_bind_Inr_iff)
  show "GetRelatedTypeOid t False = Some (element_of t)"
    using element_of_cases [of t] plain_related(2,3) [OF assms(1)] by metis
  assume "\<not> IsMapTypeOid (element_of t)"
  then obtain oid where o: "element_of t = Base oid" using assms(1) by (cases "element_of t") (auto simp: IsMapTypeOid_def)
  then have "cn = GetDuckDBTypeName (scalar_duck_type oid)" using plain_base_denotes [of format oid env] assms by (simp add: denotes_def)
  then show "\<not> IsMapType cn \<and> (\<exists>m. GetPGTypeForDuckDBTypeNameBuiltin cn arr = Inr (Some (if arr then Array (element_of t) else element_of t), m))"
    using plain_builtin [of oid arr] assms(1) d o by (simp add: denotes_def IsMapTypeOid_def)
qed

lemma parse_step:
  assumes "quoting_ok env" "scans cn" "r \<noteq> []" "hd r = CHR '','' \<or> hd r = CHR '')''"
    and "GetPGTypeForDuckDBTypeNameBuiltin cn arr = Inr (b, m)"
    and "(if IsStructType cn then result_bind (ParseStructType env cn T) (\<lambda>(sub, types). Inr (None, Some sub, types))
          else if IsMapType cn then result_bind (GetOrCreatePGMapType env cn T) (\<lambda>(t, types). Inr (Some t, None, types))
          else Inr (b, None, T)) = Inr (ct, sub, T)"
  shows "parse_columns env (QuoteDuckDBFieldName env n @ '' '' @ cn @ (if arr then ''[]'' else []) @ r) T =
    result_bind (ParseSkipToNextField r) (\<lambda>s. result_bind (parse_columns env s T) (\<lambda>(cols, s, types).
      Inr (CompositeCol n ct cn arr sub # cols, s, types)))"
proof -
  obtain c u where c: "QuoteDuckDBFieldName env n = c # u" "c \<noteq> CHR '')''" using name_start [OF assms(1)] by metis
  show ?thesis
    by (subst parse_columns.simps) (simp only: scan_column_printed [OF assms(1-4)] assms(5,6) result_bind_simps prod.case, simp add: c)
qed

lemma parse_next:
  assumes "cols = [] \<longrightarrow> s = []" "cols \<noteq> [] \<longrightarrow> (\<exists>c u. s = c # u \<and> \<not> c_isspace c)"
  shows "ParseSkipToNextField ((if cols = [] then [] else CHR '','' # s) @ CHR '')'' # r) = Inr (s @ CHR '')'' # r)"
  using assms by (auto simp: ParseSkipToNextField_def SkipWhitespace_def c_isspace_def [of "CHR '',''"] c_isspace_def [of "CHR '')''"])

definition columns_parse :: "struct_env \<Rightarrow> CompositeCol list \<Rightarrow> string \<Rightarrow> bool" where
  "columns_parse env cols s \<longleftrightarrow> balanced s \<and> (cols = [] \<longrightarrow> s = []) \<and> (cols \<noteq> [] \<longrightarrow> (\<exists>c u. s = c # u \<and> \<not> c_isspace c)) \<and>
     (\<forall>T r. parse_columns env (s @ CHR '')'' # r) T = Inr (cols, CHR '')'' # r, T))"

lemma columns_parse_Nil: "columns_parse env [] []"
  by (simp add: columns_parse_def balanced_Nil parse_columns.simps)

lemma struct_parse:
  assumes "columns_parse env cols s"
  shows "ParseStructType env (''STRUCT('' @ s @ '')'' @ (if arr then ''[]'' else [])) T = Inr (CompositeType cols arr, T)"
proof -
  have "parse_columns env (s @ CHR '')'' # r) T = Inr (cols, CHR '')'' # r, T)" for r using assms by (simp add: columns_parse_def)
  then show ?thesis
    using struct_prefix(5) [of "s @ CHR '')'' # (if arr then ''[]'' else [])"] by (subst ParseStructType.simps) simp
qed

text \<open>The text \<open>cn\<close> of a type gives a column of type \<open>ct\<close> with the sub-structure \<open>sub\<close>, without changing the catalog.\<close>

definition resolves :: "struct_env \<Rightarrow> string \<Rightarrow> bool \<Rightarrow> pg_type option \<Rightarrow> CompositeType option \<Rightarrow> bool" where
  "resolves env cn arr ct sub \<longleftrightarrow> scans cn \<and> (\<exists>b m. GetPGTypeForDuckDBTypeNameBuiltin cn arr = Inr (b, m) \<and>
      (\<forall>T. (if IsStructType cn then result_bind (ParseStructType env cn T) (\<lambda>(sub, types). Inr (None, Some sub, types))
          else if IsMapType cn then result_bind (GetOrCreatePGMapType env cn T) (\<lambda>(t, types). Inr (Some t, None, types))
          else Inr (b, None, T)) = Inr (ct, sub, T)))"

lemma columns_parse_Cons:
  assumes q: "quoting_ok env" and rs: "resolves env cn arr ct sub"
    and cs: "columns_parse env cols s"
  shows "columns_parse env (CompositeCol n ct cn arr sub # cols)
    (QuoteDuckDBFieldName env n @ '' '' @ cn @ (if arr then ''[]'' else []) @ (if cols = [] then [] else CHR '','' # s))"
    (is "columns_parse env ?cols ?s")
proof -
  obtain c u where c: "QuoteDuckDBFieldName env n = c # u" "\<not> c_isspace c" using name_start [OF q] by metis
  have cn: "scans cn" using rs by (simp add: resolves_def)
  obtain b m where b: "GetPGTypeForDuckDBTypeNameBuiltin cn arr = Inr (b, m)"
    "\<And>T. (if IsStructType cn then result_bind (ParseStructType env cn T) (\<lambda>(sub, types). Inr (None, Some sub, types))
        else if IsMapType cn then result_bind (GetOrCreatePGMapType env cn T) (\<lambda>(t, types). Inr (Some t, None, types))
        else Inr (b, None, T)) = Inr (ct, sub, T)" using rs unfolding resolves_def by blast
  have "balanced (if cols = [] then [] else CHR '','' # s)"
    using balanced_Cons [of "CHR '',''" s] balanced_Nil cs by (simp add: columns_parse_def)
  moreover have "balanced (if arr then ''[]'' else [])" by (rule balanced_plain) simp
  ultimately have "balanced (cn @ (if arr then ''[]'' else []) @ (if cols = [] then [] else CHR '','' # s))"
    using cn unfolding scans_def by (intro balanced_append) simp_all
  from balanced_name [OF q _ _ _ this, of "CHR '' ''" n] have "balanced ?s" by simp
  moreover have "parse_columns env (?s @ CHR '')'' # r) T = Inr (?cols, CHR '')'' # r, T)" for T r
  proof -
    let ?r = "(if cols = [] then [] else CHR '','' # s) @ CHR '')'' # r"
    have "parse_columns env (QuoteDuckDBFieldName env n @ '' '' @ cn @ (if arr then ''[]'' else []) @ ?r) T =
      result_bind (ParseSkipToNextField ?r) (\<lambda>s. result_bind (parse_columns env s T) (\<lambda>(cols, s, types).
      Inr (CompositeCol n ct cn arr sub # cols, s, types)))"
      by (rule parse_step [OF q cn _ _ b(1) b(2)]) simp_all
    also have "ParseSkipToNextField ?r = Inr (s @ CHR '')'' # r)" using cs by (intro parse_next) (auto simp: columns_parse_def)
    finally show ?thesis using cs by (simp add: columns_parse_def)
  qed
  ultimately show ?thesis using c by (simp add: columns_parse_def)
qed

lemma struct_column:
  assumes "\<exists>s. GetDuckDBStructDefinitionForCompositeType env st format =
      Inr (''STRUCT('' @ s @ '')'' @ (if ct_isArray st then ''[]'' else [])) \<and> columns_parse env (ct_cols st) s"
    and "\<not> ct_isArray st" "GetDuckDBStructDefinitionForCompositeType env st format = Inr cn"
  shows "resolves env cn arr None (Some st)"
proof -
  obtain s where s: "cn = ''STRUCT('' @ s @ '')''" "columns_parse env (ct_cols st) s" using assms by auto
  have "ParseStructType env cn T = Inr (st, T)" for T
    using struct_parse [OF s(2), of False T] assms(2) s(1) by (cases st) simp
  moreover have "scans cn" using scans_struct [of s] s by (simp add: columns_parse_def)
  moreover have "IsStructType cn" unfolding s(1) by (rule struct_prefix)
  moreover obtain b m where "GetPGTypeForDuckDBTypeNameBuiltin cn arr = Inr (b, m)"
    using builtin_nested(1) [of "s @ '')''" arr] s(1) by auto
  ultimately show ?thesis by (simp add: resolves_def)
qed

lemma type_column:
  assumes "plain format (element_of t)" "GetFullDuckDBTypeNameForPGType env (element_of t) (- 1) format = Inr cn"
    "if IsMapTypeOid (element_of t) then t = element_of t else (t = Array (element_of t)) = arr"
  shows "resolves env cn arr (Some t) None"
proof (cases "IsMapTypeOid (element_of t)")
  case True
  then show ?thesis using plain_column(1-3) [OF assms(1,2)] plain_column(4) [OF assms(1,2) True] assms(3) unfolding resolves_def by fastforce
next
  case False
  have "t = (if arr then Array (element_of t) else element_of t)" using assms(3) False element_of_cases [of t] by (cases arr) auto
  then show ?thesis using plain_column(1,2) [OF assms(1,2)] plain_column(5) [OF assms(1,2) False, of arr] unfolding resolves_def by auto
qed

lemma printed_parse:
  "printable env format st \<Longrightarrow> quoting_ok env \<Longrightarrow> \<exists>s. GetDuckDBStructDefinitionForCompositeType env st format =
      Inr (''STRUCT('' @ s @ '')'' @ (if ct_isArray st then ''[]'' else [])) \<and> columns_parse env (ct_cols st) s"
  "printable_columns env format cols \<Longrightarrow> quoting_ok env \<Longrightarrow> \<exists>s. column_definitions env cols format False = Inr s \<and> columns_parse env cols s"
proof (induction env format st and env format cols rule: printable_printable_columns.induct)
  case (1 env format cols isArray)
  then obtain s where "column_definitions env cols format False = Inr s" "columns_parse env cols s" by auto
  then show ?case by simp
next
  case (2 env format)
  then show ?case using columns_parse_Nil by simp
next
  case (3 env format name ct cn isArray sub cols)
  obtain s where s: "column_definitions env cols format False = Inr s" "columns_parse env cols s" using 3 by auto
  have "(case sub of Some st \<Rightarrow> GetDuckDBStructDefinitionForCompositeType env st format = Inr cn \<and> ct = None
     | None \<Rightarrow> \<exists>t. ct = Some t \<and> GetRelatedTypeOid t False = Some (element_of t) \<and> GetDuckDBTypeForPGType (element_of t) \<noteq> DUCKDB_TYPE_INVALID \<and>
         GetFullDuckDBTypeNameForPGType env (element_of t) (- 1) format = Inr cn) \<and> resolves env cn isArray ct sub" (is "?print \<and> _")
  proof (cases sub)
    case (Some st)
    then show ?thesis using 3 struct_column [OF 3(1) [OF Some], of cn isArray] by simp
  next
    case None
    then obtain t where "ct = Some t" "plain format (element_of t)" "GetFullDuckDBTypeNameForPGType env (element_of t) (- 1) format = Inr cn"
      "if IsMapTypeOid (element_of t) then t = element_of t else (t = Array (element_of t)) = isArray"
      using 3(3) by (auto simp: Let_def split: option.splits)
    then show ?thesis using None type_column [of format t env cn isArray] plain_column(6,7) [of format t env cn] by simp
  qed
  then have "?print" and c: "resolves env cn isArray ct sub" by blast+
  then have "column_definitions env (CompositeCol name ct cn isArray sub # cols) format False =
    Inr (QuoteDuckDBFieldName env name @ '' '' @ cn @ (if isArray then ''[]'' else []) @ (if cols = [] then [] else CHR '','' # s))"
    using s(1) by (cases sub) (auto simp: comma_first)
  then show ?case using columns_parse_Cons [OF 3(4) c s(2)] by blast
qed

section \<open>Types are found again\<close>

text \<open>
  An operation on the catalog only appends rows and, run again on the extended catalog, gives the same result without a change.  \<open>put\<close> is the
  shape of its result.  In recovery no rows are appended.
\<close>

definition catalog_stable :: "struct_env \<Rightarrow> ('x \<Rightarrow> composite_row list \<Rightarrow> 'r) \<Rightarrow> (composite_row list \<Rightarrow> 'r result) \<Rightarrow> bool" where
  "catalog_stable env put f \<longleftrightarrow> (\<forall>T x T'. f T = Inr (put x T') \<longrightarrow> (\<exists>ext. T' = T @ ext \<and> (RecoveryInProgress env \<longrightarrow> ext = []) \<and>
     (\<forall>more. (RecoveryInProgress env \<longrightarrow> more = []) \<longrightarrow> f (T' @ more) = Inr (put x (T' @ more)))))"

abbreviation put3 :: "'a \<times> 'b \<Rightarrow> 'c \<Rightarrow> 'a \<times> 'b \<times> 'c" where
  "put3 x T \<equiv> (fst x, snd x, T)"

lemma stableD:
  assumes "catalog_stable env put f" "f T = Inr (put x T')"
  shows "f T' = Inr (put x T')"
proof -
  obtain ext where "\<forall>more. (RecoveryInProgress env \<longrightarrow> more = []) \<longrightarrow> f (T' @ more) = Inr (put x (T' @ more))"
    using assms(1) [unfolded catalog_stable_def, rule_format, OF assms(2)] by blast
  from this [rule_format, of "[]"] show ?thesis by simp
qed

lemma stable_error: "catalog_stable env put (\<lambda>T. Inl e)"
  by (simp add: catalog_stable_def)

lemma stable_bind:
  assumes f: "catalog_stable env put f" and g: "\<And>x. catalog_stable env put' (\<lambda>T. g (put x T))" and s: "\<And>r. \<exists>x T. r = put x T"
  shows "catalog_stable env put' (\<lambda>T. result_bind (f T) g)"
  unfolding catalog_stable_def
proof (intro allI impI)
  fix T y T''
  assume "result_bind (f T) g = Inr (put' y T'')"
  then obtain x T' where fT: "f T = Inr (put x T')" and gT: "g (put x T') = Inr (put' y T'')"
    using s unfolding result_bind_Inr_iff by metis
  obtain e1 where e1: "T' = T @ e1" "RecoveryInProgress env \<longrightarrow> e1 = []"
    "\<And>more. (RecoveryInProgress env \<longrightarrow> more = []) \<Longrightarrow> f (T' @ more) = Inr (put x (T' @ more))" using f fT unfolding catalog_stable_def by blast
  obtain e2 where e2: "T'' = T' @ e2" "RecoveryInProgress env \<longrightarrow> e2 = []"
    "\<And>more. (RecoveryInProgress env \<longrightarrow> more = []) \<Longrightarrow> g (put x (T'' @ more)) = Inr (put' y (T'' @ more))"
    using g [of x] gT unfolding catalog_stable_def by blast
  have "result_bind (f (T'' @ more)) g = Inr (put' y (T'' @ more))" if "RecoveryInProgress env \<longrightarrow> more = []" for more
    using e1(3) [of "e2 @ more"] e2 that by simp
  then show "\<exists>ext. T'' = T @ ext \<and> (RecoveryInProgress env \<longrightarrow> ext = []) \<and>
      (\<forall>more. (RecoveryInProgress env \<longrightarrow> more = []) \<longrightarrow> result_bind (f (T'' @ more)) g = Inr (put' y (T'' @ more)))"
    using e1(1,2) e2(1,2) by (intro exI [of _ "e1 @ e2"]) simp
qed

lemma stable_bind_pair:
  assumes "catalog_stable env Pair f" "\<And>x. catalog_stable env put' (\<lambda>T. g (x, T))"
  shows "catalog_stable env put' (\<lambda>T. result_bind (f T) g)"
  by (rule stable_bind [OF assms(1)]) (use assms(2) in auto)

lemma stable_bind_triple:
  assumes "catalog_stable env put3 f" "\<And>x y. catalog_stable env put' (\<lambda>T. g (x, y, T))"
  shows "catalog_stable env put' (\<lambda>T. result_bind (f T) g)"
  by (rule stable_bind [OF assms(1)]) (use assms(2) in auto)

lemma stable_bind_pure:
  assumes "\<And>x. catalog_stable env put' (\<lambda>T. g x T)"
  shows "catalog_stable env put' (\<lambda>T. result_bind r (\<lambda>x. g x T))"
  using assms by (cases r) (simp_all add: stable_error)

lemma stable_Inr: "catalog_stable env Pair (\<lambda>T. Inr (x, T))" "catalog_stable env put3 (\<lambda>T. Inr (a, b, T))"
  by (simp_all add: catalog_stable_def)

lemma stable_option:
  assumes "catalog_stable env put f" "\<And>x. catalog_stable env put (g x)"
  shows "catalog_stable env put (\<lambda>T. case opt of None \<Rightarrow> f T | Some x \<Rightarrow> g x T)"
  using assms by (cases opt) simp_all

lemma stable_if:
  assumes "c \<Longrightarrow> catalog_stable env put f" "\<not> c \<Longrightarrow> catalog_stable env put g"
  shows "catalog_stable env put (\<lambda>T. if c then f T else g T)"
  using assms by (cases c) simp_all

lemma find_append: "find P (xs @ ys) = (case find P xs of Some x \<Rightarrow> Some x | None \<Rightarrow> find P ys)"
  by (induction xs) simp_all

lemma stable_find_or_create: "catalog_stable env Pair (FindOrCreatePGCompositeType env tname cols isArray)"
  unfolding catalog_stable_def
proof (intro allI impI)
  fix T t T'
  let ?f = "FindOrCreatePGCompositeType env tname cols isArray"
  assume r: "?f T = Inr (t, T')"
  show "\<exists>ext. T' = T @ ext \<and> (RecoveryInProgress env \<longrightarrow> ext = []) \<and>
      (\<forall>more. (RecoveryInProgress env \<longrightarrow> more = []) \<longrightarrow> ?f (T' @ more) = Inr (t, T' @ more))"
  proof (cases "find_composite env cols T")
    case (Some row)
    moreover have "find_composite env cols (T @ more) = Some row" for more using Some by (simp add: find_composite_def find_append)
    ultimately show ?thesis using r by (auto simp: FindOrCreatePGCompositeType_def Let_def)
  next
    case None
    show ?thesis
    proof (cases "RecoveryInProgress env")
      case True
      then show ?thesis using r None by (auto simp: FindOrCreatePGCompositeType_def)
    next
      case False
      define as where "as = map (\<lambda>(n, t). Attribute (namein env n) t (- 1) False False None) cols"
      define row where "row = \<lparr>cr_schema = STRUCT_TYPES_SCHEMA, cr_typname = namein env tname, cr_attributes = as\<rparr>"
      have c: "t = (if isArray then Array (Composite as) else Composite as)" "T' = T @ [row]"
        using r None False by (auto simp: FindOrCreatePGCompositeType_def CreatePGCompositeType_def result_bind_Inr_iff Let_def as_def row_def
            GetRelatedTypeOid_def split: option.splits if_splits)
      have "live_attributes row = as" by (auto simp: live_attributes_def row_def as_def filter_id_conv)
      then have "find_composite env cols ((T @ [row]) @ more) = Some row" for more
        using None by (simp add: find_composite_def find_append) (auto simp: row_def as_def)
      then show ?thesis using c False by (auto simp: FindOrCreatePGCompositeType_def row_def)
    qed
  qed
qed

lemma stable_create:
  "catalog_stable env Pair (CreateUncreatedTypes env st)"
  "catalog_stable env Pair (create_sub_types env cols)"
proof (induction env "DATA_FORMAT_CSV" st and env "DATA_FORMAT_CSV" cols rule: printable_printable_columns.induct)
  case (1 env cols isArray)
  show ?case unfolding CreateUncreatedTypes.simps
    by (auto intro!: stable_bind_pair [OF 1] stable_bind_pure stable_bind_pair [OF stable_find_or_create] stable_option stable_error stable_Inr)
next
  case (2 env)
  then show ?case by (simp add: catalog_stable_def)
next
  case (3 env name ct cn isArray sub cols)
  show ?case
  proof (cases sub)
    case None
    show ?thesis unfolding None create_sub_types.simps option.case by (auto intro!: stable_bind_pair [OF 3(2)] stable_Inr)
  next
    case (Some st)
    show ?thesis unfolding Some create_sub_types.simps option.case by (auto intro!: stable_bind_pair [OF 3(1) [OF Some]] stable_bind_pair [OF 3(2)] stable_Inr)
  qed
qed

definition all_stable :: "struct_env \<Rightarrow> string \<Rightarrow> bool" where
  "all_stable env s \<longleftrightarrow> catalog_stable env put3 (GetOrCreatePGTypeForDuckDBTypeName env s) \<and> catalog_stable env Pair (GetOrCreatePGStructType env s) \<and>
     catalog_stable env Pair (GetOrCreatePGMapType env s) \<and> catalog_stable env Pair (ParseStructType env s) \<and>
     catalog_stable env put3 (parse_columns env s)"

lemma stable_columns:
  assumes "\<And>t. length t < length s \<Longrightarrow> all_stable env t"
  shows "catalog_stable env put3 (parse_columns env s)"
proof (cases "s = [] \<or> hd s = CHR '')''")
  case True
  then have "parse_columns env s = (\<lambda>T. Inr ([], s, T))" by (auto simp: parse_columns.simps fun_eq_iff)
  then show ?thesis by (simp add: stable_Inr)
next
  case False
  show ?thesis
  proof (cases "scan_column s")
    case (Inl e)
    then have "parse_columns env s = (\<lambda>T. Inl e)" using False by (auto simp: parse_columns.simps fun_eq_iff)
    then show ?thesis by (simp add: stable_error)
  next
    case (Inr c)
    obtain n t arr r where c: "c = (n, t, arr, r)" by (cases c) auto
    have l: "length t < length s" "length r < length s" using scan_column_length Inr c by blast+
    have t: "catalog_stable env Pair (ParseStructType env t)" "catalog_stable env Pair (GetOrCreatePGMapType env t)"
      using assms [OF l(1)] by (simp_all add: all_stable_def)
    define column where "column b T =
      (if IsStructType t then result_bind (ParseStructType env t T) (\<lambda>(sub, T). Inr ((None, Some sub), T))
       else if IsMapType t then result_bind (GetOrCreatePGMapType env t T) (\<lambda>(t, T). Inr ((Some t, None), T))
       else Inr ((b, None), T))" for b T
    have column: "catalog_stable env Pair (column b)" for b unfolding column_def
      by (auto intro!: stable_if stable_bind_pair [OF t(1)] stable_bind_pair [OF t(2)] stable_Inr)
    have rest: "catalog_stable env put3 (parse_columns env q)" if "ParseSkipToNextField r = Inr q" for q
      using assms [of q] next_field_length [OF that] l(2) by (simp add: all_stable_def)
    have "parse_columns env s T =
      result_bind (GetPGTypeForDuckDBTypeNameBuiltin t arr) (\<lambda>(b, _). result_bind (column b T) (\<lambda>((ct, sub), T).
        result_bind (ParseSkipToNextField r) (\<lambda>q. result_bind (parse_columns env q T) (\<lambda>(cols, q, T).
        Inr (CompositeCol n ct t arr sub # cols, q, T)))))" for T
      using False by (subst parse_columns.simps) (auto simp: Inr c column_def result_bind_def split: sum.split)
    then have "parse_columns env s = (\<lambda>T. result_bind (GetPGTypeForDuckDBTypeNameBuiltin t arr) (\<lambda>(b, _). result_bind (column b T) (\<lambda>((ct, sub), T).
        result_bind (ParseSkipToNextField r) (\<lambda>q. result_bind (parse_columns env q T) (\<lambda>(cols, q, T).
        Inr (CompositeCol n ct t arr sub # cols, q, T))))))" by blast
    moreover have "catalog_stable env put3 (\<lambda>T. result_bind (column b T) (\<lambda>((ct, sub), T).
        result_bind (ParseSkipToNextField r) (\<lambda>q. result_bind (parse_columns env q T) (\<lambda>(cols, q, T).
        Inr (CompositeCol n ct t arr sub # cols, q, T)))))" for b
      by (cases "ParseSkipToNextField r")
        (auto intro!: stable_bind_pair [OF column] stable_bind_triple [OF rest] stable_Inr stable_error)
    ultimately show ?thesis by (cases "GetPGTypeForDuckDBTypeNameBuiltin t arr") (auto simp: stable_error)
  qed
qed

lemma stable_map:
  assumes "\<And>t. length t < length s \<Longrightarrow> all_stable env t"
  shows "catalog_stable env Pair (GetOrCreatePGMapType env s)"
proof (cases "scan_map s")
  case (Inl e)
  then have "GetOrCreatePGMapType env s = (\<lambda>T. Inl e)" by (auto simp: GetOrCreatePGMapType.simps fun_eq_iff)
  then show ?thesis by (simp add: stable_error)
next
  case (Inr c)
  obtain k v arr where c: "c = (k, v, arr)" by (cases c) auto
  have kv: "catalog_stable env put3 (GetOrCreatePGTypeForDuckDBTypeName env k)" "catalog_stable env put3 (GetOrCreatePGTypeForDuckDBTypeName env v)"
    using assms scan_map_length Inr c unfolding all_stable_def by blast+
  have "GetOrCreatePGMapType env s = (\<lambda>T. result_bind (GetOrCreatePGTypeForDuckDBTypeName env k T) (\<lambda>(keyOid, _, T).
     result_bind (GetOrCreatePGTypeForDuckDBTypeName env v T) (\<lambda>(valOid, _, T).
     case keyOid of None \<Rightarrow> Inl (InternalError ''could not resolve key or value MAP type as postgres type'')
     | Some k \<Rightarrow> (case valOid of None \<Rightarrow> Inl (InternalError ''could not resolve key or value MAP type as postgres type'')
       | Some v \<Rightarrow> (case (if arr then GetRelatedTypeOid v True else Some v) of
            None \<Rightarrow> Inl (InternalError ''no array type'') | Some v \<Rightarrow> Inr (MapType k (- 1) v (- 1), T))))))"
    by (rule ext, subst GetOrCreatePGMapType.simps) (auto simp: Inr c result_bind_def split: sum.split option.split)
  then show ?thesis
    by (auto intro!: stable_bind_triple [OF kv(1)] stable_bind_triple [OF kv(2)] stable_option stable_Inr stable_error)
qed

lemma all_stable_all: "all_stable env s"
proof (induction "length s" arbitrary: s rule: less_induct)
  case less
  have cols: "catalog_stable env put3 (parse_columns env s)" and m: "catalog_stable env Pair (GetOrCreatePGMapType env s)"
    using less by (auto intro: stable_columns stable_map)
  have p: "catalog_stable env Pair (ParseStructType env s)"
  proof (cases "ParseSkipCasePrefix s ''STRUCT''")
    case None
    then have "ParseStructType env s = (\<lambda>T. Inl Trap)" by (auto simp: ParseStructType.simps fun_eq_iff)
    then show ?thesis by (simp add: stable_error)
  next
    case (Some u)
    have u: "catalog_stable env put3 (parse_columns env u)" using less [OF skip_case_prefix_length [OF Some]] by (simp add: all_stable_def)
    have "catalog_stable env Pair (\<lambda>T. case q of [] \<Rightarrow> Inl (SyntaxError ''STRUCT ended before closing paren'')
      | _ # r \<Rightarrow> Inr (CompositeType cols (take 2 r = ''[]''), T))" for q cols by (cases q) (simp_all add: stable_Inr stable_error)
    moreover have "ParseStructType env s = (\<lambda>T. result_bind (parse_columns env u T) (\<lambda>(cols, q, T).
      case q of [] \<Rightarrow> Inl (SyntaxError ''STRUCT ended before closing paren'') | _ # r \<Rightarrow> Inr (CompositeType cols (take 2 r = ''[]''), T)))"
      using Some by (auto simp: ParseStructType.simps fun_eq_iff)
    ultimately show ?thesis by (auto intro!: stable_bind_triple [OF u])
  qed
  have st: "catalog_stable env Pair (GetOrCreatePGStructType env s)"
    unfolding GetOrCreatePGStructType.simps by (auto intro!: stable_bind_pair [OF p] stable_create(1))
  have "catalog_stable env put3 (GetOrCreatePGTypeForDuckDBTypeName env s)"
    unfolding GetOrCreatePGTypeForDuckDBTypeName.simps
    by (auto intro!: stable_if stable_bind_pure stable_bind_pair [OF st] stable_bind_pair [OF m] stable_Inr stable_error)
  then show ?case using cols m p st by (simp add: all_stable_def)
qed


section \<open>Properties\<close>

definition sample_struct_env :: struct_env where
  "sample_struct_env =
     \<lparr>needs_quote = (\<lambda>n. n = [] \<or> \<not> list_all (\<lambda>c. c_isalnum c \<or> c = CHR ''_'') n), is_keyword = (\<lambda>n. n = ''pivot''),
      namein = take 63, type_crc = (\<lambda>n ts. 7), RecoveryInProgress = False, refused = (\<lambda>n cols. None)\<rparr>"

definition sample_struct :: CompositeType where
  "sample_struct = CompositeType
     [CompositeCol ''a'' (Some (Array (Base INT4OID))) ''INTEGER'' True None,
      CompositeCol ''pivot'' None ''STRUCT(\"b)\" MAP(VARCHAR,BIGINT[]))'' True
        (Some (CompositeType [CompositeCol ''b)'' (Some (MapType (Base TEXTOID) (- 1) (Array (Base INT8OID)) (- 1))) ''MAP(VARCHAR,BIGINT[])'' False None] False))]
     False"

lemma sample_struct_quoting: "quoting_ok sample_struct_env"
  by (simp add: quoting_ok_def sample_struct_env_def)

lemma sample_struct_printable: "printable sample_struct_env DATA_FORMAT_PARQUET sample_struct"
  by code_simp

text \<open>
  C12: The parser of struct types inverts their printer.  Every tree of columns, nested structs and maps whose types a name determines is
  printed without error, and parsing the text gives exactly that tree and creates no types, whatever the names of the fields contain:
  quotes, commas, parentheses and keywords included.
\<close>

theorem ParseStructString_round_trip:
  assumes "quoting_ok env" "printable env format t"
  shows "\<exists>s. GetDuckDBStructDefinitionForCompositeType env t format = Inr s \<and> ParseStructString env s types = Inr (Some t, types)"
proof -
  obtain s where s: "GetDuckDBStructDefinitionForCompositeType env t format = Inr (''STRUCT('' @ s @ '')'' @ (if ct_isArray t then ''[]'' else []))"
    "columns_parse env (ct_cols t) s" using printed_parse(1) [OF assms(2,1)] by blast
  have "ParseStructType env (''STRUCT('' @ s @ '')'' @ (if ct_isArray t then ''[]'' else [])) types = Inr (t, types)"
    using struct_parse [OF s(2), of "ct_isArray t" types] by simp
  then show ?thesis using s(1) struct_prefix(1) [of "s @ '')'' @ (if ct_isArray t then ''[]'' else [])"] by (simp add: ParseStructString_def)
qed

theorem ParseStructString_round_trip_witness:
  "GetDuckDBStructDefinitionForCompositeType sample_struct_env sample_struct DATA_FORMAT_PARQUET =
     Inr ''STRUCT(a INTEGER[],\"pivot\" STRUCT(\"b)\" MAP(VARCHAR,BIGINT[]))[])'' \<and>
   ParseStructString sample_struct_env ''STRUCT(a INTEGER[],\"pivot\" STRUCT(\"b)\" MAP(VARCHAR,BIGINT[]))[])'' [] = Inr (Some sample_struct, [])"
proof -
  have "GetDuckDBStructDefinitionForCompositeType sample_struct_env sample_struct DATA_FORMAT_PARQUET =
     Inr ''STRUCT(a INTEGER[],\"pivot\" STRUCT(\"b)\" MAP(VARCHAR,BIGINT[]))[])''" by code_simp
  then show ?thesis using ParseStructString_round_trip [OF sample_struct_quoting sample_struct_printable, of "[]"] by auto
qed


definition sample_nested_name :: string where
  "sample_nested_name = ''STRUCT(a STRUCT(b INT)[], m MAP(INT, STRUCT(c INT)))''"

definition sample_nested_type :: pg_type where
  "sample_nested_type = Composite
     [Attribute ''a'' (Array (Composite [Attribute ''b'' (Base INT4OID) (- 1) False False None])) (- 1) False False None,
      Attribute ''m'' (MapType (Base INT4OID) (- 1) (Composite [Attribute ''c'' (Base INT4OID) (- 1) False False None]) (- 1)) (- 1) False False None]"



end
