(* ===== verification/Spec2Isabelle.thy ===== *)
theory Spec2Isabelle
  imports Murmur Truncate_Utils Temporal_Utils Binary_Serde Snapshot_Commit Vacuum Vacuum_Statement Files_Catalog Parse_Struct
begin

text \<open>
  A model of pg_lake, the PostgreSQL extensions that keep Iceberg tables in object storage, and proofs about it.

  \<^bold>\<open>The program.\<close>  A write to an Iceberg table produces data files in object storage and a list of metadata operations.  The
  operations change the catalog tables of PostgreSQL (the files of every table, their statistics, partition values and row ids) in
  the transaction of the write; at commit the same changes become a new Iceberg snapshot: manifests with the added and removed files, a
  manifest list and a new table metadata file.  Files written by a transaction that does not commit are found through a table of
  in-progress files, files that a snapshot no longer needs are put in a deletion queue, and VACUUM empties both.  Below that are the
  conversions between PostgreSQL and Iceberg values, partition transforms and their text form.

  \<^bold>\<open>Conventions.\<close>  A C struct is a record with the names of its members, an enum a datatype.  An \<^verbatim>\<open>ereport(ERROR)\<close> is the left part of
  \<open>pg_error + 'a\<close> (type \<open>result\<close>), undefined behaviour such as following a null pointer is the error \<open>Trap\<close>.  Bytes and
  unsigned words are \<open>word\<close>s; signed C integers are \<open>int\<close> with \<open>wrap16\<close>, \<open>wrap32\<close>, \<open>wrap64\<close> where they may overflow.  Tables of
  the SQL catalog are lists of rows, and an insertion checks the keys and foreign keys the table declares.  PostgreSQL, DuckDB, Avro, the
  clock, random numbers and the object store are arguments, mostly collected in records (\<open>type_io\<close>, \<open>pg_calendar\<close>,
  \<open>transform_env\<close>, \<open>manifest_env\<close>, \<open>queue_env\<close>, \<open>struct_env\<close>); what is relied on is a named hypothesis with an instance that meets it.

  \<^bold>\<open>Values\<close> (\<^verbatim>\<open>pg_lake_iceberg\<close>, \<^verbatim>\<open>pg_lake_engine\<close>).
  \<^item> Theory \<open>Prelude\<close>: results, integers of fixed width, bytes and decimal digits, shared by all others.
  \<^item> \<open>Murmur\<close> (\<^verbatim>\<open>utils/murmur.c\<close>): the bucket hash; the variant for 64-bit keys is the byte variant on the little-endian bytes.
  \<^item> \<open>Truncate_Utils\<close> (\<^verbatim>\<open>utils/truncate_utils.c\<close>): truncation rounds down to a multiple of the width, and where 32 bits wrap.
  \<^item> \<open>Temporal_Utils\<close> (\<^verbatim>\<open>utils/temporal_utils.c\<close>): years, months, days and hours since the epoch over an arbitrary calendar;
    a Gregorian calendar is built and shown to meet \<open>calendar_ok\<close>.
  \<^item> \<open>Numeric_Types\<close>, \<open>Numeric_Serde\<close>, \<open>Pg_Types\<close>, \<open>Binary_Serde\<close> (\<^verbatim>\<open>numeric.c\<close>, \<^verbatim>\<open>iceberg_type_numeric_binary_serde.c\<close>,
    \<^verbatim>\<open>iceberg_type_binary_serde.c\<close>, \<^verbatim>\<open>field.c\<close>): single-value serialization, with round trips and minimal length.
  \<^item> \<open>String_Utils\<close> (\<^verbatim>\<open>string_utils.c\<close>): the SQL literal of a string reads back as the string.
  \<^item> \<open>Duck_Types\<close> (\<^verbatim>\<open>pgduck/type.c\<close>): the types of DuckDB with their names and aliases; looking up the name of a type gives the type
    back, apart from three timestamps whose underscore ends the comparison.  A PostgreSQL type is the tree its catalog entries describe.
  \<^item> \<open>Parse_Struct\<close> (\<^verbatim>\<open>pgduck/parse_struct.c\<close>, \<^verbatim>\<open>map.c\<close>, \<^verbatim>\<open>keywords.c\<close>): names of nested types.  The parser of struct types inverts the
    printer for any field names, and asking again for the type of a name finds the types created before.  The composite types of
    the catalog are a list that these operations only append to.

  \<^bold>\<open>Iceberg metadata\<close> (\<^verbatim>\<open>pg_lake_iceberg/src/iceberg\<close>).
  \<^item> \<open>Iceberg_Types\<close>: the structs of \<^verbatim>\<open>metadata_spec.h\<close>, \<^verbatim>\<open>manifest_spec.h\<close> and \<^verbatim>\<open>partitioning.h\<close>.
  \<^item> \<open>Partition\<close> (\<^verbatim>\<open>partitioning/partition.c\<close>, \<^verbatim>\<open>spec_generation.c\<close>): tuples kept sorted by field id.
  \<^item> \<open>Manifest\<close>, \<open>Manifest_Merge\<close>, \<open>Manifest_State\<close> (\<^verbatim>\<open>api/manifest*.c\<close>, \<^verbatim>\<open>operations/manifest_merge.c\<close>): manifests in the object
    store, best-fit packing, and that merging and dropping deleted entries keep the live files.
  \<^item> \<open>Snapshot\<close>, \<open>Referenced_Files\<close> (\<^verbatim>\<open>api/snapshot.c\<close>, \<^verbatim>\<open>api/datafile.c\<close>, \<^verbatim>\<open>operations/find_referenced_files.c\<close>): which files a snapshot
    reaches, and that the files reported as unreferenced are exactly those only expired snapshots reach.
  \<^item> \<open>Table_Metadata\<close>, \<open>Data_Files\<close>, \<open>Metadata_Operations\<close>, \<open>Snapshot_Commit\<close> (\<^verbatim>\<open>api/table_metadata.c\<close>, \<^verbatim>\<open>data_file_stats.c\<close>,
    \<^verbatim>\<open>metadata_operations.c\<close>): building a snapshot from metadata operations.  The commit refines set union and difference on
    the files of the table, leaves every older snapshot readable, leaves no unused manifest without an in-progress record, and ends
    without error when its inputs are sound.

  \<^bold>\<open>Cleanup\<close> (\<^verbatim>\<open>pg_lake_engine/src/cleanup\<close>, \<^verbatim>\<open>pg_lake_table/src/ddl/vacuum.c\<close>).
  \<^item> \<open>In_Progress_Files\<close> (\<^verbatim>\<open>in_progress_files.c\<close>): sessions that interleave statement by statement, as an inductive step
    relation; no cleanup removes a file that a committed transaction keeps or an open one has written, and the code is a run of it.
  \<^item> \<open>Deletion_Queue\<close>, \<open>Vacuum\<close>, \<open>Vacuum_Statement\<close> (\<^verbatim>\<open>deletion_queue.c\<close>, \<^verbatim>\<open>vacuum.c\<close>): the loops are partial functions into
    \<open>option\<close>, so returning is itself a theorem: the loop over the deletion queue always returns within its limit, the loop over
    in-progress files returns when no transaction is open, and a case is shown in which it does not return.

  \<^bold>\<open>Catalog\<close> (\<^verbatim>\<open>pg_lake_table/src/fdw\<close>).
  \<^item> \<open>Partition_By_Parser\<close>, \<open>Partition_Transform\<close>, \<open>Partition_Spec_Catalog\<close> (\<^verbatim>\<open>partition_by_parser.c\<close>, \<^verbatim>\<open>partition_transform.c\<close>,
    \<^verbatim>\<open>partition_spec_catalog.c\<close>, part of \<^verbatim>\<open>ddl_changes.c\<close>): from the text of \<^verbatim>\<open>partition_by\<close> to the stored spec and back to transforms.
  \<^item> \<open>Files_Catalog\<close> (\<^verbatim>\<open>data_files_catalog.c\<close>, \<^verbatim>\<open>data_files_catalog_batch.c\<close>, \<^verbatim>\<open>row_id_mappings.c\<close>, \<^verbatim>\<open>pg_lake_table--3.0.sql\<close>):
    the catalog of files.  Batched changes equal changes one by one, every sequence keeps the integrity of the tables, and
    removing a data file leaves no deletion file behind.

  \<^bold>\<open>Interfaces.\<close>  The locales \<open>keyed_table\<close> (insertion into a table with a key), and those of the theories above, state what one component
  needs of another; each is interpreted on the definitions that model the code.

  \<^bold>\<open>Bounds.\<close>  No fuel is used: loops over lists are structural, the others have a termination proof or are partial functions.

  \<^bold>\<open>Not modelled.\<close>  The planner hooks, the deparser, pruning and the query rewriting work on parse trees of PostgreSQL, whose meaning is
  not part of these sources.  Reading and writing data files is text given to DuckDB.  The Avro, HTTP, REST and object store catalog
  clients, the pgduck server, the DuckDB extension in C++ and the background worker launcher are I/O around those libraries.  Left
  out although they could be translated: field ids and schemas (\<^verbatim>\<open>iceberg_field.c\<close>, \<^verbatim>\<open>register_field_ids.c\<close>), the choice of files to
  rewrite (\<^verbatim>\<open>writable_table.c\<close>), row id assignment, the JSON form of the table metadata, the CSV writer, the conversion of nested
  values to text and the functions of \<^verbatim>\<open>pg_map\<close>.  Of \<^verbatim>\<open>keywords.c\<close> the generated keyword table is a parameter.
\<close>

end
